(* ===== verification/Prelude.thy ===== *)
theory Prelude
  imports Main "HOL-Library.Word" "HOL-Library.Sublist"
begin

text \<open>
  Shared vocabulary of the development: the outcome of a Rust function, the question-mark
  operator on pure and on state-passing outcomes, machine bytes and the big-endian and
  little-endian conversions of the standard library, checked addition, and the slice operation
  \<^verbatim>\<open>chunks\<close>.  The generic lemmas are declared \<open>simp\<close> or collected in the named theorems below so
  that the component proofs stay short.
\<close>

unbundle bit_operations_syntax

named_theorems outcome_simps \<open>unfolding rules for outcomes and the question-mark operator\<close>

section \<open>Outcomes\<close>

text \<open>
  A Rust call returns \<^verbatim>\<open>Ok\<close>, returns \<^verbatim>\<open>Err\<close>, or panics (index out of range, \<^verbatim>\<open>todo!()\<close>,
  overflow checks).  The three are kept apart because callers handle errors and not panics.
\<close>

datatype ('e, 'a) res = Ok 'a | Err 'e | Panic

primrec res_bind :: "('e, 'a) res \<Rightarrow> ('a \<Rightarrow> ('e, 'b) res) \<Rightarrow> ('e, 'b) res" where
  "res_bind (Ok x) f = f x"
| "res_bind (Err e) f = Err e"
| "res_bind Panic f = Panic"

primrec map_err :: "('e \<Rightarrow> 'f) \<Rightarrow> ('e, 'a) res \<Rightarrow> ('f, 'a) res" where
  "map_err f (Ok x) = Ok x"
| "map_err f (Err e) = Err (f e)"
| "map_err f Panic = Panic"

primrec is_ok :: "('e, 'a) res \<Rightarrow> bool" where
  "is_ok (Ok x) = True"
| "is_ok (Err e) = False"
| "is_ok Panic = False"

primrec the_ok :: "('e, 'a) res \<Rightarrow> 'a" where
  "the_ok (Ok x) = x"

text \<open>
  \<open>bindS\<close> is the question-mark operator on a call that also changes state: an error or a panic
  leaves with the state reached so far.
\<close>

type_synonym ('e, 'a, 's) outcome = "('e, 'a) res \<times> 's"

definition bindS :: "('e, 'a, 's) outcome \<Rightarrow> ('a \<Rightarrow> 's \<Rightarrow> ('e, 'b, 's) outcome) \<Rightarrow> ('e, 'b, 's) outcome" where
  "bindS m f = (case m of (Ok x, s) \<Rightarrow> f x s | (Err e, s) \<Rightarrow> (Err e, s) | (Panic, s) \<Rightarrow> (Panic, s))"

lemma bindS_simps [simp]:
  "bindS (Ok x, s) f = f x s"
  "bindS (Err e, s) f = (Err e, s)"
  "bindS (Panic, s) f = (Panic, s)"
  by (simp_all add: bindS_def)

lemma res_bind_eq_Ok [simp]:
  "res_bind m f = Ok y \<longleftrightarrow> (\<exists>x. m = Ok x \<and> f x = Ok y)"
  by (cases m) auto

lemma res_bind_eq_Err [outcome_simps]:
  "res_bind m f = Err e \<longleftrightarrow> m = Err e \<or> (\<exists>x. m = Ok x \<and> f x = Err e)"
  by (cases m) auto

lemma res_bind_eq_Panic [outcome_simps]:
  "res_bind m f = Panic \<longleftrightarrow> m = Panic \<or> (\<exists>x. m = Ok x \<and> f x = Panic)"
  by (cases m) auto

lemma map_err_eq_iff [simp]:
  "map_err f m = Ok x \<longleftrightarrow> m = Ok x"
  "Ok x = map_err f m \<longleftrightarrow> m = Ok x"
  "map_err f m = Panic \<longleftrightarrow> m = Panic"
  "map_err f m = Err e \<longleftrightarrow> (\<exists>e'. m = Err e' \<and> e = f e')"
  by (cases m; auto)+

lemma is_ok_iff: "is_ok m \<longleftrightarrow> (\<exists>x. m = Ok x)"
  by (cases m) auto

lemma is_ok_map_err [simp]: "is_ok (map_err f m) = is_ok m"
  by (cases m) auto

lemma bindS_not_ok: "\<not> is_ok (fst m) \<Longrightarrow> \<not> is_ok (fst (bindS m f))"
  by (cases m; cases "fst m") auto

lemma bindS_eq_Ok:
  "bindS m f = (Ok y, t) \<longleftrightarrow> (\<exists>x s. m = (Ok x, s) \<and> f x s = (Ok y, t))"
  by (cases m; cases "fst m") (auto simp: bindS_def)

lemma bindS_eq_Err:
  "bindS m f = (Err e, t) \<longleftrightarrow> m = (Err e, t) \<or> (\<exists>x s. m = (Ok x, s) \<and> f x s = (Err e, t))"
  by (cases m; cases "fst m") (auto simp: bindS_def)

text \<open>\<^verbatim>\<open>std::io::Error\<close>: the one kind the program constructs itself, and the others by description.\<close>

datatype io_error = InvalidData | IoOther string

section \<open>Bytes and integers\<close>

type_synonym u8 = "8 word"
type_synonym u16 = "16 word"
type_synonym u64 = "64 word"
type_synonym bytes = "u8 list"

text \<open>\<open>as_u16 n\<close> is the cast \<^verbatim>\<open>n as u16\<close> of a \<^verbatim>\<open>usize\<close>: it keeps the low sixteen bits.\<close>

abbreviation as_u16 :: "nat \<Rightarrow> u16" where
  "as_u16 n \<equiv> of_nat n"

definition u16_to_be_bytes :: "u16 \<Rightarrow> bytes" where
  "u16_to_be_bytes w = [ucast (drop_bit 8 w), ucast w]"

definition u16_from_be_bytes :: "u8 \<Rightarrow> u8 \<Rightarrow> u16" where
  "u16_from_be_bytes a b = push_bit 8 (ucast a) OR ucast b"

definition u64_to_le_bytes :: "u64 \<Rightarrow> bytes" where
  "u64_to_le_bytes w = map (\<lambda>i. ucast (drop_bit (8 * i) w)) [0..<8]"

definition u64_to_be_bytes :: "u64 \<Rightarrow> bytes" where
  "u64_to_be_bytes w = rev (u64_to_le_bytes w)"

lemma length_u16_to_be_bytes [simp]: "length (u16_to_be_bytes w) = 2"
  by (simp add: u16_to_be_bytes_def)

lemma length_u64_to_le_bytes [simp]: "length (u64_to_le_bytes w) = 8"
  by (simp add: u64_to_le_bytes_def)

lemma length_u64_to_be_bytes [simp]: "length (u64_to_be_bytes w) = 8"
  by (simp add: u64_to_be_bytes_def)

lemma u16_be_roundtrip [simp]:
  "u16_from_be_bytes (ucast (drop_bit 8 w)) (ucast w) = w"
  unfolding u16_from_be_bytes_def
  by (rule bit_word_eqI) (auto simp: bit_simps)

lemma u64_le_nth: "i < 8 \<Longrightarrow> u64_to_le_bytes w ! i = ucast (drop_bit (8 * i) w)"
  by (simp add: u64_to_le_bytes_def)

lemma u64_to_le_bytes_inject [simp]:
  "u64_to_le_bytes v = u64_to_le_bytes w \<longleftrightarrow> v = w"
proof
  assume eq: "u64_to_le_bytes v = u64_to_le_bytes w"
  show "v = w"
  proof (rule bit_word_eqI)
    fix n assume "n < LENGTH(64)"
    then have n: "n div 8 < 8" "n mod 8 < 8" by simp_all
    from eq have "u64_to_le_bytes v ! (n div 8) = u64_to_le_bytes w ! (n div 8)" by simp
    then have "bit (ucast (drop_bit (8 * (n div 8)) v) :: u8) (n mod 8)
             = bit (ucast (drop_bit (8 * (n div 8)) w) :: u8) (n mod 8)"
      using n by (simp add: u64_le_nth)
    then show "bit v n = bit w n"
      using n by (simp add: bit_simps)
  qed
qed simp

lemma unat_as_u16 [simp]: "n < 65536 \<Longrightarrow> unat (as_u16 n) = n"
  by (simp add: unat_of_nat take_bit_nat_eq_self)

lemma unat_as_u16_mod: "unat (as_u16 n) = n mod 65536"
  by (simp add: unat_of_nat take_bit_eq_mod)

text \<open>
  Addition on \<^verbatim>\<open>u64\<close>.  The flag \<open>oc\<close> is the build profile's \<^verbatim>\<open>overflow-checks\<close>: with it an
  overflow panics (debug builds), without it the sum wraps (release builds).
\<close>

definition add_u64 :: "bool \<Rightarrow> u64 \<Rightarrow> u64 \<Rightarrow> ('e, u64) res" where
  "add_u64 oc a b = (if oc \<and> unat a + unat b \<ge> 2 ^ 64 then Panic else Ok (a + b))"

lemma add_u64_no_overflow:
  "unat a + unat b < 2 ^ 64 \<Longrightarrow> add_u64 oc a b = Ok (a + b)"
  by (simp add: add_u64_def)

lemma unat_add_u64:
  "unat a + unat b < 2 ^ 64 \<Longrightarrow> unat (a + b :: u64) = unat a + unat b"
  by (simp add: unat_word_ariths)

lemma add_u64_not_Err [simp]: "add_u64 oc a b \<noteq> Err e"
  by (simp add: add_u64_def)

lemma add_u64_Ok_D: "add_u64 oc a b = Ok c \<Longrightarrow> c = a + b"
  by (simp add: add_u64_def split: if_splits)

section \<open>Slices\<close>

text \<open>
  \<^verbatim>\<open>slice.chunks(n)\<close>: consecutive pieces of \<open>n\<close> elements, the last one possibly shorter, none for
  an empty slice.  Rust panics for \<open>n = 0\<close>; the callers' chunk size is a non-zero constant.
\<close>

function chunks :: "nat \<Rightarrow> 'a list \<Rightarrow> 'a list list" where
  "chunks n xs = (if xs = [] \<or> n = 0 then [] else take n xs # chunks n (drop n xs))"
  by pat_completeness auto
termination
  by (relation "measure (\<lambda>(n, xs). length xs)") auto

declare chunks.simps [simp del]

lemma chunks_Nil [simp]: "chunks n [] = []"
  by (simp add: chunks.simps)

lemma chunks_unfold: "xs \<noteq> [] \<Longrightarrow> 0 < n \<Longrightarrow> chunks n xs = take n xs # chunks n (drop n xs)"
  by (subst chunks.simps) simp

lemma chunks_short: "xs \<noteq> [] \<Longrightarrow> length xs \<le> n \<Longrightarrow> chunks n xs = [xs]"
  by (subst chunks_unfold) (auto intro: Nat.gr0I)

lemma concat_chunks [simp]: "0 < n \<Longrightarrow> concat (chunks n xs) = xs"
proof (induction n xs rule: chunks.induct)
  case (1 n xs)
  then show ?case by (cases "xs = []") (simp_all add: chunks_unfold)
qed

lemma chunks_length_le: "c \<in> set (chunks n xs) \<Longrightarrow> length c \<le> n"
proof (induction n xs rule: chunks.induct)
  case (1 n xs)
  then show ?case
    by (cases "xs = [] \<or> n = 0") (auto simp: chunks_unfold chunks.simps [of 0 xs])
qed

lemma chunks_not_Nil: "c \<in> set (chunks n xs) \<Longrightarrow> c \<noteq> []"
proof (induction n xs rule: chunks.induct)
  case (1 n xs)
  then show ?case
    by (cases "xs = [] \<or> n = 0") (auto simp: chunks_unfold chunks.simps [of 0 xs])
qed

lemma chunks_eq_Nil [simp]: "0 < n \<Longrightarrow> chunks n xs = [] \<longleftrightarrow> xs = []"
  by (cases "xs = []") (auto simp: chunks_unfold)

lemma strict_prefix_append_cases:
  assumes "strict_prefix p (xs @ ys)"
  shows "strict_prefix p xs \<or> (\<exists>q. p = xs @ q \<and> strict_prefix q ys)"
proof (cases "prefix xs p")
  case True
  then obtain q where "p = xs @ q" by (auto simp: prefix_def)
  with assms show ?thesis by (auto simp: strict_prefix_def)
next
  case False
  with assms show ?thesis
    by (auto simp: strict_prefix_def prefix_append)
qed

end
