(* ===== verification/Wire_Codec.thy ===== *)
theory Wire_Codec
  imports Prelude
begin

text \<open>
  The contract every wire format of the program meets: a serialiser and a deserialiser that
  reads one value off the front of a buffer.  The locale \<open>prefix_codec\<close> states the two laws a
  reader relies on (a serialised value is read back whatever follows it; a truncated one is an
  error) and proves once what follows from them: serialisation is injective and prefix-free,
  exact deserialisation round-trips, rejects truncation and rejects trailing bytes, and a
  sequence of values is read back in order.  The frame codec and every message type of
  \<^verbatim>\<open>src/mls_handshake/messages.rs\<close> interpret it.
\<close>

text \<open>
  Errors of the third-party crate \<^verbatim>\<open>tls_codec\<close> that its derived code and its trait methods
  return; \<open>TlsOther\<close> stands for every other one.
\<close>

datatype tls_error = EndOfStream | UnknownValue u64 | TrailingData | TlsOther string

text \<open>
  \<^verbatim>\<open>Deserialize::tls_deserialize_exact\<close>: deserialise, then insist that no byte is left over.
\<close>

definition tls_deserialize_exact ::
    "(bytes \<Rightarrow> (tls_error, 'a \<times> bytes) res) \<Rightarrow> bytes \<Rightarrow> (tls_error, 'a) res" where
  "tls_deserialize_exact dec bs =
     res_bind (dec bs) (\<lambda>(x, rest). if rest = [] then Ok x else Err TrailingData)"

text \<open>Reading \<open>n\<close> values one after the other.\<close>

primrec dec_many :: "(bytes \<Rightarrow> ('d, 'a \<times> bytes) res) \<Rightarrow> nat \<Rightarrow> bytes \<Rightarrow> ('d, 'a list \<times> bytes) res" where
  "dec_many dec 0 bs = Ok ([], bs)"
| "dec_many dec (Suc n) bs =
     res_bind (dec bs) (\<lambda>(x, rest). res_bind (dec_many dec n rest) (\<lambda>(xs, rest'). Ok (x # xs, rest')))"

locale prefix_codec =
  fixes enc :: "'a \<Rightarrow> ('e, bytes) res"
    and dec :: "bytes \<Rightarrow> ('d, 'a \<times> bytes) res"
    and valid :: "'a \<Rightarrow> bool"
  assumes dec_enc: "valid x \<Longrightarrow> enc x = Ok bs \<Longrightarrow> dec (bs @ rest) = Ok (x, rest)"
    and dec_truncated: "valid x \<Longrightarrow> enc x = Ok bs \<Longrightarrow> strict_prefix p bs \<Longrightarrow> \<exists>e. dec p = Err e"
begin

lemma dec_enc_whole: "valid x \<Longrightarrow> enc x = Ok bs \<Longrightarrow> dec bs = Ok (x, [])"
  using dec_enc [of x bs "[]"] by simp

lemma enc_prefix_free:
  assumes "valid x" "valid y" "enc x = Ok bs" "enc y = Ok cs" "prefix bs cs"
  shows "x = y \<and> bs = cs"
proof -
  from assms(5) obtain r where r: "cs = bs @ r" by (auto simp: prefix_def)
  have "dec cs = Ok (x, r)" using assms(1,3) r dec_enc by simp
  moreover have "dec cs = Ok (y, [])" using assms(2,4) by (rule dec_enc_whole)
  ultimately show ?thesis using r by simp
qed

lemma enc_inject:
  assumes "valid x" "valid y" "enc x = Ok bs" "enc y = Ok bs"
  shows "x = y"
  using enc_prefix_free [OF assms] by simp

lemma dec_many_enc:
  assumes "list_all2 (\<lambda>x bs. valid x \<and> enc x = Ok bs) xs bss"
  shows "dec_many dec (length xs) (concat bss @ rest) = Ok (xs, rest)"
  using assms by (induction xs bss rule: list_all2_induct) (auto simp: dec_enc)

end

text \<open>
  The case where the deserialiser comes from \<^verbatim>\<open>tls_codec\<close>, so that its exact variant applies.
\<close>

locale tls_type = prefix_codec enc dec valid
  for enc :: "'a \<Rightarrow> (tls_error, bytes) res"
    and dec :: "bytes \<Rightarrow> (tls_error, 'a \<times> bytes) res"
    and valid :: "'a \<Rightarrow> bool"
begin

lemma exact_roundtrip:
  "valid x \<Longrightarrow> enc x = Ok bs \<Longrightarrow> tls_deserialize_exact dec bs = Ok x"
  by (simp add: tls_deserialize_exact_def dec_enc_whole)

lemma exact_truncated:
  assumes "valid x" "enc x = Ok bs" "strict_prefix p bs"
  shows "\<exists>e. tls_deserialize_exact dec p = Err e"
  using dec_truncated [OF assms] by (auto simp: tls_deserialize_exact_def)

lemma exact_trailing:
  assumes "valid x" "enc x = Ok bs" "rest \<noteq> []"
  shows "tls_deserialize_exact dec (bs @ rest) = Err TrailingData"
  using assms by (simp add: tls_deserialize_exact_def dec_enc)

end

section \<open>Composition\<close>

text \<open>
  Derived serialisers write their parts one after the other and stop at the first error.
\<close>

definition ser_seq :: "(tls_error, bytes) res \<Rightarrow> (tls_error, bytes) res \<Rightarrow> (tls_error, bytes) res" where
  "ser_seq a b = res_bind a (\<lambda>x. res_bind b (\<lambda>y. Ok (x @ y)))"

lemma ser_seq_Ok_iff [simp]: "ser_seq a b = Ok bs \<longleftrightarrow> (\<exists>x y. a = Ok x \<and> b = Ok y \<and> bs = x @ y)"
  by (auto simp: ser_seq_def)

definition de_then ::
    "(bytes \<Rightarrow> (tls_error, 't \<times> bytes) res) \<Rightarrow> ('t \<Rightarrow> bytes \<Rightarrow> (tls_error, 'a \<times> bytes) res)
       \<Rightarrow> bytes \<Rightarrow> (tls_error, 'a \<times> bytes) res" where
  "de_then dec_t dec_body bs = res_bind (dec_t bs) (\<lambda>(t, rest). dec_body t rest)"

text \<open>
  An enumeration is its discriminant followed by the variant; a struct is its first field followed
  by the others.  Both are a leading part that determines how the rest is read, and both inherit
  the contract from their parts.
\<close>

locale leading_codec = lead: prefix_codec enc_t dec_t valid_t
  for enc_t :: "'t \<Rightarrow> (tls_error, bytes) res"
    and dec_t :: "bytes \<Rightarrow> (tls_error, 't \<times> bytes) res"
    and valid_t :: "'t \<Rightarrow> bool" +
  fixes lead_of :: "'a \<Rightarrow> 't"
    and enc_body :: "'a \<Rightarrow> (tls_error, bytes) res"
    and dec_body :: "'t \<Rightarrow> bytes \<Rightarrow> (tls_error, 'a \<times> bytes) res"
    and valid :: "'a \<Rightarrow> bool"
  assumes valid_lead: "valid x \<Longrightarrow> valid_t (lead_of x)"
    and body_enc: "valid x \<Longrightarrow> enc_body x = Ok bs \<Longrightarrow> dec_body (lead_of x) (bs @ rest) = Ok (x, rest)"
    and body_truncated:
      "valid x \<Longrightarrow> enc_body x = Ok bs \<Longrightarrow> strict_prefix p bs \<Longrightarrow> \<exists>e. dec_body (lead_of x) p = Err e"
begin

lemma composed:
  "tls_type (\<lambda>x. ser_seq (enc_t (lead_of x)) (enc_body x)) (de_then dec_t dec_body) valid"
proof unfold_locales
  fix x bs rest
  assume v: "valid x" and "ser_seq (enc_t (lead_of x)) (enc_body x) = Ok bs"
  then obtain b1 b2 where b: "enc_t (lead_of x) = Ok b1" "enc_body x = Ok b2" "bs = b1 @ b2" by auto
  show "de_then dec_t dec_body (bs @ rest) = Ok (x, rest)"
    using lead.dec_enc [OF valid_lead [OF v] b(1)] body_enc [OF v b(2)] b(3) by (simp add: de_then_def)
next
  fix x bs p
  assume v: "valid x" and "ser_seq (enc_t (lead_of x)) (enc_body x) = Ok bs" and p: "strict_prefix p bs"
  then obtain b1 b2 where b: "enc_t (lead_of x) = Ok b1" "enc_body x = Ok b2" "bs = b1 @ b2" by auto
  from p b(3) consider "strict_prefix p b1" | q where "p = b1 @ q" "strict_prefix q b2"
    using strict_prefix_append_cases by blast
  then show "\<exists>e. de_then dec_t dec_body p = Err e"
  proof cases
    case 1
    from lead.dec_truncated [OF valid_lead [OF v] b(1) 1] show ?thesis by (auto simp: de_then_def)
  next
    case (2 q)
    from body_truncated [OF v b(2) 2(2)] show ?thesis
      using lead.dec_enc [OF valid_lead [OF v] b(1)] 2(1) by (auto simp: de_then_def)
  qed
qed

end

sublocale leading_codec \<subseteq>
  tls_type "\<lambda>x. ser_seq (enc_t (lead_of x)) (enc_body x)" "de_then dec_t dec_body" valid
  by (rule composed)

end
