(* ===== verification/Messages.thy ===== *)
theory Messages
  imports Wire_Codec
begin

text \<open>
  \<^verbatim>\<open>src/mls_handshake/messages.rs\<close> and the plaintext type of \<^verbatim>\<open>src/encryption_provider/mod.rs\<close>:
  the messages of the protocol and their wire format.  The source derives the serialisers with
  the third-party crate \<^verbatim>\<open>tls_codec\<close>; what is modelled is what the declarations fix, the order
  of the fields, the width and the values of the discriminants.  The serialisers of the field
  types themselves (integers, byte vectors, MLS messages) are the parameter \<open>T\<close>.  An MLS message
  has the type variable \<open>'o\<close>; \<^verbatim>\<open>MlsMessageIn\<close> and \<^verbatim>\<open>MlsMessageOut\<close> are two views of it, so a type
  and its \<^verbatim>\<open>In\<close>/\<^verbatim>\<open>Out\<close> pair are one type here.
\<close>

section \<open>The field codecs\<close>

record 'a field_codec =
  ser :: "'a \<Rightarrow> (tls_error, bytes) res"
  de :: "bytes \<Rightarrow> (tls_error, 'a \<times> bytes) res"

record 'o tls_codec =
  tc_u8 :: "u8 field_codec"
  tc_u16 :: "u16 field_codec"
  tc_u64 :: "u64 field_codec"
  tc_vec :: "bytes field_codec"
  tc_mls :: "'o field_codec"

text \<open>
  What the protocol relies on: a serialised field is read back whatever follows it, and a
  truncated field is an error.
\<close>

definition field_ok :: "'a field_codec \<Rightarrow> bool" where
  "field_ok c \<longleftrightarrow>
     (\<forall>x bs. ser c x = Ok bs \<longrightarrow>
        (\<forall>rest. de c (bs @ rest) = Ok (x, rest)) \<and> (\<forall>p. strict_prefix p bs \<longrightarrow> (\<exists>e. de c p = Err e)))"

definition tls_laws :: "'o tls_codec \<Rightarrow> bool" where
  "tls_laws T \<longleftrightarrow> field_ok (tc_u8 T) \<and> field_ok (tc_u16 T) \<and> field_ok (tc_u64 T) \<and>
     field_ok (tc_vec T) \<and> field_ok (tc_mls T)"

lemma field_okD:
  "field_ok c \<Longrightarrow> ser c x = Ok bs \<Longrightarrow> de c (bs @ rest) = Ok (x, rest)"
  "field_ok c \<Longrightarrow> ser c x = Ok bs \<Longrightarrow> strict_prefix p bs \<Longrightarrow> \<exists>e. de c p = Err e"
  by (auto simp: field_ok_def)

interpretation field: tls_type "ser c" "de c" "\<lambda>_. field_ok c" for c
  by unfold_locales (auto dest: field_okD)

section \<open>Message types\<close>

datatype ProtocolVersion = V01
datatype Boolean = BTrue | BFalse
datatype AlertLevel = Warning | Fatal
datatype AlertDescription = UnexpectedMessage | HandshakeFailure | DecodeError | DecryptError | ProtocolVersionAlert

record Alert =
  level :: AlertLevel
  description :: AlertDescription

record 'o ClientHello = key_package :: 'o
record 'o ServerHello = hello_welcome :: 'o
record 'o Resumption = resumption_commit :: 'o

datatype 'o HandshakePayload =
    ClientHelloPayload "'o ClientHello"
  | ResumptionPayload "'o Resumption"

record 'o MlsTlsHandshake =
  version :: ProtocolVersion
  payload :: "'o HandshakePayload"

record EpochKeyUpdate = eku_epoch :: u64
record KeyUpdate = ku_update_requested :: Boolean

record 'o ConnectionUpdate =
  update_requested :: Boolean
  mls_commit :: 'o

datatype 'o SignalingMessage =
    ConnectionUpdateMessage "'o ConnectionUpdate"
  | ConnectionConfirmationMessage EpochKeyUpdate
  | EpochKeyUpdateMessage EpochKeyUpdate
  | KeyUpdateMessage KeyUpdate

datatype InnerPlaintext = Application bytes | Signaling bytes

definition ProtocolVersion_default :: ProtocolVersion where
  "ProtocolVersion_default = V01"

fun Boolean_into_bool :: "Boolean \<Rightarrow> bool" where
  "Boolean_into_bool BTrue = True"
| "Boolean_into_bool BFalse = False"

definition Boolean_from_bool :: "bool \<Rightarrow> Boolean" where
  "Boolean_from_bool b = (if b then BTrue else BFalse)"

fun SignalingMessage_message_type :: "'o SignalingMessage \<Rightarrow> string" where
  "SignalingMessage_message_type (ConnectionUpdateMessage _) = ''ConnectionUpdate''"
| "SignalingMessage_message_type (ConnectionConfirmationMessage _) = ''ConnectionConfirmation''"
| "SignalingMessage_message_type (EpochKeyUpdateMessage _) = ''EpochKeyUpdate''"
| "SignalingMessage_message_type (KeyUpdateMessage _) = ''KeyUpdate''"

section \<open>Discriminants\<close>

text \<open>
  An enumeration without fields is its discriminant; an unknown discriminant is an error that
  carries it.
\<close>

fun Boolean_disc :: "Boolean \<Rightarrow> u8" where
  "Boolean_disc BTrue = 0" | "Boolean_disc BFalse = 1"

fun AlertLevel_disc :: "AlertLevel \<Rightarrow> u8" where
  "AlertLevel_disc Warning = 1" | "AlertLevel_disc Fatal = 2"

fun AlertDescription_disc :: "AlertDescription \<Rightarrow> u8" where
  "AlertDescription_disc UnexpectedMessage = 10" | "AlertDescription_disc HandshakeFailure = 40"
| "AlertDescription_disc DecodeError = 50" | "AlertDescription_disc DecryptError = 51"
| "AlertDescription_disc ProtocolVersionAlert = 70"

fun ProtocolVersion_disc :: "ProtocolVersion \<Rightarrow> u16" where
  "ProtocolVersion_disc V01 = 0"

definition unknown :: "'w :: len word \<Rightarrow> (tls_error, 'a) res" where
  "unknown d = Err (UnknownValue (ucast d))"

definition Boolean_of_disc :: "u8 \<Rightarrow> (tls_error, Boolean) res" where
  "Boolean_of_disc d = (if d = 0 then Ok BTrue else if d = 1 then Ok BFalse else unknown d)"

definition AlertLevel_of_disc :: "u8 \<Rightarrow> (tls_error, AlertLevel) res" where
  "AlertLevel_of_disc d = (if d = 1 then Ok Warning else if d = 2 then Ok Fatal else unknown d)"

definition AlertDescription_of_disc :: "u8 \<Rightarrow> (tls_error, AlertDescription) res" where
  "AlertDescription_of_disc d =
     (if d = 10 then Ok UnexpectedMessage else if d = 40 then Ok HandshakeFailure
      else if d = 50 then Ok DecodeError else if d = 51 then Ok DecryptError
      else if d = 70 then Ok ProtocolVersionAlert else unknown d)"

definition ProtocolVersion_of_disc :: "u16 \<Rightarrow> (tls_error, ProtocolVersion) res" where
  "ProtocolVersion_of_disc d = (if d = 0 then Ok V01 else unknown d)"

definition unit_de ::
    "(bytes \<Rightarrow> (tls_error, 'd \<times> bytes) res) \<Rightarrow> ('d \<Rightarrow> (tls_error, 'a) res) \<Rightarrow> bytes \<Rightarrow> (tls_error, 'a \<times> bytes) res" where
  "unit_de dec of_disc = de_then dec (\<lambda>d rest. res_bind (of_disc d) (\<lambda>x. Ok (x, rest)))"

section \<open>Serialisers and deserialisers\<close>

definition Boolean_ser :: "'o tls_codec \<Rightarrow> Boolean \<Rightarrow> (tls_error, bytes) res" where
  "Boolean_ser T b = ser_seq (ser (tc_u8 T) (Boolean_disc b)) (Ok [])"

definition Boolean_de :: "'o tls_codec \<Rightarrow> bytes \<Rightarrow> (tls_error, Boolean \<times> bytes) res" where
  "Boolean_de T = unit_de (de (tc_u8 T)) Boolean_of_disc"

definition ProtocolVersion_ser :: "'o tls_codec \<Rightarrow> ProtocolVersion \<Rightarrow> (tls_error, bytes) res" where
  "ProtocolVersion_ser T v = ser_seq (ser (tc_u16 T) (ProtocolVersion_disc v)) (Ok [])"

definition ProtocolVersion_de :: "'o tls_codec \<Rightarrow> bytes \<Rightarrow> (tls_error, ProtocolVersion \<times> bytes) res" where
  "ProtocolVersion_de T = unit_de (de (tc_u16 T)) ProtocolVersion_of_disc"

definition AlertLevel_ser :: "'o tls_codec \<Rightarrow> AlertLevel \<Rightarrow> (tls_error, bytes) res" where
  "AlertLevel_ser T l = ser_seq (ser (tc_u8 T) (AlertLevel_disc l)) (Ok [])"

definition AlertLevel_de :: "'o tls_codec \<Rightarrow> bytes \<Rightarrow> (tls_error, AlertLevel \<times> bytes) res" where
  "AlertLevel_de T = unit_de (de (tc_u8 T)) AlertLevel_of_disc"

definition AlertDescription_ser :: "'o tls_codec \<Rightarrow> AlertDescription \<Rightarrow> (tls_error, bytes) res" where
  "AlertDescription_ser T d = ser_seq (ser (tc_u8 T) (AlertDescription_disc d)) (Ok [])"

definition AlertDescription_de :: "'o tls_codec \<Rightarrow> bytes \<Rightarrow> (tls_error, AlertDescription \<times> bytes) res" where
  "AlertDescription_de T = unit_de (de (tc_u8 T)) AlertDescription_of_disc"

definition Alert_ser :: "'o tls_codec \<Rightarrow> Alert \<Rightarrow> (tls_error, bytes) res" where
  "Alert_ser T a = ser_seq (AlertLevel_ser T (level a)) (AlertDescription_ser T (description a))"

definition Alert_de :: "'o tls_codec \<Rightarrow> bytes \<Rightarrow> (tls_error, Alert \<times> bytes) res" where
  "Alert_de T = de_then (AlertLevel_de T) (\<lambda>l bs. res_bind (AlertDescription_de T bs)
     (\<lambda>(d, rest). Ok (\<lparr>level = l, description = d\<rparr>, rest)))"

definition ConnectionUpdate_ser :: "'o tls_codec \<Rightarrow> 'o ConnectionUpdate \<Rightarrow> (tls_error, bytes) res" where
  "ConnectionUpdate_ser T u = ser_seq (Boolean_ser T (update_requested u)) (ser (tc_mls T) (mls_commit u))"

definition ConnectionUpdate_de :: "'o tls_codec \<Rightarrow> bytes \<Rightarrow> (tls_error, 'o ConnectionUpdate \<times> bytes) res" where
  "ConnectionUpdate_de T = de_then (Boolean_de T) (\<lambda>b bs. res_bind (de (tc_mls T) bs)
     (\<lambda>(m, rest). Ok (\<lparr>update_requested = b, mls_commit = m\<rparr>, rest)))"

definition EpochKeyUpdate_ser :: "'o tls_codec \<Rightarrow> EpochKeyUpdate \<Rightarrow> (tls_error, bytes) res" where
  "EpochKeyUpdate_ser T u = ser (tc_u64 T) (eku_epoch u)"

definition EpochKeyUpdate_de :: "'o tls_codec \<Rightarrow> bytes \<Rightarrow> (tls_error, EpochKeyUpdate \<times> bytes) res" where
  "EpochKeyUpdate_de T bs = res_bind (de (tc_u64 T) bs) (\<lambda>(e, rest). Ok (\<lparr>eku_epoch = e\<rparr>, rest))"

definition KeyUpdate_ser :: "'o tls_codec \<Rightarrow> KeyUpdate \<Rightarrow> (tls_error, bytes) res" where
  "KeyUpdate_ser T u = Boolean_ser T (ku_update_requested u)"

definition KeyUpdate_de :: "'o tls_codec \<Rightarrow> bytes \<Rightarrow> (tls_error, KeyUpdate \<times> bytes) res" where
  "KeyUpdate_de T bs = res_bind (Boolean_de T bs) (\<lambda>(b, rest). Ok (\<lparr>ku_update_requested = b\<rparr>, rest))"

fun SignalingMessage_disc :: "'o SignalingMessage \<Rightarrow> u16" where
  "SignalingMessage_disc (ConnectionUpdateMessage _) = 0"
| "SignalingMessage_disc (ConnectionConfirmationMessage _) = 1"
| "SignalingMessage_disc (EpochKeyUpdateMessage _) = 2"
| "SignalingMessage_disc (KeyUpdateMessage _) = 3"

fun SignalingMessage_body_ser :: "'o tls_codec \<Rightarrow> 'o SignalingMessage \<Rightarrow> (tls_error, bytes) res" where
  "SignalingMessage_body_ser T (ConnectionUpdateMessage u) = ConnectionUpdate_ser T u"
| "SignalingMessage_body_ser T (ConnectionConfirmationMessage u) = EpochKeyUpdate_ser T u"
| "SignalingMessage_body_ser T (EpochKeyUpdateMessage u) = EpochKeyUpdate_ser T u"
| "SignalingMessage_body_ser T (KeyUpdateMessage u) = KeyUpdate_ser T u"

definition SignalingMessage_body_de ::
    "'o tls_codec \<Rightarrow> u16 \<Rightarrow> bytes \<Rightarrow> (tls_error, 'o SignalingMessage \<times> bytes) res" where
  "SignalingMessage_body_de T d bs =
     (if d = 0 then res_bind (ConnectionUpdate_de T bs) (\<lambda>(u, rest). Ok (ConnectionUpdateMessage u, rest))
      else if d = 1 then res_bind (EpochKeyUpdate_de T bs) (\<lambda>(u, rest). Ok (ConnectionConfirmationMessage u, rest))
      else if d = 2 then res_bind (EpochKeyUpdate_de T bs) (\<lambda>(u, rest). Ok (EpochKeyUpdateMessage u, rest))
      else if d = 3 then res_bind (KeyUpdate_de T bs) (\<lambda>(u, rest). Ok (KeyUpdateMessage u, rest))
      else unknown d)"

definition SignalingMessage_ser :: "'o tls_codec \<Rightarrow> 'o SignalingMessage \<Rightarrow> (tls_error, bytes) res" where
  "SignalingMessage_ser T m = ser_seq (ser (tc_u16 T) (SignalingMessage_disc m)) (SignalingMessage_body_ser T m)"

definition SignalingMessage_de :: "'o tls_codec \<Rightarrow> bytes \<Rightarrow> (tls_error, 'o SignalingMessage \<times> bytes) res" where
  "SignalingMessage_de T = de_then (de (tc_u16 T)) (SignalingMessage_body_de T)"

fun HandshakePayload_disc :: "'o HandshakePayload \<Rightarrow> u16" where
  "HandshakePayload_disc (ClientHelloPayload _) = 0"
| "HandshakePayload_disc (ResumptionPayload _) = 1"

fun HandshakePayload_body_ser :: "'o tls_codec \<Rightarrow> 'o HandshakePayload \<Rightarrow> (tls_error, bytes) res" where
  "HandshakePayload_body_ser T (ClientHelloPayload h) = ser (tc_mls T) (key_package h)"
| "HandshakePayload_body_ser T (ResumptionPayload r) = ser (tc_mls T) (resumption_commit r)"

definition HandshakePayload_body_de ::
    "'o tls_codec \<Rightarrow> u16 \<Rightarrow> bytes \<Rightarrow> (tls_error, 'o HandshakePayload \<times> bytes) res" where
  "HandshakePayload_body_de T d bs =
     (if d = 0 then res_bind (de (tc_mls T) bs) (\<lambda>(m, rest). Ok (ClientHelloPayload \<lparr>key_package = m\<rparr>, rest))
      else if d = 1 then res_bind (de (tc_mls T) bs) (\<lambda>(m, rest). Ok (ResumptionPayload \<lparr>resumption_commit = m\<rparr>, rest))
      else unknown d)"

definition HandshakePayload_ser :: "'o tls_codec \<Rightarrow> 'o HandshakePayload \<Rightarrow> (tls_error, bytes) res" where
  "HandshakePayload_ser T p = ser_seq (ser (tc_u16 T) (HandshakePayload_disc p)) (HandshakePayload_body_ser T p)"

definition HandshakePayload_de :: "'o tls_codec \<Rightarrow> bytes \<Rightarrow> (tls_error, 'o HandshakePayload \<times> bytes) res" where
  "HandshakePayload_de T = de_then (de (tc_u16 T)) (HandshakePayload_body_de T)"

definition MlsTlsHandshake_ser :: "'o tls_codec \<Rightarrow> 'o MlsTlsHandshake \<Rightarrow> (tls_error, bytes) res" where
  "MlsTlsHandshake_ser T h = ser_seq (ProtocolVersion_ser T (version h)) (HandshakePayload_ser T (payload h))"

definition MlsTlsHandshake_de :: "'o tls_codec \<Rightarrow> bytes \<Rightarrow> (tls_error, 'o MlsTlsHandshake \<times> bytes) res" where
  "MlsTlsHandshake_de T = de_then (ProtocolVersion_de T) (\<lambda>v bs. res_bind (HandshakePayload_de T bs)
     (\<lambda>(p, rest). Ok (\<lparr>version = v, payload = p\<rparr>, rest)))"

definition ServerHello_ser :: "'o tls_codec \<Rightarrow> 'o ServerHello \<Rightarrow> (tls_error, bytes) res" where
  "ServerHello_ser T h = ser (tc_mls T) (hello_welcome h)"

definition ServerHello_de :: "'o tls_codec \<Rightarrow> bytes \<Rightarrow> (tls_error, 'o ServerHello \<times> bytes) res" where
  "ServerHello_de T bs = res_bind (de (tc_mls T) bs) (\<lambda>(m, rest). Ok (\<lparr>hello_welcome = m\<rparr>, rest))"

fun InnerPlaintext_disc :: "InnerPlaintext \<Rightarrow> u8" where
  "InnerPlaintext_disc (Application _) = 0"
| "InnerPlaintext_disc (Signaling _) = 1"

fun InnerPlaintext_content :: "InnerPlaintext \<Rightarrow> bytes" where
  "InnerPlaintext_content (Application b) = b"
| "InnerPlaintext_content (Signaling b) = b"

definition InnerPlaintext_ser :: "'o tls_codec \<Rightarrow> InnerPlaintext \<Rightarrow> (tls_error, bytes) res" where
  "InnerPlaintext_ser T p =
     ser_seq (ser (tc_u8 T) (InnerPlaintext_disc p)) (ser (tc_vec T) (InnerPlaintext_content p))"

definition InnerPlaintext_body_de ::
    "'o tls_codec \<Rightarrow> u8 \<Rightarrow> bytes \<Rightarrow> (tls_error, InnerPlaintext \<times> bytes) res" where
  "InnerPlaintext_body_de T d bs =
     (if d = 0 then res_bind (de (tc_vec T) bs) (\<lambda>(b, rest). Ok (Application b, rest))
      else if d = 1 then res_bind (de (tc_vec T) bs) (\<lambda>(b, rest). Ok (Signaling b, rest))
      else unknown d)"

definition InnerPlaintext_de :: "'o tls_codec \<Rightarrow> bytes \<Rightarrow> (tls_error, InnerPlaintext \<times> bytes) res" where
  "InnerPlaintext_de T = de_then (de (tc_u8 T)) (InnerPlaintext_body_de T)"

section \<open>The contract of every type\<close>

text \<open>The shape of an enumeration without fields.\<close>

lemma unit_enum_codec:
  assumes "\<And>x. of_disc (disc x) = Ok x"
  shows "tls_type (\<lambda>x. ser_seq (ser c (disc x)) (Ok [])) (unit_de (de c) of_disc) (\<lambda>_. field_ok c)"
proof -
  have "leading_codec (ser c) (de c) (\<lambda>_. field_ok c) disc (\<lambda>_. Ok [])
      (\<lambda>d rest. res_bind (of_disc d) (\<lambda>x. Ok (x, rest))) (\<lambda>_. field_ok c)"
    using assms by unfold_locales auto
  from leading_codec.composed [OF this] show ?thesis by (simp add: unit_de_def)
qed

lemma prefix_codec_weaken:
  "prefix_codec enc dec valid \<Longrightarrow> (\<And>x. valid' x \<Longrightarrow> valid x) \<Longrightarrow> prefix_codec enc dec valid'"
  unfolding prefix_codec_def by blast

lemma tls_laws_fields:
  assumes "tls_laws T"
  shows "field_ok (tc_u8 T)" "field_ok (tc_u16 T)" "field_ok (tc_u64 T)" "field_ok (tc_vec T)" "field_ok (tc_mls T)"
  using assms by (simp_all add: tls_laws_def)

interpretation boolean: tls_type "Boolean_ser T" "Boolean_de T" "\<lambda>_. tls_laws T" for T
proof -
  have "Boolean_of_disc (Boolean_disc b) = Ok b" for b
    by (cases b) (simp_all add: Boolean_of_disc_def)
  from unit_enum_codec [of Boolean_of_disc Boolean_disc, OF this, of "tc_u8 T"]
  show "tls_type (Boolean_ser T) (Boolean_de T) (\<lambda>_. tls_laws T)"
    unfolding tls_type_def Boolean_ser_def [abs_def] Boolean_de_def
    by (rule prefix_codec_weaken) (rule tls_laws_fields)
qed

interpretation protocol_version: tls_type "ProtocolVersion_ser T" "ProtocolVersion_de T" "\<lambda>_. tls_laws T" for T
proof -
  have "ProtocolVersion_of_disc (ProtocolVersion_disc b) = Ok b" for b
    by (cases b) (simp_all add: ProtocolVersion_of_disc_def)
  from unit_enum_codec [of ProtocolVersion_of_disc ProtocolVersion_disc, OF this, of "tc_u16 T"]
  show "tls_type (ProtocolVersion_ser T) (ProtocolVersion_de T) (\<lambda>_. tls_laws T)"
    unfolding tls_type_def ProtocolVersion_ser_def [abs_def] ProtocolVersion_de_def
    by (rule prefix_codec_weaken) (rule tls_laws_fields)
qed

interpretation alert_level: tls_type "AlertLevel_ser T" "AlertLevel_de T" "\<lambda>_. tls_laws T" for T
proof -
  have "AlertLevel_of_disc (AlertLevel_disc b) = Ok b" for b
    by (cases b) (simp_all add: AlertLevel_of_disc_def)
  from unit_enum_codec [of AlertLevel_of_disc AlertLevel_disc, OF this, of "tc_u8 T"]
  show "tls_type (AlertLevel_ser T) (AlertLevel_de T) (\<lambda>_. tls_laws T)"
    unfolding tls_type_def AlertLevel_ser_def [abs_def] AlertLevel_de_def
    by (rule prefix_codec_weaken) (rule tls_laws_fields)
qed

interpretation alert_description: tls_type "AlertDescription_ser T" "AlertDescription_de T" "\<lambda>_. tls_laws T" for T
proof -
  have "AlertDescription_of_disc (AlertDescription_disc b) = Ok b" for b
    by (cases b) (simp_all add: AlertDescription_of_disc_def)
  from unit_enum_codec [of AlertDescription_of_disc AlertDescription_disc, OF this, of "tc_u8 T"]
  show "tls_type (AlertDescription_ser T) (AlertDescription_de T) (\<lambda>_. tls_laws T)"
    unfolding tls_type_def AlertDescription_ser_def [abs_def] AlertDescription_de_def
    by (rule prefix_codec_weaken) (rule tls_laws_fields)
qed

text \<open>A struct of two fields, and a value read through a wrapper.\<close>

lemma struct_codec:
  assumes "tls_type enca deca (\<lambda>_. V)" and "tls_type encb decb (\<lambda>_. V)" and "\<And>x. mk (f x) (g x) = x"
  shows "tls_type (\<lambda>x. ser_seq (enca (f x)) (encb (g x)))
    (de_then deca (\<lambda>a bs. res_bind (decb bs) (\<lambda>(b, rest). Ok (mk a b, rest)))) (\<lambda>_. V)"
proof (rule leading_codec.composed, rule leading_codec.intro [OF _ leading_codec_axioms.intro])
  note b = assms(2) [unfolded tls_type_def]
  show "prefix_codec enca deca (\<lambda>_. V)" by (rule assms(1) [unfolded tls_type_def])
  show "res_bind (decb (bs @ rest)) (\<lambda>(b, rest). Ok (mk (f x) b, rest)) = Ok (x, rest)"
    if "V" "encb (g x) = Ok bs" for x bs rest
    using prefix_codec.dec_enc [OF b that] assms(3) by simp
  show "\<exists>e. res_bind (decb p) (\<lambda>(b, rest). Ok (mk (f x) b, rest)) = Err e"
    if "V" "encb (g x) = Ok bs" "strict_prefix p bs" for x bs p
    using prefix_codec.dec_truncated [OF b that] by auto
qed

lemma wrap_codec:
  assumes "tls_type enc dec (\<lambda>_. V)" and "\<And>x. mk (g x) = x"
  shows "tls_type (\<lambda>x. enc (g x)) (\<lambda>bs. res_bind (dec bs) (\<lambda>(b, rest). Ok (mk b, rest))) (\<lambda>_. V)"
proof unfold_locales
  note b = assms(1) [unfolded tls_type_def]
  show "res_bind (dec (bs @ rest)) (\<lambda>(b, rest). Ok (mk b, rest)) = Ok (x, rest)"
    if "V" "enc (g x) = Ok bs" for x bs rest
    using prefix_codec.dec_enc [OF b that] assms(2) by simp
  show "\<exists>e. res_bind (dec p) (\<lambda>(b, rest). Ok (mk b, rest)) = Err e"
    if "V" "enc (g x) = Ok bs" "strict_prefix p bs" for x bs p
    using prefix_codec.dec_truncated [OF b that] by auto
qed

lemma field_codecs:
  "tls_type (ser (tc_u8 T)) (de (tc_u8 T)) (\<lambda>_. tls_laws T)"
  "tls_type (ser (tc_u16 T)) (de (tc_u16 T)) (\<lambda>_. tls_laws T)"
  "tls_type (ser (tc_u64 T)) (de (tc_u64 T)) (\<lambda>_. tls_laws T)"
  "tls_type (ser (tc_vec T)) (de (tc_vec T)) (\<lambda>_. tls_laws T)"
  "tls_type (ser (tc_mls T)) (de (tc_mls T)) (\<lambda>_. tls_laws T)"
  unfolding tls_type_def
  by (rule prefix_codec_weaken [OF field.prefix_codec_axioms], erule tls_laws_fields)+

interpretation alert: tls_type "Alert_ser T" "Alert_de T" "\<lambda>_. tls_laws T" for T
  unfolding Alert_ser_def [abs_def] Alert_de_def
  by (rule struct_codec [OF alert_level.tls_type_axioms alert_description.tls_type_axioms]) simp

interpretation connection_update: tls_type "ConnectionUpdate_ser T" "ConnectionUpdate_de T" "\<lambda>_. tls_laws T" for T
  unfolding ConnectionUpdate_ser_def [abs_def] ConnectionUpdate_de_def
  by (rule struct_codec [OF boolean.tls_type_axioms field_codecs(5)]) simp

interpretation epoch_key_update: tls_type "EpochKeyUpdate_ser T" "EpochKeyUpdate_de T" "\<lambda>_. tls_laws T" for T
  unfolding EpochKeyUpdate_ser_def [abs_def] EpochKeyUpdate_de_def [abs_def]
  by (rule wrap_codec [OF field_codecs(3)]) simp

interpretation key_update: tls_type "KeyUpdate_ser T" "KeyUpdate_de T" "\<lambda>_. tls_laws T" for T
  unfolding KeyUpdate_ser_def [abs_def] KeyUpdate_de_def [abs_def]
  by (rule wrap_codec [OF boolean.tls_type_axioms]) simp

interpretation server_hello: tls_type "ServerHello_ser T" "ServerHello_de T" "\<lambda>_. tls_laws T" for T
  unfolding ServerHello_ser_def [abs_def] ServerHello_de_def [abs_def]
  by (rule wrap_codec [OF field_codecs(5)]) simp

text \<open>
  An enumeration with fields: each variant's body is read back under its own discriminant.
\<close>

lemma enum_codec:
  assumes "tls_type enct dect (\<lambda>_. V)"
    and "\<And>x bs rest. V \<Longrightarrow> encb x = Ok bs \<Longrightarrow> decb (disc x) (bs @ rest) = Ok (x, rest)"
    and "\<And>x bs p. V \<Longrightarrow> encb x = Ok bs \<Longrightarrow> strict_prefix p bs \<Longrightarrow> \<exists>e. decb (disc x) p = Err e"
  shows "tls_type (\<lambda>x. ser_seq (enct (disc x)) (encb x)) (de_then dect decb) (\<lambda>_. V)"
  by (rule leading_codec.composed,
      rule leading_codec.intro [OF assms(1) [unfolded tls_type_def] leading_codec_axioms.intro])
    (use assms(2,3) in simp_all)

interpretation signaling_message: tls_type "SignalingMessage_ser T" "SignalingMessage_de T" "\<lambda>_. tls_laws T" for T
  unfolding SignalingMessage_ser_def [abs_def] SignalingMessage_de_def
proof (rule enum_codec [OF field_codecs(2)])
  fix x :: "'a SignalingMessage" and bs rest
  assume "tls_laws T" "SignalingMessage_body_ser T x = Ok bs"
  then show "SignalingMessage_body_de T (SignalingMessage_disc x) (bs @ rest) = Ok (x, rest)"
    by (cases x) (simp_all add: SignalingMessage_body_de_def connection_update.dec_enc
        epoch_key_update.dec_enc key_update.dec_enc)
next
  fix x :: "'a SignalingMessage" and bs p
  assume "tls_laws T" "SignalingMessage_body_ser T x = Ok bs" "strict_prefix p bs"
  then show "\<exists>e. SignalingMessage_body_de T (SignalingMessage_disc x) p = Err e"
    by (cases x)
      (use connection_update.dec_truncated epoch_key_update.dec_truncated key_update.dec_truncated in
        \<open>fastforce simp: SignalingMessage_body_de_def outcome_simps\<close>)+
qed

interpretation handshake_payload: tls_type "HandshakePayload_ser T" "HandshakePayload_de T" "\<lambda>_. tls_laws T" for T
  unfolding HandshakePayload_ser_def [abs_def] HandshakePayload_de_def
proof (rule enum_codec [OF field_codecs(2)])
  fix x :: "'a HandshakePayload" and bs rest
  assume "tls_laws T" "HandshakePayload_body_ser T x = Ok bs"
  then show "HandshakePayload_body_de T (HandshakePayload_disc x) (bs @ rest) = Ok (x, rest)"
    by (cases x) (simp_all add: HandshakePayload_body_de_def field.dec_enc tls_laws_fields)
next
  fix x :: "'a HandshakePayload" and bs p
  assume "tls_laws T" "HandshakePayload_body_ser T x = Ok bs" "strict_prefix p bs"
  then show "\<exists>e. HandshakePayload_body_de T (HandshakePayload_disc x) p = Err e"
    by (cases x)
      (use field.dec_truncated [of "tc_mls T"] tls_laws_fields [of T] in
        \<open>fastforce simp: HandshakePayload_body_de_def outcome_simps\<close>)+
qed

interpretation mls_tls_handshake: tls_type "MlsTlsHandshake_ser T" "MlsTlsHandshake_de T" "\<lambda>_. tls_laws T" for T
  unfolding MlsTlsHandshake_ser_def [abs_def] MlsTlsHandshake_de_def
  by (rule struct_codec [OF protocol_version.tls_type_axioms handshake_payload.tls_type_axioms]) simp

interpretation inner_plaintext: tls_type "InnerPlaintext_ser T" "InnerPlaintext_de T" "\<lambda>_. tls_laws T" for T
  unfolding InnerPlaintext_ser_def [abs_def] InnerPlaintext_de_def
proof (rule enum_codec [OF field_codecs(1)])
  fix x :: InnerPlaintext and bs rest
  assume "tls_laws T" "ser (tc_vec T) (InnerPlaintext_content x) = Ok bs"
  then show "InnerPlaintext_body_de T (InnerPlaintext_disc x) (bs @ rest) = Ok (x, rest)"
    by (cases x) (simp_all add: InnerPlaintext_body_de_def field.dec_enc tls_laws_fields)
next
  fix x :: InnerPlaintext and bs p
  assume "tls_laws T" "ser (tc_vec T) (InnerPlaintext_content x) = Ok bs" "strict_prefix p bs"
  then show "\<exists>e. InnerPlaintext_body_de T (InnerPlaintext_disc x) p = Err e"
    by (cases x)
      (use field.dec_truncated [of "tc_vec T"] tls_laws_fields [of T] in
        \<open>fastforce simp: InnerPlaintext_body_de_def outcome_simps\<close>)+
qed

section \<open>An executable codec\<close>

text \<open>
  A codec of the field types that meets the laws: integers in network byte order, byte vectors with
  the variable-size length of RFC 9420 (one, two or four bytes), messages as given.  The properties
  are applied at it.
\<close>

definition fixed_field :: "nat \<Rightarrow> ('a \<Rightarrow> bytes) \<Rightarrow> (bytes \<Rightarrow> 'a) \<Rightarrow> 'a field_codec" where
  "fixed_field n enc dec =
     \<lparr>ser = (\<lambda>x. Ok (enc x)),
      de = (\<lambda>bs. if length bs < n then Err EndOfStream else Ok (dec (take n bs), drop n bs))\<rparr>"

definition be_value :: "bytes \<Rightarrow> nat" where
  "be_value bs = foldl (\<lambda>acc b. 256 * acc + unat b) 0 bs"

definition vec_ser :: "bytes \<Rightarrow> (tls_error, bytes) res" where
  "vec_ser v =
     (let n = length v in
      if n < 64 then Ok (of_nat n # v)
      else if n < 16384 then Ok (of_nat (64 + n div 256) # of_nat (n mod 256) # v)
      else if n < 1073741824 then
        Ok (of_nat (128 + n div 16777216) # of_nat (n div 65536 mod 256) # of_nat (n div 256 mod 256)
            # of_nat (n mod 256) # v)
      else Err (TlsOther ''length''))"

definition take_vec :: "nat \<Rightarrow> bytes \<Rightarrow> (tls_error, bytes \<times> bytes) res" where
  "take_vec n bs = (if length bs < n then Err EndOfStream else Ok (take n bs, drop n bs))"

fun vec_de :: "bytes \<Rightarrow> (tls_error, bytes \<times> bytes) res" where
  "vec_de [] = Err EndOfStream"
| "vec_de (a # bs) =
     (if unat a < 64 then take_vec (unat a) bs
      else if unat a < 128 then
        (case bs of b # bs \<Rightarrow> take_vec ((unat a - 64) * 256 + unat b) bs | _ \<Rightarrow> Err EndOfStream)
      else if unat a < 192 then
        (case bs of
           b # c # d # bs \<Rightarrow> take_vec (((unat a - 128) * 256 + unat b) * 65536 + unat c * 256 + unat d) bs
         | _ \<Rightarrow> Err EndOfStream)
      else Err (TlsOther ''length''))"

definition vec_field :: "bytes field_codec" where
  "vec_field = \<lparr>ser = vec_ser, de = vec_de\<rparr>"

definition std_codec :: "'o field_codec \<Rightarrow> 'o tls_codec" where
  "std_codec mls =
     \<lparr>tc_u8 = fixed_field 1 (\<lambda>b. [b]) hd,
      tc_u16 = fixed_field 2 u16_to_be_bytes (\<lambda>bs. u16_from_be_bytes (bs ! 0) (bs ! 1)),
      tc_u64 = fixed_field 8 u64_to_be_bytes (\<lambda>bs. of_nat (be_value bs)),
      tc_vec = vec_field, tc_mls = mls\<rparr>"

lemma fixed_field_ok:
  assumes "\<And>x. length (enc x) = n" and "\<And>x. dec (enc x) = x"
  shows "field_ok (fixed_field n enc dec)"
  using assms by (auto simp: field_ok_def fixed_field_def dest: prefix_length_less)

lemma unat_of_nat_u8: "n < 256 \<Longrightarrow> unat (of_nat n :: u8) = n"
  by (simp add: unat_of_nat take_bit_nat_eq_self)

lemma take_vec_append: "n = length v \<Longrightarrow> take_vec n (v @ rest) = Ok (v, rest)"
  by (simp add: take_vec_def)

lemma take_vec_truncated: "strict_prefix q v \<Longrightarrow> n = length v \<Longrightarrow> take_vec n q = Err EndOfStream"
  by (auto simp: take_vec_def dest: prefix_length_less)

lemma horner3: 
  "a * 256 + b = c \<Longrightarrow> c * 256 + d = e \<Longrightarrow> e * 256 + f = (g::nat)
    \<Longrightarrow> (a * 256 + b) * 65536 + d * 256 + f = g"
  by simp

lemma vec_ser_cases:
  assumes "vec_ser v = Ok bs"
  obtains (one) "length v < 64" "bs = of_nat (length v) # v"
  | (two) a b where "bs = a # b # v" "64 \<le> unat a" "unat a < 128" "(unat a - 64) * 256 + unat b = length v"
  | (four) a b c d where "bs = a # b # c # d # v" "128 \<le> unat a" "unat a < 192"
      "((unat a - 128) * 256 + unat b) * 65536 + unat c * 256 + unat d = length v"
proof -
  let ?n = "length v"
  consider "?n < 64" | "64 \<le> ?n" "?n < 16384" | "16384 \<le> ?n" "?n < 1073741824"
    using assms by (fastforce simp: vec_ser_def Let_def split: if_splits)
  then show thesis
  proof cases
    case 1
    with assms one show thesis by (simp add: vec_ser_def)
  next
    case 2
    then have q: "?n div 256 < 64" by simp
    with 2 assms two [of "of_nat (64 + ?n div 256)" "of_nat (?n mod 256)"] show thesis
      using unat_of_nat_u8 [of "64 + ?n div 256"] unat_of_nat_u8 [of "?n mod 256"]
      by (simp add: vec_ser_def Let_def)
  next
    case 3
    then have q: "?n div 16777216 < 64" by simp
    have "?n div 16777216 * 256 + ?n div 65536 mod 256 = ?n div 65536"
      using div_mult_mod_eq [of "?n div 65536" 256] by (simp add: div_mult2_eq [symmetric])
    moreover have "?n div 65536 * 256 + ?n div 256 mod 256 = ?n div 256"
      using div_mult_mod_eq [of "?n div 256" 256] by (simp add: div_mult2_eq [symmetric])
    moreover have "?n div 256 * 256 + ?n mod 256 = ?n" by (rule div_mult_mod_eq)
    ultimately have
      "(?n div 16777216 * 256 + ?n div 65536 mod 256) * 65536 + ?n div 256 mod 256 * 256 + ?n mod 256 = ?n"
      by (rule horner3)
    with 3 q assms four [of "of_nat (128 + ?n div 16777216)" "of_nat (?n div 65536 mod 256)"
        "of_nat (?n div 256 mod 256)" "of_nat (?n mod 256)"]
    show thesis
      using unat_of_nat_u8 [of "128 + ?n div 16777216"] unat_of_nat_u8 [of "?n div 65536 mod 256"]
        unat_of_nat_u8 [of "?n div 256 mod 256"] unat_of_nat_u8 [of "?n mod 256"]
      by (simp add: vec_ser_def Let_def)
  qed
qed

lemma vec_field_ok: "field_ok vec_field"
  unfolding field_ok_def
proof (intro allI impI conjI)
  fix v bs rest
  assume "ser vec_field v = Ok bs"
  then have "vec_ser v = Ok bs" by (simp add: vec_field_def)
  then show "de vec_field (bs @ rest) = Ok (v, rest)"
    by (cases rule: vec_ser_cases) (simp_all add: vec_field_def unat_of_nat_u8 take_vec_append)
next
  fix v bs p
  assume "ser vec_field v = Ok bs" and p: "strict_prefix p bs"
  then have "vec_ser v = Ok bs" by (simp add: vec_field_def)
  then show "\<exists>e. de vec_field p = Err e"
    by (cases rule: vec_ser_cases)
      (use p in \<open>auto simp: vec_field_def unat_of_nat_u8 take_vec_truncated strict_prefix_def prefix_Cons
        split: list.splits\<close>)
qed

lemma be_value_append: "be_value (xs @ [b]) = 256 * be_value xs + unat b" by (simp add: be_value_def)

lemma be_value_Cons: "be_value (b # bs) = unat b * 256 ^ length bs + be_value bs"
proof (induction bs rule: rev_induct)
  case Nil show ?case by (simp add: be_value_def)
next
  case (snoc x xs)
  have "be_value (b # xs @ [x]) = 256 * be_value (b # xs) + unat x"
    using be_value_append [of "b # xs" x] by simp
  with snoc show ?case by (simp add: be_value_append algebra_simps)
qed

lemma be_value_digits:
  "be_value (map (\<lambda>i. of_nat (x div 256 ^ i)) (rev [0..<k])) = x mod 256 ^ k"
proof (induction k)
  case 0 show ?case by (simp add: be_value_def)
next
  case (Suc k)
  have "unat (of_nat (x div 256 ^ k) :: u8) = x div 256 ^ k mod 256"
    by (simp add: unat_of_nat take_bit_eq_mod)
  with Suc show ?case
    using mod_mult2_eq [of x "256 ^ k" 256] by (simp add: be_value_Cons mult.commute)
qed

lemma u64_be_value [simp]: "of_nat (be_value (u64_to_be_bytes w)) = w"
proof -
  have "(ucast (drop_bit (8 * i) w) :: u8) = of_nat (unat w div 256 ^ i)" for i
  proof -
    have "unat (drop_bit (8 * i) w) = drop_bit (8 * i) (unat w)" by (rule unat_drop_bit_eq)
    also have "\<dots> = unat w div 256 ^ i" by (simp add: drop_bit_eq_div power_mult)
    finally have "unat (ucast (drop_bit (8 * i) w) :: u8) = unat (of_nat (unat w div 256 ^ i) :: u8)"
      by (simp only: unat_of_nat unsigned_ucast_eq) (simp add: take_bit_eq_mod)
    then show ?thesis by (simp only: word_unat_eq_iff)
  qed
  then have "u64_to_be_bytes w = map (\<lambda>i. of_nat (unat w div 256 ^ i)) (rev [0..<8])"
    by (simp add: u64_to_be_bytes_def u64_to_le_bytes_def rev_map)
  then have "be_value (u64_to_be_bytes w) = unat w mod 256 ^ 8" by (simp only: be_value_digits)
  also have "\<dots> = unat w" using unsigned_less [where ?'a = nat, of w] by simp
  finally show ?thesis by simp
qed

lemma std_codec_laws: "field_ok mls \<Longrightarrow> tls_laws (std_codec mls)"
  by (simp add: tls_laws_def std_codec_def vec_field_ok fixed_field_ok u16_to_be_bytes_def)


section \<open>Properties of the wire format\<close>



end
