(* ===== verification/Key_Generation.thy ===== *)
theory Key_Generation
  imports Prelude
begin

text \<open>
  \<^verbatim>\<open>src/tls_aead/key_generation.rs\<close> and the secret types of \<^verbatim>\<open>src/tls_aead/mod.rs\<close>: the key
  schedule from traffic secrets to record keys and nonces.  The crypto provider
  (\<^verbatim>\<open>OpenMlsCrypto\<close>, a trait of the third-party crate \<^verbatim>\<open>openmls_traits\<close>) is the parameter
  \<open>crypto\<close>; the lemmas show that the key-derivation labels are injective and that the length
  checks are exact.
\<close>

section \<open>The crypto provider\<close>

text \<open>
  The third-party enumerations, with the constructors the source names; \<open>HashOther\<close>,
  \<open>AeadOther\<close> and \<open>CryptoOther\<close> stand for the remaining ones.
\<close>

datatype HashType = Sha2_512 | HashOther nat
datatype AeadType = Aes256Gcm | AeadOther nat
datatype CryptoError = InvalidLength | CryptoOther nat

record crypto =
  hash_size :: "HashType \<Rightarrow> nat"
  key_size :: "AeadType \<Rightarrow> nat"
  tag_size :: "AeadType \<Rightarrow> nat"
  hkdf_extract :: "HashType \<Rightarrow> bytes \<Rightarrow> bytes \<Rightarrow> (CryptoError, bytes) res"
  hkdf_expand :: "HashType \<Rightarrow> bytes \<Rightarrow> bytes \<Rightarrow> nat \<Rightarrow> (CryptoError, bytes) res"
  aead_encrypt :: "AeadType \<Rightarrow> bytes \<Rightarrow> bytes \<Rightarrow> bytes \<Rightarrow> bytes \<Rightarrow> (CryptoError, bytes) res"
  aead_decrypt :: "AeadType \<Rightarrow> bytes \<Rightarrow> bytes \<Rightarrow> bytes \<Rightarrow> bytes \<Rightarrow> (CryptoError, bytes) res"

text \<open>
  What the record layer relies on: an AEAD decrypts what it encrypted under the same key, nonce
  and associated data, and its ciphertext is the plaintext's length plus the tag.  HKDF-Expand
  returns the requested number of bytes.
\<close>

definition aead_correct :: "crypto \<Rightarrow> AeadType \<Rightarrow> bool" where
  "aead_correct C alg \<longleftrightarrow>
     (\<forall>k pt n ad ct. aead_encrypt C alg k pt n ad = Ok ct \<longrightarrow>
        aead_decrypt C alg k ct n ad = Ok pt \<and> length ct = length pt + tag_size C alg)"

definition hkdf_expand_length :: "crypto \<Rightarrow> HashType \<Rightarrow> bool" where
  "hkdf_expand_length C h \<longleftrightarrow>
     (\<forall>secret info len out. hkdf_expand C h secret info len = Ok out \<longrightarrow> length out = len)"

section \<open>Secrets\<close>

datatype ServerSecret = ServerSecret bytes
datatype ClientSecret = ClientSecret bytes

primrec server_secret_bytes :: "ServerSecret \<Rightarrow> bytes" where
  "server_secret_bytes (ServerSecret b) = b"

primrec client_secret_bytes :: "ClientSecret \<Rightarrow> bytes" where
  "client_secret_bytes (ClientSecret b) = b"

record TrafficSecrets =
  client_secret :: ClientSecret
  server_secret :: ServerSecret

datatype SecretUpdate =
    ClientSecretUpdate ClientSecret
  | ServerSecretUpdate ServerSecret
  | Both TrafficSecrets

text \<open>\<^verbatim>\<open>TrafficSecrets::update\<close>, the reference meaning of a secret update.\<close>

fun TrafficSecrets_update :: "TrafficSecrets \<Rightarrow> SecretUpdate \<Rightarrow> TrafficSecrets" where
  "TrafficSecrets_update self (ClientSecretUpdate secret) = self\<lparr>client_secret := secret\<rparr>"
| "TrafficSecrets_update self (ServerSecretUpdate secret) = self\<lparr>server_secret := secret\<rparr>"
| "TrafficSecrets_update self (Both secrets) =
     self\<lparr>client_secret := client_secret secrets, server_secret := server_secret secrets\<rparr>"

section \<open>The key schedule\<close>

definition TLS13_IV_SIZE :: nat where "TLS13_IV_SIZE = 12"

definition ascii :: "string \<Rightarrow> bytes" where
  "ascii s = map of_char s"

definition TLS13_PREFIX :: bytes where "TLS13_PREFIX = ascii ''tls13 ''"

lemma length_ascii [simp]: "length (ascii s) = length s"
  by (simp add: ascii_def)

text \<open>
  The \<^verbatim>\<open>info\<close> argument: output length in two bytes, label length, prefix and label, context
  length, context.
\<close>

definition hkdf_label_info :: "nat \<Rightarrow> bytes \<Rightarrow> bytes \<Rightarrow> bytes" where
  "hkdf_label_info len label context =
     u16_to_be_bytes (as_u16 len) @ [of_nat (length TLS13_PREFIX + length label)] @
     TLS13_PREFIX @ label @ [of_nat (length context)] @ context"

definition hdkf_expand_label ::
    "crypto \<Rightarrow> HashType \<Rightarrow> bytes \<Rightarrow> bytes \<Rightarrow> bytes \<Rightarrow> nat \<Rightarrow> (CryptoError, bytes) res" where
  "hdkf_expand_label C hash secret label context len =
     (if len > 0xFFFF then Err InvalidLength
      else if length TLS13_PREFIX + length label > 0xFF then Err InvalidLength
      else if length context > 0xFF then Err InvalidLength
      else hkdf_expand C hash secret (hkdf_label_info len label context) len)"

record GeneratedKeys =
  server_key :: bytes
  server_iv :: bytes
  client_key :: bytes
  client_iv :: bytes

definition expand_client_secret ::
    "crypto \<Rightarrow> HashType \<Rightarrow> ClientSecret \<Rightarrow> bytes \<Rightarrow> AeadType \<Rightarrow> (CryptoError, bytes \<times> bytes) res" where
  "expand_client_secret C hash secret handshake_hash alg =
     res_bind (hdkf_expand_label C hash (client_secret_bytes secret) (ascii ''c ap traffic'')
                 handshake_hash (hash_size C hash)) (\<lambda>secret.
     res_bind (hdkf_expand_label C hash secret (ascii ''key'') [] (key_size C alg)) (\<lambda>key.
     res_bind (hdkf_expand_label C hash secret (ascii ''iv'') [] TLS13_IV_SIZE) (\<lambda>iv.
     Ok (key, iv))))"

definition expand_server_secret ::
    "crypto \<Rightarrow> HashType \<Rightarrow> ServerSecret \<Rightarrow> bytes \<Rightarrow> AeadType \<Rightarrow> (CryptoError, bytes \<times> bytes) res" where
  "expand_server_secret C hash secret handshake_hash alg =
     res_bind (hdkf_expand_label C hash (server_secret_bytes secret) (ascii ''s ap traffic'')
                 handshake_hash (hash_size C hash)) (\<lambda>secret.
     res_bind (hdkf_expand_label C hash secret (ascii ''key'') [] (key_size C alg)) (\<lambda>key.
     res_bind (hdkf_expand_label C hash secret (ascii ''iv'') [] TLS13_IV_SIZE) (\<lambda>iv.
     Ok (key, iv))))"

definition generate_keys ::
    "crypto \<Rightarrow> HashType \<Rightarrow> TrafficSecrets \<Rightarrow> bytes \<Rightarrow> AeadType \<Rightarrow> (CryptoError, GeneratedKeys) res" where
  "generate_keys C hash traffic_secrets handshake_hash alg =
     res_bind (expand_client_secret C hash (client_secret traffic_secrets) handshake_hash alg)
       (\<lambda>(ckey, civ).
     res_bind (expand_server_secret C hash (server_secret traffic_secrets) handshake_hash alg)
       (\<lambda>(skey, siv).
     Ok \<lparr>server_key = skey, server_iv = siv, client_key = ckey, client_iv = civ\<rparr>))"

section \<open>Lemmas\<close>

lemma length_TLS13_PREFIX [simp]: "length TLS13_PREFIX = 6"
  by (simp add: TLS13_PREFIX_def)

lemma of_nat_u8_eq_iff: "m < 256 \<Longrightarrow> n < 256 \<Longrightarrow> (of_nat m :: u8) = of_nat n \<longleftrightarrow> m = n"
  by (simp add: word_of_nat_eq_iff take_bit_nat_eq_self)

lemma as_u16_eq_iff: "m < 65536 \<Longrightarrow> n < 65536 \<Longrightarrow> as_u16 m = as_u16 n \<longleftrightarrow> m = n"
  by (simp add: word_of_nat_eq_iff take_bit_nat_eq_self)

lemma u16_to_be_bytes_inject: "u16_to_be_bytes v = u16_to_be_bytes w \<longleftrightarrow> v = w"
  by (metis u16_to_be_bytes_def list.inject u16_be_roundtrip)

definition hkdf_label_ok :: "nat \<Rightarrow> bytes \<Rightarrow> bytes \<Rightarrow> bool" where
  "hkdf_label_ok len label context \<longleftrightarrow>
     len \<le> 0xFFFF \<and> 6 + length label \<le> 0xFF \<and> length context \<le> 0xFF"

lemma hdkf_expand_label_eq:
  "hdkf_expand_label C hash secret label context len =
     (if hkdf_label_ok len label context
      then hkdf_expand C hash secret (hkdf_label_info len label context) len
      else Err InvalidLength)"
  by (simp add: hdkf_expand_label_def hkdf_label_ok_def)

lemma hkdf_label_info_eq_iff:
  assumes "hkdf_label_ok len label context" and "hkdf_label_ok len' label' context'"
  shows "hkdf_label_info len label context = hkdf_label_info len' label' context' \<longleftrightarrow>
         len = len' \<and> label = label' \<and> context = context'"
proof
  assume eq: "hkdf_label_info len label context = hkdf_label_info len' label' context'"
  then have len: "u16_to_be_bytes (as_u16 len) = u16_to_be_bytes (as_u16 len')"
    and tail: "(of_nat (6 + length label) :: u8) # TLS13_PREFIX @ label @ [of_nat (length context)] @ context
       = of_nat (6 + length label') # TLS13_PREFIX @ label' @ [of_nat (length context')] @ context'"
    by (simp_all add: hkdf_label_info_def)
  from tail have "(of_nat (6 + length label) :: u8) = of_nat (6 + length label')" by simp
  then have "length label = length label'"
    using assms by (subst (asm) of_nat_u8_eq_iff) (simp_all add: hkdf_label_ok_def)
  with tail have "label = label'" "context = context'" by simp_all
  moreover from len have "len = len'"
    using assms by (simp add: u16_to_be_bytes_inject as_u16_eq_iff hkdf_label_ok_def)
  ultimately show "len = len' \<and> label = label' \<and> context = context'" by simp
qed simp

lemma hdkf_expand_label_length:
  "hkdf_expand_length C hash \<Longrightarrow> hdkf_expand_label C hash secret label context len = Ok out \<Longrightarrow>
   length out = len"
  by (auto simp: hdkf_expand_label_eq hkdf_expand_length_def split: if_splits)

lemma expand_client_secret_lengths:
  "hkdf_expand_length C hash \<Longrightarrow> expand_client_secret C hash secret hh alg = Ok (key, iv) \<Longrightarrow>
   length key = key_size C alg \<and> length iv = TLS13_IV_SIZE"
  by (auto simp: expand_client_secret_def hdkf_expand_label_length)

lemma expand_server_secret_lengths:
  "hkdf_expand_length C hash \<Longrightarrow> expand_server_secret C hash secret hh alg = Ok (key, iv) \<Longrightarrow>
   length key = key_size C alg \<and> length iv = TLS13_IV_SIZE"
  by (auto simp: expand_server_secret_def hdkf_expand_label_length)

lemma generate_keys_Ok:
  "generate_keys C hash ts hh alg = Ok keys \<longleftrightarrow>
   expand_client_secret C hash (client_secret ts) hh alg = Ok (client_key keys, client_iv keys) \<and>
   expand_server_secret C hash (server_secret ts) hh alg = Ok (server_key keys, server_iv keys)"
  by (cases keys) (auto simp: generate_keys_def)

section \<open>Properties\<close>

text \<open>
  C31. Key derivation is domain separated: two label expansions that succeed use the same HKDF info
  string only if output length, label and context all agree; in particular the client and server
  traffic labels, and the key and IV labels, never share an info string.  A length that does not
  fit its field is refused, never truncated.
\<close>

theorem hkdf_labels_separate_domains:
  assumes "hdkf_expand_label C h secret label ctx len = Ok out"
    and "hdkf_expand_label C h secret' label' ctx' len' = Ok out'"
  shows "(hkdf_label_info len label ctx = hkdf_label_info len' label' ctx' \<longleftrightarrow>
            len = len' \<and> label = label' \<and> ctx = ctx') \<and>
    hkdf_expand C h secret (hkdf_label_info len label ctx) len = Ok out \<and>
    len < 2 ^ 16 \<and> 6 + length label < 2 ^ 8 \<and> length ctx < 2 ^ 8"
proof -
  have ok: "hkdf_label_ok len label ctx" "hkdf_label_ok len' label' ctx'"
    using assms by (simp_all add: hdkf_expand_label_eq split: if_splits)
  then show ?thesis
    using assms hkdf_label_info_eq_iff [OF ok] by (simp add: hdkf_expand_label_eq hkdf_label_ok_def)
qed

end
