(* ===== verification/Openmls.thy ===== *)
theory Openmls
  imports Messages Key_Generation
begin

text \<open>
  What the handshake uses of third-party code: OpenMLS (with its storage provider), the SQLite
  connection, \<^verbatim>\<open>serde_json\<close> and the signature key pair.  None of it is under \<^verbatim>\<open>src/\<close>; OpenMLS is the
  parameter \<open>M\<close>, a record of the operations the source calls, over the type variables \<open>'s\<close> (the
  storage and the random generator), \<open>'g\<close> (an \<^verbatim>\<open>MlsGroup\<close> in memory), \<open>'m\<close> (an MLS message) and
  \<open>'o\<close> (every other object: key packages, welcomes, private messages, staged commits).  What the
  protocol relies on is the predicate \<open>mls_laws\<close>: OpenMLS refines an abstract group of epoch
  states.  The error types of \<^verbatim>\<open>src/authentication.rs\<close> and \<^verbatim>\<open>state_machine/mod.rs\<close> are here too.
\<close>

section \<open>Errors\<close>

type_synonym mls_error = string

text \<open>The variants of \<^verbatim>\<open>rusqlite::Error\<close> that the program produces or inspects.\<close>

datatype sql_error =
    QueryReturnedNoRows
  | FromSqlConversionFailure string
  | ToSqlConversionFailure string
  | InvalidColumnType
  | SqliteFailure string

datatype VerificationError = WrongCredentialType | UnexpectedVerifyingKey | LibraryError

text \<open>
  \<^verbatim>\<open>HandshakeError\<close>; a \<^verbatim>\<open>BoxedError\<close> holds an error of OpenMLS or, in one place, another
  \<^verbatim>\<open>HandshakeError\<close>.
\<close>

datatype 'e BoxedError = BoxedMls mls_error | BoxedHandshake 'e

datatype HandshakeError =
    HandshakeCodecError tls_error
  | WrongProtocolVersion
  | HandshakeUnexpectedMessage string string
  | HandshakeVerificationError VerificationError
  | SharedSecretError mls_error
  | ServerHelloError
  | ProviderError "HandshakeError BoxedError"
  | KeyPackageError mls_error
  | ClientHelloError "HandshakeError BoxedError"
  | InvalidSessionId
  | ResumptionError "HandshakeError BoxedError"
  | ConnectionUpdateError "HandshakeError BoxedError"
  | ConnectionConfirmationError "HandshakeError BoxedError"
  | WaitingForResponse
  | PersistenceError sql_error
  | MigrationError string
  | ValidationError string

section \<open>Data of OpenMLS\<close>

type_synonym GroupId = bytes
type_synonym Uuid = bytes
type_synonym SignaturePublicKey = bytes

datatype Ciphersuite = MLS_256_XWING_AES256GCM_SHA512_P384 | CiphersuiteOther nat

datatype Credential = Basic bytes | OtherCredential nat bytes

record SignatureKeyPair =
  signer_public :: SignaturePublicKey
  signer_private :: bytes

record CredentialWithKey =
  credential :: Credential
  signature_key :: SignaturePublicKey

text \<open>\<^verbatim>\<open>Capabilities::new\<close>: versions, ciphersuites, extensions, proposals, credentials; \<open>None\<close> is the default.\<close>

record Capabilities =
  cap_versions :: "string list option"
  cap_ciphersuites :: "Ciphersuite list option"
  cap_extensions :: "string list option"
  cap_proposals :: "string list option"
  cap_credentials :: "string list option"

datatype 'o MlsMessageBodyIn = BodyKeyPackage 'o | BodyWelcome 'o | BodyPrivateMessage 'o | BodyOther

datatype Sender = Member | OtherSender

datatype 'o ProcessedMessageContent = StagedCommitMessage 'o | OtherContent

record 'o ProcessedMessage =
  pm_sender :: Sender
  pm_credential :: Credential
  pm_content :: "'o ProcessedMessageContent"

text \<open>\<^verbatim>\<open>BasicCredential::try_from(credential)\<close> and its \<^verbatim>\<open>identity()\<close>.\<close>

fun BasicCredential_try_from :: "Credential \<Rightarrow> bytes option" where
  "BasicCredential_try_from (Basic identity) = Some identity"
| "BasicCredential_try_from (OtherCredential _ _) = None"

section \<open>Operations of OpenMLS\<close>

text \<open>
  An operation on a group returns the changed group with its result; a failed one returns none,
  since every caller leaves with the error and drops the group.
\<close>

record ('s, 'g, 'm, 'o) openmls =
  mls_initialize :: "'s \<Rightarrow> (string, unit, 's) outcome"
  mls_new_uuid :: "'s \<Rightarrow> Uuid \<times> 's"
  mls_load :: "'s \<Rightarrow> GroupId \<Rightarrow> (mls_error, 'g option) res"
  mls_group_id :: "'g \<Rightarrow> GroupId"
  mls_epoch :: "'g \<Rightarrow> u64"
  mls_has_pending_commit :: "'g \<Rightarrow> bool"
  mls_hash_length :: "'g \<Rightarrow> nat"
  mls_export_secret :: "'g \<Rightarrow> string \<Rightarrow> bytes \<Rightarrow> nat \<Rightarrow> (mls_error, bytes) res"
  mls_self_update :: "'g \<Rightarrow> SignatureKeyPair \<Rightarrow> Capabilities \<Rightarrow> 's \<Rightarrow> (mls_error, 'm \<times> 'g, 's) outcome"
  mls_merge_pending_commit :: "'g \<Rightarrow> 's \<Rightarrow> (mls_error, 'g, 's) outcome"
  mls_clear_pending_commit :: "'g \<Rightarrow> 's \<Rightarrow> (mls_error, 'g, 's) outcome"
  mls_process_message :: "'g \<Rightarrow> 'o \<Rightarrow> 's \<Rightarrow> (mls_error, 'o ProcessedMessage \<times> 'g, 's) outcome"
  mls_merge_staged_commit :: "'g \<Rightarrow> 'o \<Rightarrow> 's \<Rightarrow> (mls_error, 'g, 's) outcome"
  mls_delete :: "'g \<Rightarrow> 's \<Rightarrow> (sql_error, unit, 's) outcome"
  mls_extract :: "'m \<Rightarrow> 'o MlsMessageBodyIn"
  mls_message_group_id :: "'o \<Rightarrow> GroupId"
  mls_message_epoch :: "'o \<Rightarrow> u64"
  mls_path_credential :: "'o \<Rightarrow> Credential option"
  mls_queued_proposals :: "'o \<Rightarrow> nat"
  mls_key_package_validate :: "'o \<Rightarrow> (mls_error, 'o) res"
  mls_key_package_credential :: "'o \<Rightarrow> Credential"
  mls_key_package_build ::
    "Ciphersuite \<Rightarrow> Capabilities \<Rightarrow> SignatureKeyPair \<Rightarrow> CredentialWithKey \<Rightarrow> 's \<Rightarrow> (mls_error, 'm, 's) outcome"
  mls_group_build ::
    "GroupId \<Rightarrow> Capabilities \<Rightarrow> Ciphersuite \<Rightarrow> SignatureKeyPair \<Rightarrow> CredentialWithKey \<Rightarrow> 's \<Rightarrow> (mls_error, 'g, 's) outcome"
  mls_add_members :: "'g \<Rightarrow> SignatureKeyPair \<Rightarrow> 'o list \<Rightarrow> 's \<Rightarrow> (mls_error, 'm \<times> 'g, 's) outcome"
  mls_stage_welcome :: "'o \<Rightarrow> 's \<Rightarrow> (mls_error, 'o, 's) outcome"
  mls_welcome_sender_key :: "'o \<Rightarrow> (mls_error, SignaturePublicKey) res"
  mls_into_group :: "'o \<Rightarrow> 's \<Rightarrow> (mls_error, 'g, 's) outcome"

section \<open>The connection\<close>

text \<open>
  The SQLite connection: the tables of OpenMLS (behind \<open>'s\<close>) and the program's own table, absent
  until it is created.  Columns are dynamically typed.  \<open>faults\<close> is what the next statements on the
  program's table meet: each consumes one entry, an error or \<open>None\<close>; an exhausted list means no
  further errors.  A statement that fails has no effect.
\<close>

datatype sql_value = SqlNull | SqlInteger int | SqlBlob bytes | SqlOtherValue

record handshake_row =
  row_profile_id :: Uuid
  row_version :: sql_value
  row_state :: sql_value

record 's Connection =
  mls_storage :: 's
  handshake_states :: "handshake_row list option"
  faults :: "sql_error option list"

definition next_fault :: "'s Connection \<Rightarrow> sql_error option \<times> 's Connection" where
  "next_fault conn =
     (case faults conn of [] \<Rightarrow> (None, conn) | f # fs \<Rightarrow> (f, conn\<lparr>faults := fs\<rparr>))"

text \<open>
  A statement on the program's table: it fails if the table does not exist, then as \<open>faults\<close> says.
\<close>

definition with_table ::
    "'s Connection \<Rightarrow> (handshake_row list \<Rightarrow> 's Connection \<Rightarrow> (sql_error, 'a, 's Connection) outcome)
       \<Rightarrow> (sql_error, 'a, 's Connection) outcome" where
  "with_table conn f =
     (case next_fault conn of
        (Some e, conn) \<Rightarrow> (Err e, conn)
      | (None, conn) \<Rightarrow>
          (case handshake_states conn of
             None \<Rightarrow> (Err (SqliteFailure ''no such table: handshake_states''), conn)
           | Some rows \<Rightarrow> f rows conn))"

text \<open>A call into OpenMLS through a \<^verbatim>\<open>Provider\<close> on the connection.\<close>

definition with_provider ::
    "('e \<Rightarrow> 'f) \<Rightarrow> ('s \<Rightarrow> ('e, 'a, 's) outcome) \<Rightarrow> 's Connection \<Rightarrow> ('f, 'a, 's Connection) outcome" where
  "with_provider conv call conn =
     (case call (mls_storage conn) of (r, s) \<Rightarrow> (map_err conv r, conn\<lparr>mls_storage := s\<rparr>))"

text \<open>Converting the error of a call that has run.\<close>

definition err_as :: "('e \<Rightarrow> 'f) \<Rightarrow> ('e, 'a, 's) outcome \<Rightarrow> ('f, 'a, 's) outcome" where
  "err_as conv m = (case m of (r, s) \<Rightarrow> (map_err conv r, s))"

lemma err_as_Ok [simp]: "err_as conv m = (Ok x, s) \<longleftrightarrow> m = (Ok x, s)"
  by (cases m) (auto simp: err_as_def)

lemma with_provider_Ok_iff:
  "with_provider conv call conn = (Ok x, conn') \<longleftrightarrow>
   (\<exists>s. call (mls_storage conn) = (Ok x, s) \<and> conn' = conn\<lparr>mls_storage := s\<rparr>)"
  by (auto simp: with_provider_def split: prod.splits)

lemma with_provider_Ok [simp]:
  "call (mls_storage conn) = (Ok x, s) \<Longrightarrow>
   with_provider conv call conn = (Ok x, conn\<lparr>mls_storage := s\<rparr>)"
  by (simp add: with_provider_def)

section \<open>What the protocol relies on\<close>

text \<open>
  The abstract meaning of OpenMLS (RFC 9420): a group passes through epoch states \<open>'e\<close>; all exported
  secrets are functions of the epoch state; a commit leads from one epoch state to the next, for the
  member that makes it (who merges it when it wants to) and for a member that processes it.  A view
  \<open>V\<close> names these abstract parts of the opaque objects.
\<close>

record ('g, 'm, 'o, 'e) mls_view =
  view_me :: "'g \<Rightarrow> nat"
  view_state :: "'g \<Rightarrow> 'e"
  view_pending :: "'g \<Rightarrow> 'e option"
  view_commit :: "'m \<Rightarrow> (GroupId \<times> nat \<times> 'e \<times> 'e) option"
  view_staged :: "'o \<Rightarrow> 'e option"
  view_welcome :: "'m \<Rightarrow> (GroupId \<times> 'e \<times> SignaturePublicKey) option"
  view_staged_welcome :: "'o \<Rightarrow> (GroupId \<times> 'e \<times> SignaturePublicKey) option"
  view_epoch :: "'e \<Rightarrow> u64"
  view_hash_length :: "'e \<Rightarrow> nat"
  view_export :: "'e \<Rightarrow> string \<Rightarrow> bytes \<Rightarrow> nat \<Rightarrow> (mls_error, bytes) res"

text \<open>Storage holds the group \<open>gid\<close> for member \<open>me\<close>, in epoch state \<open>e\<close>, with the given pending commit.\<close>

definition group_at ::
    "('s, 'g, 'm, 'o) openmls \<Rightarrow> ('g, 'm, 'o, 'e) mls_view \<Rightarrow> 's \<Rightarrow> 'g \<Rightarrow> GroupId \<Rightarrow> nat \<Rightarrow> 'e \<Rightarrow> 'e option \<Rightarrow> bool" where
  "group_at M V s g gid me e pend \<longleftrightarrow>
     mls_load M s gid = Ok (Some g) \<and> mls_group_id M g = gid \<and> view_me V g = me \<and>
     view_state V g = e \<and> view_pending V g = pend"

text \<open>The reading operations are functions of the epoch state, and a commit names its group and epoch.\<close>

definition mls_reads :: "('s, 'g, 'm, 'o) openmls \<Rightarrow> ('g, 'm, 'o, 'e) mls_view \<Rightarrow> bool" where
  "mls_reads M V \<longleftrightarrow>
     (\<forall>g. mls_epoch M g = view_epoch V (view_state V g) \<and>
          mls_hash_length M g = view_hash_length V (view_state V g) \<and>
          mls_export_secret M g = view_export V (view_state V g) \<and>
          (mls_has_pending_commit M g \<longleftrightarrow> view_pending V g \<noteq> None)) \<and>
     (\<forall>m gid by e e'. view_commit V m = Some (gid, by, e, e') \<longrightarrow>
        view_epoch V e' = view_epoch V e + 1 \<and>
        (\<exists>pm. mls_extract M m = BodyPrivateMessage pm \<and> mls_message_group_id M pm = gid \<and>
              mls_message_epoch M pm = view_epoch V e))"

text \<open>Making, merging and dropping one's own commit.\<close>

definition mls_commits :: "('s, 'g, 'm, 'o) openmls \<Rightarrow> ('g, 'm, 'o, 'e) mls_view \<Rightarrow> bool" where
  "mls_commits M V \<longleftrightarrow>
     (\<forall>s g gid me e k caps m g' s'.
        group_at M V s g gid me e None \<longrightarrow> mls_self_update M g k caps s = (Ok (m, g'), s') \<longrightarrow>
        (\<exists>e'. view_commit V m = Some (gid, me, e, e') \<and> group_at M V s' g' gid me e (Some e'))) \<and>
     (\<forall>s g gid me e e' g' s'.
        group_at M V s g gid me e (Some e') \<longrightarrow> mls_merge_pending_commit M g s = (Ok g', s') \<longrightarrow>
        group_at M V s' g' gid me e' None) \<and>
     (\<forall>s g gid me e pend g' s'.
        group_at M V s g gid me e pend \<longrightarrow> mls_clear_pending_commit M g s = (Ok g', s') \<longrightarrow>
        group_at M V s' g' gid me e None)"

text \<open>Processing another member's commit.\<close>

definition mls_receives :: "('s, 'g, 'm, 'o) openmls \<Rightarrow> ('g, 'm, 'o, 'e) mls_view \<Rightarrow> bool" where
  "mls_receives M V \<longleftrightarrow>
     (\<forall>s g gid me e pend m by e' pm processed g' s'.
        group_at M V s g gid me e pend \<longrightarrow> view_commit V m = Some (gid, by, e, e') \<longrightarrow> by \<noteq> me \<longrightarrow>
        mls_extract M m = BodyPrivateMessage pm \<longrightarrow>
        mls_process_message M g pm s = (Ok (processed, g'), s') \<longrightarrow>
        group_at M V s' g' gid me e pend \<and>
        (\<forall>staged. pm_content processed = StagedCommitMessage staged \<longrightarrow> view_staged V staged = Some e')) \<and>
     (\<forall>s g gid me e pend staged e' g' s'.
        group_at M V s g gid me e pend \<longrightarrow> view_staged V staged = Some e' \<longrightarrow>
        mls_merge_staged_commit M g staged s = (Ok g', s') \<longrightarrow> group_at M V s' g' gid me e' None)"

definition mls_laws :: "('s, 'g, 'm, 'o) openmls \<Rightarrow> ('g, 'm, 'o, 'e) mls_view \<Rightarrow> bool" where
  "mls_laws M V \<longleftrightarrow> mls_reads M V \<and> mls_commits M V \<and> mls_receives M V"

text \<open>
  That nothing fails: storage works, and an honest commit of the other member is a well-formed
  path commit without proposals that keeps the member's basic credential.
\<close>

definition mls_total :: "('s, 'g, 'm, 'o) openmls \<Rightarrow> ('g, 'm, 'o, 'e) mls_view \<Rightarrow> bool" where
  "mls_total M V \<longleftrightarrow>
     (\<forall>s g gid me e k caps. group_at M V s g gid me e None \<longrightarrow> is_ok (fst (mls_self_update M g k caps s))) \<and>
     (\<forall>s g gid me e e'. group_at M V s g gid me e (Some e') \<longrightarrow> is_ok (fst (mls_merge_pending_commit M g s))) \<and>
     (\<forall>s g gid me e pend. group_at M V s g gid me e pend \<longrightarrow> is_ok (fst (mls_clear_pending_commit M g s))) \<and>
     (\<forall>s g gid me e pend m by e' pm.
        group_at M V s g gid me e pend \<longrightarrow> view_commit V m = Some (gid, by, e, e') \<longrightarrow> by \<noteq> me \<longrightarrow>
        mls_extract M m = BodyPrivateMessage pm \<longrightarrow>
        (\<exists>processed g' s' staged identity. mls_process_message M g pm s = (Ok (processed, g'), s') \<and>
           pm_sender processed = Member \<and> pm_content processed = StagedCommitMessage staged \<and>
           mls_path_credential M staged = Some (Basic identity) \<and> pm_credential processed = Basic identity \<and>
           mls_queued_proposals M staged = 0)) \<and>
     (\<forall>s g gid me e pend staged e'.
        group_at M V s g gid me e pend \<longrightarrow> view_staged V staged = Some e' \<longrightarrow>
        is_ok (fst (mls_merge_staged_commit M g staged s))) \<and>
     (\<forall>e label ctx len. is_ok (view_export V e label ctx len))"

text \<open>
  Making a group and joining it: the group's creator is member 0; a welcome carries the epoch state
  that the commit which adds the new member leads to, signed with the creator's key; the new member
  is member 1.
\<close>

definition mls_joins :: "('s, 'g, 'm, 'o) openmls \<Rightarrow> ('g, 'm, 'o, 'e) mls_view \<Rightarrow> bool" where
  "mls_joins M V \<longleftrightarrow>
     (\<forall>s gid caps cs k cwk g s'. mls_group_build M gid caps cs k cwk s = (Ok g, s') \<longrightarrow>
        (\<exists>e. group_at M V s' g gid 0 e None)) \<and>
     (\<forall>s g gid e k kps wel g' s'. group_at M V s g gid 0 e None \<longrightarrow>
        mls_add_members M g k kps s = (Ok (wel, g'), s') \<longrightarrow>
        (\<exists>e'. view_welcome V wel = Some (gid, e', signer_public k) \<and> group_at M V s' g' gid 0 e (Some e'))) \<and>
     (\<forall>s wel wo gid e key staged s'. view_welcome V wel = Some (gid, e, key) \<longrightarrow>
        mls_extract M wel = BodyWelcome wo \<longrightarrow> mls_stage_welcome M wo s = (Ok staged, s') \<longrightarrow>
        view_staged_welcome V staged = Some (gid, e, key) \<and> mls_welcome_sender_key M staged = Ok key) \<and>
     (\<forall>s staged gid e key g s'. view_staged_welcome V staged = Some (gid, e, key) \<longrightarrow>
        mls_into_group M staged s = (Ok g, s') \<longrightarrow> group_at M V s' g gid 1 e None)"

text \<open>A key package carries the credential it was built for, as a message and after validation.\<close>

definition mls_key_packages :: "('s, 'g, 'm, 'o) openmls \<Rightarrow> bool" where
  "mls_key_packages M \<longleftrightarrow>
     (\<forall>cs caps k cwk s kp s' ko valid. mls_key_package_build M cs caps k cwk s = (Ok kp, s') \<longrightarrow>
        mls_extract M kp = BodyKeyPackage ko \<longrightarrow> mls_key_package_validate M ko = Ok valid \<longrightarrow>
        mls_key_package_credential M valid = credential cwk)"

lemma mls_join_steps:
  assumes "mls_joins M V"
  shows "mls_group_build M gid caps cs k cwk s = (Ok g, s') \<Longrightarrow> \<exists>e. group_at M V s' g gid 0 e None"
    and "group_at M V s g gid 0 e None \<Longrightarrow> mls_add_members M g k kps s = (Ok (wel, g'), s') \<Longrightarrow>
      \<exists>e'. view_welcome V wel = Some (gid, e', signer_public k) \<and> group_at M V s' g' gid 0 e (Some e')"
    and "view_welcome V wel = Some (gid, e, key) \<Longrightarrow> mls_extract M wel = BodyWelcome wo \<Longrightarrow>
      mls_stage_welcome M wo s = (Ok staged, s') \<Longrightarrow>
      view_staged_welcome V staged = Some (gid, e, key) \<and> mls_welcome_sender_key M staged = Ok key"
    and "view_staged_welcome V staged = Some (gid, e, key) \<Longrightarrow> mls_into_group M staged s = (Ok g, s') \<Longrightarrow>
      group_at M V s' g gid 1 e None"
  using assms unfolding mls_joins_def by (elim conjE, metis)+

lemma mls_reads_simps:
  assumes "mls_laws M V" and "group_at M V s g gid me e pend"
  shows "mls_load M s gid = Ok (Some g)" "mls_group_id M g = gid" "mls_epoch M g = view_epoch V e"
    "mls_hash_length M g = view_hash_length V e" "mls_export_secret M g = view_export V e"
    "mls_has_pending_commit M g \<longleftrightarrow> pend \<noteq> None"
  using assms by (auto simp: mls_laws_def mls_reads_def group_at_def)

lemma mls_commit_message:
  assumes "mls_laws M V" and "view_commit V m = Some (gid, by, e, e')"
  shows "view_epoch V e' = view_epoch V e + 1"
    and "\<exists>pm. mls_extract M m = BodyPrivateMessage pm \<and> mls_message_group_id M pm = gid \<and>
              mls_message_epoch M pm = view_epoch V e"
  using assms by (auto simp: mls_laws_def mls_reads_def)

lemma mls_commit_steps:
  assumes "mls_laws M V"
  shows "group_at M V s g gid me e None \<Longrightarrow> mls_self_update M g k caps s = (Ok (m, g'), s') \<Longrightarrow>
      \<exists>e'. view_commit V m = Some (gid, me, e, e') \<and> group_at M V s' g' gid me e (Some e')"
    and "group_at M V s g gid me e (Some e1) \<Longrightarrow> mls_merge_pending_commit M g s = (Ok g', s') \<Longrightarrow>
      group_at M V s' g' gid me e1 None"
    and "group_at M V s g gid me e pend \<Longrightarrow> mls_clear_pending_commit M g s = (Ok g', s') \<Longrightarrow>
      group_at M V s' g' gid me e None"
  using assms unfolding mls_laws_def mls_commits_def by (elim conjE, metis)+

lemma mls_receive_steps:
  assumes "mls_laws M V"
  shows "group_at M V s g gid me e pend \<Longrightarrow> view_commit V m = Some (gid, by, e, e1) \<Longrightarrow> by \<noteq> me \<Longrightarrow>
      mls_extract M m = BodyPrivateMessage pm \<Longrightarrow> mls_process_message M g pm s = (Ok (processed, g'), s') \<Longrightarrow>
      group_at M V s' g' gid me e pend \<and>
      (\<forall>staged. pm_content processed = StagedCommitMessage staged \<longrightarrow> view_staged V staged = Some e1)"
    and "group_at M V s g gid me e pend \<Longrightarrow> view_staged V staged = Some e1 \<Longrightarrow>
      mls_merge_staged_commit M g staged s = (Ok g', s') \<Longrightarrow> group_at M V s' g' gid me e1 None"
  using assms unfolding mls_laws_def mls_receives_def by (elim conjE, metis)+

lemma mls_total_steps:
  assumes "mls_total M V"
  shows "group_at M V s g gid me e None \<Longrightarrow> \<exists>m g' s'. mls_self_update M g k caps s = (Ok (m, g'), s')"
    and "group_at M V s g gid me e (Some e1) \<Longrightarrow> \<exists>g' s'. mls_merge_pending_commit M g s = (Ok g', s')"
    and "group_at M V s g gid me e pend \<Longrightarrow> \<exists>g' s'. mls_clear_pending_commit M g s = (Ok g', s')"
    and "group_at M V s g gid me e pend \<Longrightarrow> view_commit V m = Some (gid, by, e, e1) \<Longrightarrow> by \<noteq> me \<Longrightarrow>
      mls_extract M m = BodyPrivateMessage pm \<Longrightarrow>
      \<exists>processed g' s' staged identity. mls_process_message M g pm s = (Ok (processed, g'), s') \<and>
         pm_sender processed = Member \<and> pm_content processed = StagedCommitMessage staged \<and>
         mls_path_credential M staged = Some (Basic identity) \<and> pm_credential processed = Basic identity \<and>
         mls_queued_proposals M staged = 0"
    and "group_at M V s g gid me e pend \<Longrightarrow> view_staged V staged = Some e1 \<Longrightarrow>
      \<exists>g' s'. mls_merge_staged_commit M g staged s = (Ok g', s')"
    and "\<exists>out. view_export V e label ctx len = Ok out"
  using assms unfolding mls_total_def is_ok_iff by (elim conjE, metis prod.collapse)+

end
