(* ===== verification/Mls_Session.thy ===== *)
theory Mls_Session
  imports Openmls
begin

text \<open>
  \<^verbatim>\<open>src/mls_handshake/state_machine/mls_group.rs\<close> and the free functions of
  \<^verbatim>\<open>state_machine/mod.rs\<close>: the operations of the handshake on the MLS grp behind a connection, and
  the export of traffic secrets from it.  Every \<^verbatim>\<open>map_err\<close> and question mark of the source is kept, in
  its order, so that the state an error leaves behind is the code's.  The lemmas give the abstract
  meaning of each operation over any OpenMLS that meets \<open>mls_laws\<close>.
\<close>

section \<open>Constants and free functions\<close>

definition CIPHERSUITE :: Ciphersuite where "CIPHERSUITE = MLS_256_XWING_AES256GCM_SHA512_P384"
definition SHARED_EXPORT_LABEL :: string where "SHARED_EXPORT_LABEL = ''MLS-TLS 1.0''"
definition CLIENT_TRAFFIC_SECRET_LABEL :: string where
  "CLIENT_TRAFFIC_SECRET_LABEL = ''Initial Client Traffic Secret''"
definition SERVER_TRAFFIC_SECRET_LABEL :: string where
  "SERVER_TRAFFIC_SECRET_LABEL = ''Initial Server Traffic Secret''"

definition export_label :: "string \<Rightarrow> string" where
  "export_label label = SHARED_EXPORT_LABEL @ label"

definition capabilities :: Capabilities where
  "capabilities = \<lparr>cap_versions = None, cap_ciphersuites = Some [CIPHERSUITE], cap_extensions = None,
     cap_proposals = None, cap_credentials = None\<rparr>"

definition export_traffic_secrets ::
    "('s, 'g, 'm, 'o) openmls \<Rightarrow> 'g \<Rightarrow> (HandshakeError, TrafficSecrets) res" where
  "export_traffic_secrets M grp =
     res_bind (map_err SharedSecretError
       (mls_export_secret M grp (export_label CLIENT_TRAFFIC_SECRET_LABEL) [] (mls_hash_length M grp)))
       (\<lambda>client.
     res_bind (map_err SharedSecretError
       (mls_export_secret M grp (export_label SERVER_TRAFFIC_SECRET_LABEL) [] (mls_hash_length M grp)))
       (\<lambda>server.
     Ok \<lparr>client_secret = ClientSecret client, server_secret = ServerSecret server\<rparr>))"

definition initialize_storage ::
    "('s, 'g, 'm, 'o) openmls \<Rightarrow> 's Connection \<Rightarrow> (HandshakeError, unit, 's Connection) outcome" where
  "initialize_storage M conn = with_provider MigrationError (mls_initialize M) conn"

section \<open>Sessions\<close>

datatype ClientIdentity = ClientIdentity bytes

record MlsSession =
  group_id :: GroupId
  epoch :: u64

definition MlsSession_new :: "GroupId \<Rightarrow> u64 \<Rightarrow> MlsSession" where
  "MlsSession_new gid ep = \<lparr>group_id = gid, epoch = ep\<rparr>"

text \<open>\<^verbatim>\<open>MlsGroup::load(..).map_err(ProviderError)?.ok_or(InvalidSessionId)\<close>.\<close>

definition load_group ::
    "('s, 'g, 'm, 'o) openmls \<Rightarrow> GroupId \<Rightarrow> 's Connection \<Rightarrow> (HandshakeError, 'g) res" where
  "load_group M gid conn =
     res_bind (map_err (\<lambda>e. ProviderError (BoxedMls e)) (mls_load M (mls_storage conn) gid))
       (\<lambda>g. case g of None \<Rightarrow> Err InvalidSessionId | Some grp \<Rightarrow> Ok grp)"

definition create_server_session ::
    "('s, 'g, 'm, 'o) openmls \<Rightarrow> 's Connection \<Rightarrow> SignatureKeyPair \<Rightarrow> 'o
       \<Rightarrow> (HandshakeError, MlsSession \<times> TrafficSecrets \<times> ClientIdentity \<times> 'm, 's Connection) outcome" where
  "create_server_session M conn leaf_signer key_package_in =
     bindS (map_err (\<lambda>e. ClientHelloError (BoxedMls e)) (mls_key_package_validate M key_package_in), conn)
       (\<lambda>kp conn.
     bindS (case BasicCredential_try_from (mls_key_package_credential M kp) of
              None \<Rightarrow> Err (HandshakeVerificationError WrongCredentialType)
            | Some identity \<Rightarrow> Ok (ClientIdentity identity), conn)
       (\<lambda>client_identity conn.
     let cwk = \<lparr>credential = Basic (ascii ''server''), signature_key = signer_public leaf_signer\<rparr> in
     bindS (case mls_new_uuid M (mls_storage conn) of (uuid, s) \<Rightarrow> (Ok uuid, conn\<lparr>mls_storage := s\<rparr>))
       (\<lambda>gid conn.
     bindS (with_provider (\<lambda>e. ClientHelloError (BoxedMls e))
              (mls_group_build M gid capabilities CIPHERSUITE leaf_signer cwk) conn)
       (\<lambda>server_group conn.
     bindS (with_provider (\<lambda>e. ClientHelloError (BoxedMls e))
              (mls_add_members M server_group leaf_signer [kp]) conn)
       (\<lambda>(welcome_message, server_group) conn.
     bindS (with_provider (\<lambda>e. ClientHelloError (BoxedMls e))
              (mls_merge_pending_commit M server_group) conn)
       (\<lambda>server_group conn.
     bindS (export_traffic_secrets M server_group, conn)
       (\<lambda>traffic_secrets conn.
     (Ok (\<lparr>group_id = mls_group_id M server_group, epoch = mls_epoch M server_group\<rparr>,
          traffic_secrets, client_identity, welcome_message), conn))))))))"

definition MlsSession_update ::
    "('s, 'g, 'm, 'o) openmls \<Rightarrow> MlsSession \<Rightarrow> 's Connection \<Rightarrow> SignatureKeyPair
       \<Rightarrow> (HandshakeError, 'm, 's Connection) outcome" where
  "MlsSession_update M self conn leaf_signer =
     bindS (load_group M (group_id self) conn, conn) (\<lambda>grp conn.
     bindS (with_provider (\<lambda>e. ResumptionError (BoxedMls e))
              (mls_self_update M grp leaf_signer capabilities) conn)
       (\<lambda>(update, grp) conn. (Ok update, conn)))"

definition MlsSession_merge_update ::
    "('s, 'g, 'm, 'o) openmls \<Rightarrow> MlsSession \<Rightarrow> 's Connection
       \<Rightarrow> (HandshakeError, TrafficSecrets, MlsSession \<times> 's Connection) outcome" where
  "MlsSession_merge_update M self conn =
     bindS (load_group M (group_id self) conn, (self, conn)) (\<lambda>grp (self, conn).
     bindS (case with_provider (\<lambda>e. ConnectionUpdateError (BoxedMls e))
                   (mls_merge_pending_commit M grp) conn of (r, conn) \<Rightarrow> (r, (self, conn)))
       (\<lambda>grp (self, conn).
     (export_traffic_secrets M grp, (self\<lparr>epoch := mls_epoch M grp\<rparr>, conn))))"

text \<open>
  The validation of a processed message: from a member, a commit with a path, the credential of
  the path's leaf basic and equal to the sender's, no proposals.
\<close>

definition validate_update ::
    "('s, 'g, 'm, 'o) openmls \<Rightarrow> 'o ProcessedMessage \<Rightarrow> (HandshakeError, 'o \<times> ClientIdentity) res" where
  "validate_update M processed =
     (if pm_sender processed \<noteq> Member
      then Err (ValidationError ''Resumption message must be from a member'')
      else case pm_content processed of
        OtherContent \<Rightarrow> Err (ValidationError ''Resumption message must contain a commit'')
      | StagedCommitMessage staged \<Rightarrow>
          (case mls_path_credential M staged of
             None \<Rightarrow> Err (ValidationError ''Resumption commit must contain a path'')
           | Some leaf_credential \<Rightarrow>
               (case BasicCredential_try_from leaf_credential of
                  None \<Rightarrow> Err (HandshakeVerificationError WrongCredentialType)
                | Some identity \<Rightarrow>
                    if pm_credential processed \<noteq> leaf_credential
                    then Err (ValidationError ''Resumption commit must contain the same credential'')
                    else if mls_queued_proposals M staged > 0
                    then Err (ValidationError ''Resumption commit must not contain any proposals'')
                    else Ok (staged, ClientIdentity identity))))"

text \<open>
  The commit this side has pending is merged if the message is for the epoch after it, else
  dropped if the caller says so.  The next epoch is computed with checked or wrapping addition.
\<close>

definition settle_pending_commit ::
    "bool \<Rightarrow> ('s, 'g, 'm, 'o) openmls \<Rightarrow> 'g \<Rightarrow> u64 \<Rightarrow> bool \<Rightarrow> 's Connection
       \<Rightarrow> (HandshakeError, 'g, 's Connection) outcome" where
  "settle_pending_commit oc M grp message_epoch drop_pending_commit conn =
     bindS (add_u64 oc (mls_epoch M grp) 1, conn) (\<lambda>next_group_epoch conn.
     if message_epoch = next_group_epoch \<and> mls_has_pending_commit M grp
     then with_provider (\<lambda>e. ConnectionUpdateError (BoxedMls e)) (mls_merge_pending_commit M grp) conn
     else if drop_pending_commit
     then with_provider (\<lambda>e. ConnectionUpdateError (BoxedMls e)) (mls_clear_pending_commit M grp) conn
     else (Ok grp, conn))"

definition process_mls_update ::
    "bool \<Rightarrow> ('s, 'g, 'm, 'o) openmls \<Rightarrow> 's Connection \<Rightarrow> 'm \<Rightarrow> bool
       \<Rightarrow> (HandshakeError, TrafficSecrets \<times> MlsSession \<times> ClientIdentity, 's Connection) outcome" where
  "process_mls_update oc M conn mls_message drop_pending_commit =
     (case mls_extract M mls_message of
        BodyPrivateMessage protocol_message \<Rightarrow>
          bindS (load_group M (mls_message_group_id M protocol_message) conn, conn) (\<lambda>grp conn.
          bindS (settle_pending_commit oc M grp (mls_message_epoch M protocol_message)
                   drop_pending_commit conn) (\<lambda>grp conn.
          bindS (with_provider (\<lambda>e. ConnectionUpdateError (BoxedMls e))
                   (mls_process_message M grp protocol_message) conn) (\<lambda>(processed, grp) conn.
          bindS (validate_update M processed, conn) (\<lambda>(staged_commit, client_identity) conn.
          bindS (with_provider (\<lambda>e. ConnectionUpdateError (BoxedMls e))
                   (mls_merge_staged_commit M grp staged_commit) conn) (\<lambda>grp conn.
          bindS (export_traffic_secrets M grp, conn) (\<lambda>traffic_secrets conn.
          (Ok (traffic_secrets, \<lparr>group_id = mls_group_id M grp, epoch = mls_epoch M grp\<rparr>,
               client_identity), conn)))))))
      | _ \<Rightarrow> (Err (HandshakeUnexpectedMessage ''PrivateMessage'' ''Unknown''), conn))"

definition MlsSession_process_epoch_key_update ::
    "('s, 'g, 'm, 'o) openmls \<Rightarrow> MlsSession \<Rightarrow> 's Connection \<Rightarrow> EpochKeyUpdate \<Rightarrow> (HandshakeError, unit) res" where
  "MlsSession_process_epoch_key_update M self conn confirmation =
     res_bind (load_group M (group_id self) conn) (\<lambda>grp.
     if mls_epoch M grp \<noteq> eku_epoch confirmation then Err (ValidationError ''Epoch mismatch'') else Ok ())"

definition MlsSession_create_epoch_key_update ::
    "('s, 'g, 'm, 'o) openmls \<Rightarrow> MlsSession \<Rightarrow> 's Connection \<Rightarrow> (HandshakeError, EpochKeyUpdate) res" where
  "MlsSession_create_epoch_key_update M self conn =
     res_bind (load_group M (group_id self) conn) (\<lambda>grp. Ok \<lparr>eku_epoch = mls_epoch M grp\<rparr>)"

definition MlsSession_delete ::
    "('s, 'g, 'm, 'o) openmls \<Rightarrow> MlsSession \<Rightarrow> 's Connection \<Rightarrow> (HandshakeError, unit, 's Connection) outcome" where
  "MlsSession_delete M self conn =
     bindS (load_group M (group_id self) conn, conn) (\<lambda>grp conn.
     with_provider PersistenceError (mls_delete M grp) conn)"

section \<open>The abstract meaning of the operations\<close>

text \<open>The traffic secrets of an epoch state, and membership as seen through a connection.\<close>

definition exported :: "('g, 'm, 'o, 'e) mls_view \<Rightarrow> 'e \<Rightarrow> (HandshakeError, TrafficSecrets) res" where
  "exported V e =
     res_bind (map_err SharedSecretError
       (view_export V e (export_label CLIENT_TRAFFIC_SECRET_LABEL) [] (view_hash_length V e))) (\<lambda>client.
     res_bind (map_err SharedSecretError
       (view_export V e (export_label SERVER_TRAFFIC_SECRET_LABEL) [] (view_hash_length V e))) (\<lambda>server.
     Ok \<lparr>client_secret = ClientSecret client, server_secret = ServerSecret server\<rparr>))"

definition member_at ::
    "('s, 'g, 'm, 'o) openmls \<Rightarrow> ('g, 'm, 'o, 'e) mls_view \<Rightarrow> 's Connection \<Rightarrow> GroupId \<Rightarrow> nat \<Rightarrow> 'e \<Rightarrow> 'e option \<Rightarrow> bool" where
  "member_at M V conn gid me e pend \<longleftrightarrow> (\<exists>g. group_at M V (mls_storage conn) g gid me e pend)"

lemma member_at_storage:
  "member_at M V conn gid me e pend \<Longrightarrow> mls_storage conn' = mls_storage conn \<Longrightarrow> member_at M V conn' gid me e pend"
  by (simp add: member_at_def)

text \<open>Only the MLS side of the connection changes.\<close>

definition same_tables :: "'s Connection \<Rightarrow> 's Connection \<Rightarrow> bool" where
  "same_tables conn conn' \<longleftrightarrow> handshake_states conn' = handshake_states conn \<and> faults conn' = faults conn"

lemma same_tables_storage [simp]: "same_tables conn (conn\<lparr>mls_storage := s\<rparr>)"
  by (simp add: same_tables_def)

lemma same_tables_refl [simp]: "same_tables conn conn"
  by (simp add: same_tables_def)

lemma same_tables_trans: "same_tables a b \<Longrightarrow> same_tables b c \<Longrightarrow> same_tables a c"
  by (simp add: same_tables_def)

lemma export_traffic_secrets_exported:
  "mls_laws M V \<Longrightarrow> group_at M V s g gid me e pend \<Longrightarrow> export_traffic_secrets M g = exported V e"
  by (simp add: export_traffic_secrets_def exported_def mls_reads_simps)

lemma load_group_at:
  "mls_laws M V \<Longrightarrow> group_at M V (mls_storage conn) g gid me e pend \<Longrightarrow> load_group M gid conn = Ok g"
  by (simp add: load_group_def mls_reads_simps)

lemma MlsSession_update_meaning:
  assumes "mls_laws M V" "member_at M V conn (group_id self) me e None"
    and "MlsSession_update M self conn k = (Ok m, conn')"
  shows "\<exists>e'. view_commit V m = Some (group_id self, me, e, e') \<and>
    member_at M V conn' (group_id self) me e (Some e') \<and> same_tables conn conn'"
proof -
  obtain g where g: "group_at M V (mls_storage conn) g (group_id self) me e None"
    using assms(2) by (auto simp: member_at_def)
  obtain g' s' where "mls_self_update M g k capabilities (mls_storage conn) = (Ok (m, g'), s')"
    and conn': "conn' = conn\<lparr>mls_storage := s'\<rparr>"
    using assms(3) load_group_at [OF assms(1) g]
    by (auto simp: MlsSession_update_def bindS_eq_Ok with_provider_Ok_iff)
  from mls_commit_steps(1) [OF assms(1) g this(1)] conn' show ?thesis
    by (auto simp: member_at_def)
qed

lemma MlsSession_merge_update_meaning:
  assumes "mls_laws M V" "member_at M V conn (group_id self) me e (Some e')"
    and "MlsSession_merge_update M self conn = (Ok ts, (self', conn'))"
  shows "exported V e' = Ok ts \<and> self' = self\<lparr>epoch := view_epoch V e'\<rparr> \<and>
    member_at M V conn' (group_id self) me e' None \<and> same_tables conn conn'"
proof -
  obtain g where g: "group_at M V (mls_storage conn) g (group_id self) me e (Some e')"
    using assms(2) by (auto simp: member_at_def)
  obtain g' s' where m: "mls_merge_pending_commit M g (mls_storage conn) = (Ok g', s')"
    and r: "export_traffic_secrets M g' = Ok ts" "self' = self\<lparr>epoch := mls_epoch M g'\<rparr>"
      "conn' = conn\<lparr>mls_storage := s'\<rparr>"
    using assms(3) load_group_at [OF assms(1) g]
    by (auto simp: MlsSession_merge_update_def bindS_eq_Ok with_provider_Ok_iff split: prod.splits)
  note g' = mls_commit_steps(2) [OF assms(1) g m]
  from r export_traffic_secrets_exported [OF assms(1) g'] mls_reads_simps(3) [OF assms(1) g'] g'
  show ?thesis by (auto simp: member_at_def)
qed

lemma epoch_key_update_meaning:
  assumes "mls_laws M V" "member_at M V conn (group_id self) me e pend"
  shows "MlsSession_create_epoch_key_update M self conn = Ok \<lparr>eku_epoch = view_epoch V e\<rparr>"
    and "MlsSession_process_epoch_key_update M self conn u =
      (if view_epoch V e = eku_epoch u then Ok () else Err (ValidationError ''Epoch mismatch''))"
proof -
  obtain g where g: "group_at M V (mls_storage conn) g (group_id self) me e pend"
    using assms(2) by (auto simp: member_at_def)
  show "MlsSession_create_epoch_key_update M self conn = Ok \<lparr>eku_epoch = view_epoch V e\<rparr>"
    "MlsSession_process_epoch_key_update M self conn u =
      (if view_epoch V e = eku_epoch u then Ok () else Err (ValidationError ''Epoch mismatch''))"
    using load_group_at [OF assms(1) g] mls_reads_simps(3) [OF assms(1) g]
    by (simp_all add: MlsSession_create_epoch_key_update_def MlsSession_process_epoch_key_update_def)
qed

text \<open>
  A commit for the current epoch is applied on the epoch state it was made for; the pending commit
  of this side, if there is one, is dropped.
\<close>

lemma add_one_neq: "(a :: u64) \<noteq> a + 1"
  by simp

lemma settle_pending_current:
  assumes "mls_laws M V" "group_at M V (mls_storage conn) g gid me e pend"
    and "drop_pending \<or> pend = None"
    and "settle_pending_commit oc M g (view_epoch V e) drop_pending conn = (Ok g', conn')"
  shows "group_at M V (mls_storage conn') g' gid me e None \<and> same_tables conn conn'"
proof -
  have epoch: "mls_epoch M g = view_epoch V e" by (rule mls_reads_simps(3) [OF assms(1,2)])
  show ?thesis
  proof (cases drop_pending)
    case True
    then obtain s' where "mls_clear_pending_commit M g (mls_storage conn) = (Ok g', s')"
      "conn' = conn\<lparr>mls_storage := s'\<rparr>"
      using assms(4) epoch
      by (auto simp: settle_pending_commit_def bindS_eq_Ok with_provider_Ok_iff dest!: add_u64_Ok_D)
    with mls_commit_steps(3) [OF assms(1,2)] show ?thesis by simp
  next
    case False
    with assms(2,3,4) epoch show ?thesis
      by (auto simp: settle_pending_commit_def bindS_eq_Ok dest!: add_u64_Ok_D)
  qed
qed

lemma settle_pending_next:
  assumes "mls_laws M V" "group_at M V (mls_storage conn) g gid me e (Some e1)"
    and "view_epoch V e1 = view_epoch V e + 1"
    and "settle_pending_commit oc M g (view_epoch V e1) drop_pending conn = (Ok g', conn')"
  shows "group_at M V (mls_storage conn') g' gid me e1 None \<and> same_tables conn conn'"
proof -
  obtain s' where "mls_merge_pending_commit M g (mls_storage conn) = (Ok g', s')"
    "conn' = conn\<lparr>mls_storage := s'\<rparr>"
    using assms(3,4) mls_reads_simps(3,6) [OF assms(1,2)]
    by (auto simp: settle_pending_commit_def bindS_eq_Ok with_provider_Ok_iff dest!: add_u64_Ok_D)
  with mls_commit_steps(2) [OF assms(1,2)] show ?thesis by simp
qed

lemma validate_update_Ok:
  "validate_update M processed = Ok (staged, ident) \<longleftrightarrow>
   (\<exists>identity. pm_sender processed = Member \<and> pm_content processed = StagedCommitMessage staged \<and>
      mls_path_credential M staged = Some (Basic identity) \<and> pm_credential processed = Basic identity \<and>
      mls_queued_proposals M staged = 0 \<and> ident = ClientIdentity identity)"
proof -
  have "BasicCredential_try_from c = Some identity \<longleftrightarrow> c = Basic identity" for c identity
    by (cases c) auto
  then show ?thesis
    by (auto simp: validate_update_def split: if_splits ProcessedMessageContent.splits option.splits)
qed

text \<open>What follows the settling of the pending commit.\<close>

lemma apply_commit_meaning:
  assumes "mls_laws M V" "group_at M V (mls_storage conn) g gid me e None"
    and "view_commit V m = Some (gid, by, e, e')" "by \<noteq> me" "mls_extract M m = BodyPrivateMessage pm"
    and "with_provider conv (mls_process_message M g pm) conn = (Ok (processed, g1), conn1)"
    and "validate_update M processed = Ok (staged, ident)"
    and "with_provider conv' (mls_merge_staged_commit M g1 staged) conn1 = (Ok g2, conn2)"
  shows "group_at M V (mls_storage conn2) g2 gid me e' None \<and> same_tables conn conn2"
proof -
  obtain s1 where 1: "mls_process_message M g pm (mls_storage conn) = (Ok (processed, g1), s1)"
    and c1: "conn1 = conn\<lparr>mls_storage := s1\<rparr>"
    using assms(6) by (auto simp: with_provider_Ok_iff)
  obtain s2 where 2: "mls_merge_staged_commit M g1 staged s1 = (Ok g2, s2)"
    and c2: "conn2 = conn1\<lparr>mls_storage := s2\<rparr>"
    using assms(8) c1 by (auto simp: with_provider_Ok_iff)
  from mls_receive_steps(1) [OF assms(1-5) 1] assms(7)
  have "group_at M V s1 g1 gid me e None" "view_staged V staged = Some e'"
    by (auto simp: validate_update_Ok)
  from mls_receive_steps(2) [OF assms(1) this 2] c1 c2 show ?thesis by simp
qed

lemma process_mls_update_cases:
  assumes "process_mls_update oc M conn m drop_pending = (Ok (ts, session, ident), conn')"
  obtains pm g g0 conn0 processed g1 conn1 staged g2 where
    "mls_extract M m = BodyPrivateMessage pm"
    "load_group M (mls_message_group_id M pm) conn = Ok g"
    "settle_pending_commit oc M g (mls_message_epoch M pm) drop_pending conn = (Ok g0, conn0)"
    "with_provider (\<lambda>e. ConnectionUpdateError (BoxedMls e)) (mls_process_message M g0 pm) conn0 = (Ok (processed, g1), conn1)"
    "validate_update M processed = Ok (staged, ident)"
    "with_provider (\<lambda>e. ConnectionUpdateError (BoxedMls e)) (mls_merge_staged_commit M g1 staged) conn1 = (Ok g2, conn')"
    "export_traffic_secrets M g2 = Ok ts"
    "session = \<lparr>group_id = mls_group_id M g2, epoch = mls_epoch M g2\<rparr>"
  using assms
  by (auto simp: process_mls_update_def bindS_eq_Ok split: MlsMessageBodyIn.splits)

lemma process_mls_update_meaning:
  assumes "mls_laws M V" "member_at M V conn gid me e0 pend"
    and "view_commit V m = Some (gid, by, e, e')" "by \<noteq> me"
    and "e = e0 \<and> (drop_pending \<or> pend = None) \<or> pend = Some e \<and> view_epoch V e = view_epoch V e0 + 1"
    and "process_mls_update oc M conn m drop_pending = (Ok (ts, session, ident), conn')"
  shows "exported V e' = Ok ts \<and> session = \<lparr>group_id = gid, epoch = view_epoch V e'\<rparr> \<and>
    member_at M V conn' gid me e' None \<and> same_tables conn conn'"
proof -
  obtain g where g: "group_at M V (mls_storage conn) g gid me e0 pend"
    using assms(2) by (auto simp: member_at_def)
  from assms(6) show ?thesis
  proof (rule process_mls_update_cases)
    fix pm h g0 conn0 processed g1 conn1 staged g2
    assume pm: "mls_extract M m = BodyPrivateMessage pm"
      and h: "load_group M (mls_message_group_id M pm) conn = Ok h"
      and settle: "settle_pending_commit oc M h (mls_message_epoch M pm) drop_pending conn = (Ok g0, conn0)"
      and rest: "with_provider (\<lambda>e. ConnectionUpdateError (BoxedMls e)) (mls_process_message M g0 pm) conn0 = (Ok (processed, g1), conn1)"
        "validate_update M processed = Ok (staged, ident)"
        "with_provider (\<lambda>e. ConnectionUpdateError (BoxedMls e)) (mls_merge_staged_commit M g1 staged) conn1 = (Ok g2, conn')"
      and ts: "export_traffic_secrets M g2 = Ok ts"
      and sess: "session = \<lparr>group_id = mls_group_id M g2, epoch = mls_epoch M g2\<rparr>"
    have msg: "mls_message_group_id M pm = gid" "mls_message_epoch M pm = view_epoch V e"
      using mls_commit_message(2) [OF assms(1,3)] pm by auto
    with h load_group_at [OF assms(1) g] have "h = g" by simp
    then have "group_at M V (mls_storage conn0) g0 gid me e None \<and> same_tables conn conn0"
      using assms(5) settle msg settle_pending_current [OF assms(1) g] settle_pending_next [OF assms(1)] g by metis
    then have g0: "group_at M V (mls_storage conn0) g0 gid me e None" and t0: "same_tables conn conn0" by auto
    note g2 = apply_commit_meaning [OF assms(1) g0 assms(3,4) pm rest]
    from g2 have "group_at M V (mls_storage conn') g2 gid me e' None" by simp
    from ts sess g2 t0 export_traffic_secrets_exported [OF assms(1) this] mls_reads_simps(2,3) [OF assms(1) this]
    show ?thesis by (auto simp: member_at_def intro: same_tables_trans)
  qed
qed

section \<open>The operations succeed\<close>

text \<open>Addition of one to an epoch that has not reached the end of its range.\<close>

definition epoch_in_range :: "bool \<Rightarrow> u64 \<Rightarrow> bool" where
  "epoch_in_range oc ep \<longleftrightarrow> \<not> oc \<or> unat ep + 1 < 2 ^ 64"

lemma add_u64_in_range: "epoch_in_range oc ep \<Longrightarrow> add_u64 oc ep 1 = Ok (ep + 1)"
  by (auto simp: epoch_in_range_def add_u64_def)

lemma exported_total: "mls_total M V \<Longrightarrow> \<exists>ts. exported V e = Ok ts"
proof -
  assume t: "mls_total M V"
  obtain c s where
    "view_export V e (export_label CLIENT_TRAFFIC_SECRET_LABEL) [] (view_hash_length V e) = Ok c"
    "view_export V e (export_label SERVER_TRAFFIC_SECRET_LABEL) [] (view_hash_length V e) = Ok s"
    using mls_total_steps(6) [OF t] by blast
  then show ?thesis by (simp add: exported_def)
qed

lemma MlsSession_update_total:
  assumes "mls_laws M V" "mls_total M V" "member_at M V conn (group_id self) me e None"
  shows "\<exists>m conn'. MlsSession_update M self conn k = (Ok m, conn')"
proof -
  obtain g where g: "group_at M V (mls_storage conn) g (group_id self) me e None"
    using assms(3) by (auto simp: member_at_def)
  obtain m g' s' where "mls_self_update M g k capabilities (mls_storage conn) = (Ok (m, g'), s')"
    using mls_total_steps(1) [OF assms(2) g] by blast
  then show ?thesis by (simp add: MlsSession_update_def load_group_at [OF assms(1) g])
qed

lemma MlsSession_merge_update_total:
  assumes "mls_laws M V" "mls_total M V" "member_at M V conn (group_id self) me e (Some e')"
  shows "\<exists>ts self' conn'. MlsSession_merge_update M self conn = (Ok ts, (self', conn'))"
proof -
  obtain g where g: "group_at M V (mls_storage conn) g (group_id self) me e (Some e')"
    using assms(3) by (auto simp: member_at_def)
  obtain g' s' where m: "mls_merge_pending_commit M g (mls_storage conn) = (Ok g', s')"
    using mls_total_steps(2) [OF assms(2) g] by blast
  obtain ts where "exported V e' = Ok ts" using exported_total [OF assms(2)] by blast
  with m export_traffic_secrets_exported [OF assms(1) mls_commit_steps(2) [OF assms(1) g m]] show ?thesis
    by (simp add: MlsSession_merge_update_def load_group_at [OF assms(1) g])
qed

lemma settle_pending_total:
  assumes "mls_laws M V" "mls_total M V" "group_at M V (mls_storage conn) g gid me e pend"
    and "epoch_in_range oc (view_epoch V e)"
  shows "\<exists>g' conn'. settle_pending_commit oc M g ep drop_pending conn = (Ok g', conn')"
proof -
  note epoch = mls_reads_simps(3,6) [OF assms(1,3)]
  obtain g1 s1 where c: "mls_clear_pending_commit M g (mls_storage conn) = (Ok g1, s1)"
    using mls_total_steps(3) [OF assms(2,3)] by blast
  show ?thesis
  proof (cases pend)
    case None
    with c epoch assms(4) show ?thesis by (simp add: settle_pending_commit_def add_u64_in_range)
  next
    case (Some e1)
    then obtain g2 s2 where "mls_merge_pending_commit M g (mls_storage conn) = (Ok g2, s2)"
      using mls_total_steps(2) [OF assms(2)] assms(3) by blast
    with c epoch assms(4) show ?thesis by (simp add: settle_pending_commit_def add_u64_in_range)
  qed
qed

text \<open>A commit from the member's epoch, or from the one its own pending commit leads to.\<close>

lemma process_mls_update_total:
  assumes "mls_laws M V" "mls_total M V" "member_at M V conn gid me e0 pend"
    and "view_commit V m = Some (gid, by, e, e')" "by \<noteq> me"
    and "e = e0 \<and> (drop_pending \<or> pend = None) \<or> pend = Some e \<and> view_epoch V e = view_epoch V e0 + 1"
    and "epoch_in_range oc (view_epoch V e0)"
  shows "\<exists>ts session ident conn'. process_mls_update oc M conn m drop_pending = (Ok (ts, session, ident), conn')"
proof -
  obtain g where g: "group_at M V (mls_storage conn) g gid me e0 pend"
    using assms(3) by (auto simp: member_at_def)
  obtain pm where pm: "mls_extract M m = BodyPrivateMessage pm" "mls_message_group_id M pm = gid"
    "mls_message_epoch M pm = view_epoch V e"
    using mls_commit_message(2) [OF assms(1,4)] by auto
  obtain g0 conn0 where settle: "settle_pending_commit oc M g (view_epoch V e) drop_pending conn = (Ok g0, conn0)"
    using settle_pending_total [OF assms(1,2) g assms(7)] by blast
  from assms(6) have g0: "group_at M V (mls_storage conn0) g0 gid me e None"
  proof
    assume e: "e = e0 \<and> (drop_pending \<or> pend = None)"
    with settle_pending_current [OF assms(1) g] settle show ?thesis by blast
  next
    assume e: "pend = Some e \<and> view_epoch V e = view_epoch V e0 + 1"
    with settle_pending_next [OF assms(1) _ _ settle] g show ?thesis by blast
  qed
  obtain processed g1 s1 staged identity where
    p: "mls_process_message M g0 pm (mls_storage conn0) = (Ok (processed, g1), s1)"
      "pm_sender processed = Member" "pm_content processed = StagedCommitMessage staged"
      "mls_path_credential M staged = Some (Basic identity)" "pm_credential processed = Basic identity"
      "mls_queued_proposals M staged = 0"
    using mls_total_steps(4) [OF assms(2) g0 assms(4,5) pm(1)] by blast
  then have v: "validate_update M processed = Ok (staged, ClientIdentity identity)"
    by (simp add: validate_update_Ok)
  from mls_receive_steps(1) [OF assms(1) g0 assms(4,5) pm(1) p(1)] p(3)
  have g1: "group_at M V s1 g1 gid me e None" "view_staged V staged = Some e'" by auto
  obtain g2 s2 where 2: "mls_merge_staged_commit M g1 staged s1 = (Ok g2, s2)"
    using mls_total_steps(5) [OF assms(2) g1] by blast
  obtain ts where "exported V e' = Ok ts" using exported_total [OF assms(2)] by blast
  then have "export_traffic_secrets M g2 = Ok ts"
    using export_traffic_secrets_exported [OF assms(1) mls_receive_steps(2) [OF assms(1) g1 2]] by simp
  with pm settle p(1) v 2 show ?thesis
    by (simp add: process_mls_update_def load_group_at [OF assms(1) g])
qed

end
