(* ===== verification/Handshake_State.thy ===== *)
theory Handshake_State
  imports Mls_Session
begin

text \<open>
  The states of the two sides of the handshake (the types of \<^verbatim>\<open>state_machine/client.rs\<close> and
  \<^verbatim>\<open>state_machine/server.rs\<close>), what they share (the trait \<^verbatim>\<open>HandshakeState\<close> and the message
  conversions of \<^verbatim>\<open>state_machine/mod.rs\<close>), and the names under which a message is serialised for
  the wire and read back.
\<close>

section \<open>States\<close>

record 'm PendingUpdate =
  pu_mls_message :: 'm
  pu_traffic_secrets :: TrafficSecrets

datatype 'm ClientInternalState =
    ClientRunning
  | WaitingForConnectionConfirmation "'m PendingUpdate"
  | WaitingForEpochKeyUpdate "'m PendingUpdate"
  | WaitingForEpochKeyUpdateReturn ServerSecret

record 'm ClientHandshakeState =
  profile_id :: Uuid
  client_session :: MlsSession
  client_internal :: "'m ClientInternalState"

record WaitingForServerHello =
  hello_profile_id :: Uuid
  server_verifying_key :: SignaturePublicKey

datatype ServerInternalState = ServerRunning | WaitingForUpdate

record ServerHandshakeState =
  server_session :: MlsSession
  server_internal :: ServerInternalState

section \<open>Shared operations\<close>

definition check_version :: "'m MlsTlsHandshake \<Rightarrow> (HandshakeError, unit) res" where
  "check_version self = (if version self \<noteq> ProtocolVersion_default then Err WrongProtocolVersion else Ok ())"

definition MlsTlsHandshake_from :: "'m HandshakePayload \<Rightarrow> 'm MlsTlsHandshake" where
  "MlsTlsHandshake_from p = \<lparr>version = ProtocolVersion_default, payload = p\<rparr>"

text \<open>\<^verbatim>\<open>tls_serialize_detached()?\<close> and \<^verbatim>\<open>tls_deserialize_exact(..)?\<close> in a function that returns \<^verbatim>\<open>HandshakeError\<close>.\<close>

definition signaling_bytes :: "'m tls_codec \<Rightarrow> 'm SignalingMessage \<Rightarrow> (HandshakeError, bytes) res" where
  "signaling_bytes T msg = map_err HandshakeCodecError (SignalingMessage_ser T msg)"

definition signaling_of_bytes :: "'m tls_codec \<Rightarrow> bytes \<Rightarrow> (HandshakeError, 'm SignalingMessage) res" where
  "signaling_of_bytes T bs = map_err HandshakeCodecError (tls_deserialize_exact (SignalingMessage_de T) bs)"

definition handshake_bytes :: "'m tls_codec \<Rightarrow> 'm MlsTlsHandshake \<Rightarrow> (HandshakeError, bytes) res" where
  "handshake_bytes T h = map_err HandshakeCodecError (MlsTlsHandshake_ser T h)"

definition HandshakeState_create_epoch_key_update ::
    "'m tls_codec \<Rightarrow> ('s, 'g, 'm, 'o) openmls \<Rightarrow> MlsSession \<Rightarrow> 's Connection \<Rightarrow> (HandshakeError, bytes) res" where
  "HandshakeState_create_epoch_key_update T M session conn =
     res_bind (MlsSession_create_epoch_key_update M session conn) (\<lambda>epoch_key_update.
     signaling_bytes T (EpochKeyUpdateMessage epoch_key_update))"

definition HandshakeState_process_epoch_key_update ::
    "('s, 'g, 'm, 'o) openmls \<Rightarrow> MlsSession \<Rightarrow> 's Connection \<Rightarrow> EpochKeyUpdate \<Rightarrow> (HandshakeError, unit) res" where
  "HandshakeState_process_epoch_key_update M session conn key_update =
     MlsSession_process_epoch_key_update M session conn key_update"

lemma signaling_roundtrip:
  "tls_laws T \<Longrightarrow> signaling_bytes T msg = Ok bs \<Longrightarrow> signaling_of_bytes T bs = Ok msg"
  by (simp add: signaling_bytes_def signaling_of_bytes_def signaling_message.exact_roundtrip)

text \<open>The message a sender serialises, as the receiver reads it.\<close>

definition reads_update :: "'m tls_codec \<Rightarrow> bytes \<Rightarrow> 'm \<Rightarrow> bool" where
  "reads_update T bs m \<longleftrightarrow>
     signaling_of_bytes T bs = Ok (ConnectionUpdateMessage \<lparr>update_requested = BFalse, mls_commit = m\<rparr>)"

definition reads_key :: "'m tls_codec \<Rightarrow> bytes \<Rightarrow> u64 \<Rightarrow> bool" where
  "reads_key T bs ep \<longleftrightarrow> signaling_of_bytes T bs = Ok (EpochKeyUpdateMessage \<lparr>eku_epoch = ep\<rparr>)"

lemma create_epoch_key_update_reads:
  assumes "tls_laws T" "mls_laws M V" "member_at M V conn (group_id session) me e pend"
    and "HandshakeState_create_epoch_key_update T M session conn = Ok bs"
  shows "reads_key T bs (view_epoch V e)"
  using assms(4) signaling_roundtrip [OF assms(1)] epoch_key_update_meaning(1) [OF assms(2,3)]
  by (simp add: HandshakeState_create_epoch_key_update_def reads_key_def)

text \<open>That serialisation does not fail, for the theorems that say that a handler succeeds.\<close>

definition signaling_total :: "'m tls_codec \<Rightarrow> bool" where
  "signaling_total T \<longleftrightarrow> (\<forall>msg. is_ok (SignalingMessage_ser T msg))"

lemma signaling_bytes_total: "signaling_total T \<Longrightarrow> \<exists>bs. signaling_bytes T msg = Ok bs"
  by (simp add: signaling_total_def signaling_bytes_def is_ok_iff)

lemma create_epoch_key_update_total:
  assumes "signaling_total T" "mls_laws M V" "member_at M V conn (group_id session) me e pend"
  shows "\<exists>bs. HandshakeState_create_epoch_key_update T M session conn = Ok bs"
  using signaling_bytes_total [OF assms(1)] epoch_key_update_meaning(1) [OF assms(2,3)]
  by (simp add: HandshakeState_create_epoch_key_update_def)

end
