(* ===== verification/Channel.thy ===== *)
theory Channel
  imports Prelude
begin

text \<open>
  The contract of a one-directional ordered channel: a sending endpoint seals payloads, a
  receiving endpoint opens them, and a relation \<open>linked\<close> says that the two endpoints are at the
  same position with the same keys.  The record layer interprets it, one record at a time.
\<close>

primrec seal_all ::
    "('s \<Rightarrow> 'p \<Rightarrow> ('e, 'c, 's) outcome) \<Rightarrow> 's \<Rightarrow> 'p list \<Rightarrow> ('e, 'c list, 's) outcome" where
  "seal_all seal s [] = (Ok [], s)"
| "seal_all seal s (p # ps) =
     bindS (seal s p) (\<lambda>c s. bindS (seal_all seal s ps) (\<lambda>cs s. (Ok (c # cs), s)))"

text \<open>
  Opening is sealing with the roles of payload and ciphertext exchanged, so one recursion
  serves both directions.
\<close>

abbreviation open_all ::
    "('r \<Rightarrow> 'c \<Rightarrow> ('f, 'p, 'r) outcome) \<Rightarrow> 'r \<Rightarrow> 'c list \<Rightarrow> ('f, 'p list, 'r) outcome" where
  "open_all opn r cs \<equiv> seal_all opn r cs"

lemma seal_all_append:
  "seal_all seal s (ps @ qs) =
     bindS (seal_all seal s ps) (\<lambda>cs s. bindS (seal_all seal s qs) (\<lambda>ds s. (Ok (cs @ ds), s)))"
proof (induction ps arbitrary: s)
  case Nil
  show ?case by (cases "seal_all seal s qs"; cases "fst (seal_all seal s qs)") auto
next
  case (Cons p ps)
  obtain r s' where rs: "seal s p = (r, s')" by fastforce
  show ?case
  proof (cases r)
    case (Ok c)
    obtain r2 s2 where rs2: "seal_all seal s' ps = (r2, s2)" by fastforce
    obtain r3 s3 where rs3: "seal_all seal s2 qs = (r3, s3)" by fastforce
    from Ok rs rs2 rs3 Cons.IH [of s'] show ?thesis
      by (cases r2; cases r3) simp_all
  qed (simp_all add: rs)
qed

lemma seal_all_length: "seal_all seal s ps = (Ok cs, s') \<Longrightarrow> length cs = length ps"
  by (induction ps arbitrary: s cs) (auto simp: bindS_eq_Ok)

locale channel =
  fixes seal :: "'s \<Rightarrow> 'p \<Rightarrow> ('e, 'c, 's) outcome"
    and opn :: "'r \<Rightarrow> 'c \<Rightarrow> ('f, 'p, 'r) outcome"
    and linked :: "'s \<Rightarrow> 'r \<Rightarrow> bool"
  assumes open_seal:
    "linked s r \<Longrightarrow> seal s p = (Ok c, s') \<Longrightarrow> \<exists>r'. opn r c = (Ok p, r') \<and> linked s' r'"
begin

text \<open>A run of sealed payloads is opened in order, and the endpoints stay linked.\<close>

lemma open_all_seal_all:
  assumes "linked s r" and "seal_all seal s ps = (Ok cs, s')"
  shows "\<exists>r'. open_all opn r cs = (Ok ps, r') \<and> linked s' r'"
  using assms
proof (induction ps arbitrary: s r cs)
  case Nil
  then show ?case by simp
next
  case (Cons p ps)
  from Cons.prems(2) obtain c s1 cs' where
    seal: "seal s p = (Ok c, s1)" and all: "seal_all seal s1 ps = (Ok cs', s')" and cs: "cs = c # cs'"
    by (auto simp: bindS_eq_Ok)
  from open_seal [OF Cons.prems(1) seal] obtain r1 where
    r1: "opn r c = (Ok p, r1)" "linked s1 r1" by blast
  from Cons.IH [OF r1(2) all] obtain r' where
    "open_all opn r1 cs' = (Ok ps, r')" "linked s' r'" by blast
  with r1(1) cs show ?case by simp
qed

end

end
