(* ===== verification/Keyed_Store.thy ===== *)
theory Keyed_Store
  imports Channel
begin

text \<open>
  The contract of a store of records with a key: looking a key up returns its entry, adding needs a
  new key, replacing needs a present one.  The locale proves once what a reader sees after an entry
  was added and replaced any number of times.  The table of client handshake states interprets it.
\<close>

locale keyed_store =
  fixes invar :: "'c \<Rightarrow> bool"
    and entries :: "'c \<Rightarrow> 'k \<Rightarrow> 'v option"
    and key_of :: "'v \<Rightarrow> 'k"
    and lookup :: "'c \<Rightarrow> 'k \<Rightarrow> ('e, 'v option, 'c) outcome"
    and add :: "'v \<Rightarrow> 'c \<Rightarrow> ('e, unit, 'c) outcome"
    and replace :: "'v \<Rightarrow> 'c \<Rightarrow> ('f, unit, 'c) outcome"
  assumes lookup_entries: "invar c \<Longrightarrow> lookup c k = (Ok (entries c k), c)"
    and add_new: "invar c \<Longrightarrow> entries c (key_of v) = None \<Longrightarrow>
      \<exists>c'. add v c = (Ok (), c') \<and> invar c' \<and> entries c' = (entries c)(key_of v \<mapsto> v)"
    and add_present: "invar c \<Longrightarrow> entries c (key_of v) \<noteq> None \<Longrightarrow> \<exists>e. add v c = (Err e, c)"
    and replace_entries: "invar c \<Longrightarrow> \<exists>c'. replace v c = (Ok (), c') \<and> invar c' \<and>
      entries c' = (if entries c (key_of v) = None then entries c else (entries c)(key_of v \<mapsto> v))"
begin

lemma replace_all:
  assumes "invar c" "entries c k \<noteq> None" "\<forall>v \<in> set vs. key_of v = k"
  shows "\<exists>us c'. seal_all (\<lambda>c v. replace v c) c vs = (Ok us, c') \<and> invar c' \<and>
    entries c' = (if vs = [] then entries c else (entries c)(k \<mapsto> last vs))"
  using assms
proof (induction vs arbitrary: c)
  case (Cons v vs)
  from replace_entries [OF Cons.prems(1), of v] Cons.prems obtain c1 where
    1: "replace v c = (Ok (), c1)" "invar c1" "entries c1 = (entries c)(k \<mapsto> v)" by auto
  from Cons.IH [OF 1(2)] 1(3) Cons.prems(3) obtain us c' where
    "seal_all (\<lambda>c v. replace v c) c1 vs = (Ok us, c')" "invar c'"
    "entries c' = (if vs = [] then entries c1 else (entries c1)(k \<mapsto> last vs))" by auto
  with 1 show ?case by auto
qed simp

lemma lookup_after_updates:
  assumes "invar c" "entries c (key_of v) = None" "\<forall>u \<in> set vs. key_of u = key_of v"
  shows "\<exists>c1 us c2. add v c = (Ok (), c1) \<and> seal_all (\<lambda>c v. replace v c) c1 vs = (Ok us, c2) \<and>
    lookup c2 (key_of v) = (Ok (Some (last (v # vs))), c2) \<and>
    (\<forall>k. k \<noteq> key_of v \<longrightarrow> lookup c2 k = (Ok (entries c k), c2))"
proof -
  from add_new [OF assms(1,2)] obtain c1 where
    1: "add v c = (Ok (), c1)" "invar c1" "entries c1 = (entries c)(key_of v \<mapsto> v)" by blast
  from replace_all [OF 1(2) _ assms(3)] 1(3) obtain us c2 where
    "seal_all (\<lambda>c v. replace v c) c1 vs = (Ok us, c2)" "invar c2"
    "entries c2 = (if vs = [] then entries c1 else (entries c1)(key_of v \<mapsto> last vs))" by auto
  with 1 show ?thesis by (auto simp: lookup_entries)
qed

end

end
