(* ===== verification/Persistence.thy ===== *)
theory Persistence
  imports Handshake_State Keyed_Store
begin

text \<open>
  \<^verbatim>\<open>src/mls_handshake/persistence.rs\<close>: the table of client handshake states.  The SQL statements are
  operations on the rows of the table; \<^verbatim>\<open>serde_json\<close> is the parameter \<open>J\<close>.  The lemmas show that the
  table is a map from profiles to states (the locale \<open>keyed_store\<close>), with at most one row for each
  profile, and what a deletion removes.
\<close>

record 'm json =
  json_to_vec :: "'m ClientHandshakeState \<Rightarrow> (string, bytes) res"
  json_from_slice :: "bytes \<Rightarrow> (string, 'm ClientHandshakeState) res"

text \<open>What the program relies on: a serialised state is read back.\<close>

definition json_ok :: "'m json \<Rightarrow> bool" where
  "json_ok J \<longleftrightarrow> (\<forall>st b. json_to_vec J st = Ok b \<longrightarrow> json_from_slice J b = Ok st)"

section \<open>Columns\<close>

datatype ClientHandshakeVersion = V1

definition ClientHandshakeVersion_default :: ClientHandshakeVersion where
  "ClientHandshakeVersion_default = V1"

fun ClientHandshakeVersion_to_sql :: "ClientHandshakeVersion \<Rightarrow> sql_value" where
  "ClientHandshakeVersion_to_sql V1 = SqlInteger 0"

text \<open>
  \<^verbatim>\<open>value.as_i64()? as u8\<close>: the integer is cut to eight bits before it is compared.
\<close>

definition ClientHandshakeVersion_column_result :: "sql_value \<Rightarrow> (sql_error, ClientHandshakeVersion) res" where
  "ClientHandshakeVersion_column_result v =
     (case v of
        SqlInteger i \<Rightarrow>
          if (word_of_int i :: u8) = 0 then Ok V1 else Err (FromSqlConversionFailure ''Invalid version'')
      | _ \<Rightarrow> Err InvalidColumnType)"

definition ClientHandshakeState_to_sql :: "'m json \<Rightarrow> 'm ClientHandshakeState \<Rightarrow> (sql_error, sql_value) res" where
  "ClientHandshakeState_to_sql J self =
     res_bind (map_err ToSqlConversionFailure (json_to_vec J self)) (\<lambda>blob. Ok (SqlBlob blob))"

definition ClientHandshakeState_column_result :: "'m json \<Rightarrow> sql_value \<Rightarrow> (sql_error, 'm ClientHandshakeState) res" where
  "ClientHandshakeState_column_result J v =
     (case v of
        SqlBlob blob \<Rightarrow> map_err FromSqlConversionFailure (json_from_slice J blob)
      | _ \<Rightarrow> Err InvalidColumnType)"

section \<open>Statements\<close>

definition ClientHandshakeState_create_table :: "'s Connection \<Rightarrow> (HandshakeError, unit, 's Connection) outcome" where
  "ClientHandshakeState_create_table conn =
     (case next_fault conn of
        (Some e, conn) \<Rightarrow> (Err (PersistenceError e), conn)
      | (None, conn) \<Rightarrow>
          (Ok (), case handshake_states conn of
                    None \<Rightarrow> conn\<lparr>handshake_states := Some []\<rparr>
                  | Some _ \<Rightarrow> conn))"

text \<open>\<^verbatim>\<open>INSERT\<close>: the primary key must be new.\<close>

definition ClientHandshakeState_store ::
    "'m json \<Rightarrow> 'm ClientHandshakeState \<Rightarrow> 's Connection \<Rightarrow> (HandshakeError, unit, 's Connection) outcome" where
  "ClientHandshakeState_store J self conn =
     err_as PersistenceError (with_table conn (\<lambda>rows conn.
       bindS (ClientHandshakeState_to_sql J self, conn) (\<lambda>state_value conn.
       if profile_id self \<in> row_profile_id ` set rows
       then (Err (SqliteFailure ''UNIQUE constraint failed: handshake_states.profile_id''), conn)
       else (Ok (), conn\<lparr>handshake_states := Some (rows @
              [\<lparr>row_profile_id = profile_id self,
                row_version = ClientHandshakeVersion_to_sql ClientHandshakeVersion_default,
                row_state = state_value\<rparr>])\<rparr>))))"

text \<open>
  \<^verbatim>\<open>query_row(..).optional()\<close>: no row, or the row closure's \<^verbatim>\<open>QueryReturnedNoRows\<close>, is \<open>None\<close>.
\<close>

definition load_row :: "'m json \<Rightarrow> handshake_row \<Rightarrow> (sql_error, 'm ClientHandshakeState) res" where
  "load_row J row =
     res_bind (ClientHandshakeState_column_result J (row_state row)) (\<lambda>state.
     res_bind (ClientHandshakeVersion_column_result (row_version row)) (\<lambda>ver.
     if ver \<noteq> ClientHandshakeVersion_default then Err QueryReturnedNoRows else Ok state))"

definition optional :: "(sql_error, 'a) res \<Rightarrow> (sql_error, 'a option) res" where
  "optional r = (case r of Ok x \<Rightarrow> Ok (Some x) | Err QueryReturnedNoRows \<Rightarrow> Ok None | Err e \<Rightarrow> Err e | Panic \<Rightarrow> Panic)"

definition ClientHandshakeState_load ::
    "'m json \<Rightarrow> 's Connection \<Rightarrow> Uuid \<Rightarrow> (HandshakeError, 'm ClientHandshakeState option, 's Connection) outcome" where
  "ClientHandshakeState_load J conn pid =
     err_as PersistenceError (with_table conn (\<lambda>rows conn.
       (optional (case find (\<lambda>row. row_profile_id row = pid) rows of
                    None \<Rightarrow> Err QueryReturnedNoRows
                  | Some row \<Rightarrow> load_row J row), conn)))"

text \<open>\<^verbatim>\<open>UPDATE\<close>: a profile without a row is not an error.\<close>

definition ClientHandshakeState_store_update ::
    "'m json \<Rightarrow> 'm ClientHandshakeState \<Rightarrow> 's Connection \<Rightarrow> (sql_error, unit, 's Connection) outcome" where
  "ClientHandshakeState_store_update J self conn =
     with_table conn (\<lambda>rows conn.
       bindS (ClientHandshakeState_to_sql J self, conn) (\<lambda>state_value conn.
       (Ok (), conn\<lparr>handshake_states := Some (map (\<lambda>row.
          if row_profile_id row = profile_id self then row\<lparr>row_state := state_value\<rparr> else row) rows)\<rparr>)))"

definition delete_rows :: "(handshake_row \<Rightarrow> bool) \<Rightarrow> 's Connection \<Rightarrow> (sql_error, unit, 's Connection) outcome" where
  "delete_rows P conn =
     with_table conn (\<lambda>rows conn. (Ok (), conn\<lparr>handshake_states := Some (filter (\<lambda>row. \<not> P row) rows)\<rparr>))"

definition ClientHandshakeState_delete ::
    "'m json \<Rightarrow> ('s, 'g, 'm, 'o) openmls \<Rightarrow> 's Connection \<Rightarrow> Uuid \<Rightarrow> (HandshakeError, unit, 's Connection) outcome" where
  "ClientHandshakeState_delete J M conn pid =
     bindS (ClientHandshakeState_load J conn pid) (\<lambda>found conn.
     case found of
       None \<Rightarrow> (Ok (), conn)
     | Some state \<Rightarrow>
         bindS (MlsSession_delete M (client_session state) conn) (\<lambda>_ conn.
         err_as PersistenceError (delete_rows (\<lambda>row. row_profile_id row = pid) conn)))"

text \<open>
  \<^verbatim>\<open>delete_old_versions\<close>: read all states of another version, stopping at the first that cannot be
  read, delete their groups one after the other, then the rows.
\<close>

fun collect_states :: "'m json \<Rightarrow> handshake_row list \<Rightarrow> (sql_error, 'm ClientHandshakeState list) res" where
  "collect_states J [] = Ok []"
| "collect_states J (row # rows) =
     res_bind (ClientHandshakeState_column_result J (row_state row)) (\<lambda>state.
     res_bind (collect_states J rows) (\<lambda>states. Ok (state # states)))"

fun delete_sessions ::
    "('s, 'g, 'm, 'o) openmls \<Rightarrow> 'm ClientHandshakeState list \<Rightarrow> 's Connection \<Rightarrow> (HandshakeError, unit, 's Connection) outcome" where
  "delete_sessions M [] conn = (Ok (), conn)"
| "delete_sessions M (state # states) conn =
     bindS (MlsSession_delete M (client_session state) conn) (\<lambda>_ conn. delete_sessions M states conn)"

definition is_old_version :: "handshake_row \<Rightarrow> bool" where
  "is_old_version row \<longleftrightarrow> row_version row \<noteq> ClientHandshakeVersion_to_sql ClientHandshakeVersion_default"

definition ClientHandshakeState_delete_old_versions ::
    "'m json \<Rightarrow> ('s, 'g, 'm, 'o) openmls \<Rightarrow> 's Connection \<Rightarrow> (HandshakeError, unit, 's Connection) outcome" where
  "ClientHandshakeState_delete_old_versions J M conn =
     bindS (err_as PersistenceError (with_table conn (\<lambda>rows conn.
              (collect_states J (filter is_old_version rows), conn)))) (\<lambda>old_states conn.
     bindS (delete_sessions M old_states conn) (\<lambda>_ conn.
     err_as PersistenceError (delete_rows is_old_version conn)))"

section \<open>Statements do not touch the MLS tables\<close>

lemma next_fault_storage: "next_fault conn = (f, conn') \<Longrightarrow> mls_storage conn' = mls_storage conn"
  by (auto simp: next_fault_def split: list.splits)

lemma store_update_storage:
  "ClientHandshakeState_store_update J self conn = (r, conn') \<Longrightarrow> mls_storage conn' = mls_storage conn"
  by (auto simp: ClientHandshakeState_store_update_def with_table_def bindS_def
      split: prod.splits option.splits res.splits dest!: next_fault_storage)

lemma store_update_total:
  assumes "faults conn = []" "handshake_states conn = Some rows" "json_to_vec J self = Ok blob"
  shows "ClientHandshakeState_store_update J self conn =
    (Ok (), conn\<lparr>handshake_states := Some (map (\<lambda>row.
       if row_profile_id row = profile_id self then row\<lparr>row_state := SqlBlob blob\<rparr> else row) rows)\<rparr>)"
  using assms
  by (simp add: ClientHandshakeState_store_update_def with_table_def next_fault_def
      ClientHandshakeState_to_sql_def)

text \<open>A database that works: the table exists and no statement fails; states can be serialised.\<close>

definition db_works :: "'m json \<Rightarrow> 's Connection \<Rightarrow> bool" where
  "db_works J conn \<longleftrightarrow> faults conn = [] \<and> handshake_states conn \<noteq> None \<and> (\<forall>st. is_ok (json_to_vec J st))"

lemma db_worksE:
  assumes "db_works J conn"
  obtains rows blob where "faults conn = []" "handshake_states conn = Some rows" "json_to_vec J self = Ok blob"
  using assms is_ok_iff unfolding db_works_def by (metis option.exhaust)

lemma store_update_works:
  "db_works J conn \<Longrightarrow> \<exists>conn'. ClientHandshakeState_store_update J self conn = (Ok (), conn')"
  by (erule db_worksE [where self = self]) (simp add: store_update_total)

lemma store_update_keeps_db:
  assumes "db_works J conn" "ClientHandshakeState_store_update J self conn = (Ok (), conn')"
  shows "db_works J conn'"
  using assms(1) by (rule db_worksE [where self = self]) (use assms in \<open>auto simp: store_update_total db_works_def\<close>)

lemma same_tables_db_works: "same_tables conn conn' \<Longrightarrow> db_works J conn' = db_works J conn"
  by (simp add: db_works_def same_tables_def)

section \<open>The table as a map\<close>

definition readable_row :: "'m json \<Rightarrow> handshake_row \<Rightarrow> bool" where
  "readable_row J row \<longleftrightarrow>
     row_version row = ClientHandshakeVersion_to_sql ClientHandshakeVersion_default \<and>
     is_ok (ClientHandshakeState_column_result J (row_state row))"

definition table_ok :: "'m json \<Rightarrow> 's Connection \<Rightarrow> bool" where
  "table_ok J conn \<longleftrightarrow> json_ok J \<and> db_works J conn \<and>
     (\<forall>rows. handshake_states conn = Some rows \<longrightarrow>
        distinct (map row_profile_id rows) \<and> list_all (readable_row J) rows)"

fun state_of_row :: "'m json \<Rightarrow> handshake_row option \<Rightarrow> 'm ClientHandshakeState option" where
  "state_of_row J None = None"
| "state_of_row J (Some row) =
     (case ClientHandshakeState_column_result J (row_state row) of Ok st \<Rightarrow> Some st | _ \<Rightarrow> None)"

definition states_of :: "'m json \<Rightarrow> 's Connection \<Rightarrow> Uuid \<Rightarrow> 'm ClientHandshakeState option" where
  "states_of J conn pid =
     state_of_row J (find (\<lambda>row. row_profile_id row = pid) (the (handshake_states conn)))"

lemma readable_row_load:
  "readable_row J row \<Longrightarrow> optional (load_row J row) = Ok (state_of_row J (Some row))"
  by (auto simp: readable_row_def load_row_def optional_def is_ok_iff ClientHandshakeVersion_column_result_def
      ClientHandshakeVersion_default_def)

lemma table_okE:
  assumes "table_ok J conn"
  obtains rows blob where "faults conn = []" "handshake_states conn = Some rows" "json_to_vec J self = Ok blob"
    "json_ok J" "distinct (map row_profile_id rows)" "list_all (readable_row J) rows"
    "states_of J conn = (\<lambda>pid. state_of_row J (find (\<lambda>row. row_profile_id row = pid) rows))"
proof -
  from assms have "db_works J conn" by (simp add: table_ok_def)
  then obtain rows blob where "faults conn = []" "handshake_states conn = Some rows" "json_to_vec J self = Ok blob"
    by (rule db_worksE)
  with assms that show thesis by (auto simp: table_ok_def states_of_def [abs_def])
qed

lemma find_readable: "list_all P rows \<Longrightarrow> find Q rows = Some row \<Longrightarrow> P row"
  by (auto simp: find_Some_iff list_all_iff)

lemma table_load:
  assumes "table_ok J conn"
  shows "ClientHandshakeState_load J conn pid = (Ok (states_of J conn pid), conn)"
proof -
  obtain rows where r: "faults conn = []" "handshake_states conn = Some rows" "list_all (readable_row J) rows"
    "states_of J conn = (\<lambda>pid. state_of_row J (find (\<lambda>row. row_profile_id row = pid) rows))"
    using assms by (rule table_okE)
  show ?thesis
  proof (cases "find (\<lambda>row. row_profile_id row = pid) rows")
    case None
    with r show ?thesis
      by (simp add: ClientHandshakeState_load_def with_table_def next_fault_def optional_def)
  next
    case (Some row)
    with r readable_row_load [OF find_readable [OF r(3) Some]] show ?thesis
      by (simp add: ClientHandshakeState_load_def with_table_def next_fault_def)
  qed
qed

lemma find_append: "find P (xs @ ys) = (case find P xs of None \<Rightarrow> find P ys | Some x \<Rightarrow> Some x)"
  by (induction xs) auto

lemma find_row_None: "find (\<lambda>row. row_profile_id row = pid) rows = None \<longleftrightarrow> pid \<notin> row_profile_id ` set rows"
  by (auto simp: find_None_iff)

lemma find_row_id: "find (\<lambda>row. row_profile_id row = pid) rows = Some row \<Longrightarrow> row_profile_id row = pid"
  by (induction rows) (auto split: if_splits)

lemma readable_row_state: "readable_row J row \<Longrightarrow> state_of_row J (Some row) \<noteq> None"
  by (auto simp: readable_row_def is_ok_iff)

lemma states_of_None:
  assumes "list_all (readable_row J) rows"
  shows "state_of_row J (find (\<lambda>row. row_profile_id row = pid) rows) = None \<longleftrightarrow> pid \<notin> row_profile_id ` set rows"
  using readable_row_state [OF find_readable [OF assms]] find_row_None [of pid rows]
  by (cases "find (\<lambda>row. row_profile_id row = pid) rows") (auto simp del: state_of_row.simps(2))

lemma table_store_new:
  assumes "table_ok J conn" "states_of J conn (profile_id st) = None"
  shows "\<exists>conn'. ClientHandshakeState_store J st conn = (Ok (), conn') \<and> table_ok J conn' \<and>
    states_of J conn' = (states_of J conn)(profile_id st \<mapsto> st)"
proof -
  obtain rows blob where r: "faults conn = []" "handshake_states conn = Some rows" "json_to_vec J st = Ok blob"
    "json_ok J" "distinct (map row_profile_id rows)" "list_all (readable_row J) rows"
    "states_of J conn = (\<lambda>pid. state_of_row J (find (\<lambda>row. row_profile_id row = pid) rows))"
    using assms(1) by (rule table_okE)
  let ?row = "\<lparr>row_profile_id = profile_id st,
     row_version = ClientHandshakeVersion_to_sql ClientHandshakeVersion_default, row_state = SqlBlob blob\<rparr>"
  let ?conn = "conn\<lparr>handshake_states := Some (rows @ [?row])\<rparr>"
  have new: "profile_id st \<notin> row_profile_id ` set rows" using assms(2) r(7) states_of_None [OF r(6)] by simp
  have dec: "ClientHandshakeState_column_result J (SqlBlob blob) = Ok st"
    using r(3,4) by (simp add: ClientHandshakeState_column_result_def json_ok_def)
  have "ClientHandshakeState_store J st conn = (Ok (), ?conn)"
    using r new
    by (simp add: ClientHandshakeState_store_def with_table_def next_fault_def ClientHandshakeState_to_sql_def)
  moreover have "table_ok J ?conn"
    using assms(1) r new dec by (auto simp: table_ok_def db_works_def readable_row_def)
  moreover have "states_of J ?conn = (states_of J conn)(profile_id st \<mapsto> st)"
    using r(7) new dec find_row_None [of "profile_id st" rows]
    by (auto simp: states_of_def fun_eq_iff find_append split: option.splits)
  ultimately show ?thesis by blast
qed

lemma table_store_present:
  assumes "table_ok J conn" "states_of J conn (profile_id st) \<noteq> None"
  shows "\<exists>e. ClientHandshakeState_store J st conn = (Err e, conn)"
proof -
  obtain rows blob where r: "faults conn = []" "handshake_states conn = Some rows" "json_to_vec J st = Ok blob"
    "list_all (readable_row J) rows"
    "states_of J conn = (\<lambda>pid. state_of_row J (find (\<lambda>row. row_profile_id row = pid) rows))"
    using assms(1) by (rule table_okE)
  with assms(2) states_of_None [OF r(4)] show ?thesis
    by (auto simp: ClientHandshakeState_store_def with_table_def next_fault_def ClientHandshakeState_to_sql_def
        err_as_def)
qed

lemma find_map_row:
  assumes "\<And>row. row_profile_id (f row) = row_profile_id row"
  shows "find (\<lambda>row. row_profile_id row = pid) (map f rows) = map_option f (find (\<lambda>row. row_profile_id row = pid) rows)"
  using assms by (induction rows) auto

lemma table_store_update:
  assumes "table_ok J conn"
  shows "\<exists>conn'. ClientHandshakeState_store_update J st conn = (Ok (), conn') \<and> table_ok J conn' \<and>
    states_of J conn' = (if states_of J conn (profile_id st) = None then states_of J conn
                         else (states_of J conn)(profile_id st \<mapsto> st))"
proof -
  obtain rows blob where r: "faults conn = []" "handshake_states conn = Some rows" "json_to_vec J st = Ok blob"
    "json_ok J" "distinct (map row_profile_id rows)" "list_all (readable_row J) rows"
    "states_of J conn = (\<lambda>pid. state_of_row J (find (\<lambda>row. row_profile_id row = pid) rows))"
    using assms(1) by (rule table_okE)
  let ?f = "\<lambda>row. if row_profile_id row = profile_id st then row\<lparr>row_state := SqlBlob blob\<rparr> else row"
  let ?conn = "conn\<lparr>handshake_states := Some (map ?f rows)\<rparr>"
  have dec: "ClientHandshakeState_column_result J (SqlBlob blob) = Ok st"
    using r(3,4) by (simp add: ClientHandshakeState_column_result_def json_ok_def)
  have "ClientHandshakeState_store_update J st conn = (Ok (), ?conn)"
    by (rule store_update_total [OF r(1,2,3)])
  moreover have "map row_profile_id (map ?f rows) = map row_profile_id rows" by simp
  then have "table_ok J ?conn"
    using assms(1) r dec by (auto simp: table_ok_def db_works_def readable_row_def list_all_iff simp del: map_map)
  moreover have "states_of J ?conn = (if states_of J conn (profile_id st) = None then states_of J conn
      else (states_of J conn)(profile_id st \<mapsto> st))"
  proof
    fix pid
    let ?row = "find (\<lambda>row. row_profile_id row = pid) rows"
    have conn': "states_of J ?conn pid = state_of_row J (map_option ?f ?row)"
      by (simp add: states_of_def find_map_row)
    show "states_of J ?conn pid = (if states_of J conn (profile_id st) = None then states_of J conn
      else (states_of J conn)(profile_id st \<mapsto> st)) pid"
    proof (cases "pid = profile_id st")
      case True
      show ?thesis
      proof (cases ?row)
        case None
        with True conn' r(7) show ?thesis by simp
      next
        case (Some row)
        from find_row_id [OF this] Some True conn' r(6,7) dec readable_row_state [OF find_readable [OF r(6) Some]] show ?thesis
          by simp
      qed
    next
      case False
      then have "map_option ?f ?row = ?row" by (cases ?row) (auto dest: find_row_id)
      with False conn' r(7) show ?thesis by simp
    qed
  qed
  ultimately show ?thesis by blast
qed

interpretation handshake_table: keyed_store "table_ok J" "states_of J" profile_id "ClientHandshakeState_load J"
  "ClientHandshakeState_store J" "ClientHandshakeState_store_update J" for J
  by unfold_locales (rule table_load table_store_new table_store_present table_store_update; assumption)+


section \<open>Deletion\<close>

lemma table_ok_storage: "table_ok J (conn\<lparr>mls_storage := s\<rparr>) = table_ok J conn"
  by (simp add: table_ok_def db_works_def)

lemma states_of_storage: "states_of J (conn\<lparr>mls_storage := s\<rparr>) = states_of J conn"
  by (simp add: states_of_def [abs_def])

lemma delete_rows_filter:
  assumes "table_ok J conn"
  shows "\<exists>conn'. delete_rows (\<lambda>row. row_profile_id row = pid) conn = (Ok (), conn') \<and> table_ok J conn' \<and>
    states_of J conn' = (states_of J conn)(pid := None) \<and> mls_storage conn' = mls_storage conn"
proof -
  obtain rows where r: "faults conn = []" "handshake_states conn = Some rows"
    "distinct (map row_profile_id rows)" "list_all (readable_row J) rows"
    "states_of J conn = (\<lambda>pid. state_of_row J (find (\<lambda>row. row_profile_id row = pid) rows))"
    using assms(1) by (rule table_okE)
  let ?rows = "filter (\<lambda>row. row_profile_id row \<noteq> pid) rows"
  have "find (\<lambda>row. row_profile_id row = pid') ?rows =
      (if pid' = pid then None else find (\<lambda>row. row_profile_id row = pid') rows)" for pid'
    by (induction rows) auto
  then have "states_of J (conn\<lparr>handshake_states := Some ?rows\<rparr>) = (states_of J conn)(pid := None)"
    by (auto simp: states_of_def r(2) fun_eq_iff)
  moreover have "table_ok J (conn\<lparr>handshake_states := Some ?rows\<rparr>)"
    using assms r by (auto simp: table_ok_def db_works_def list_all_iff distinct_map_filter)
  ultimately show ?thesis
    using r(1,2) by (simp add: delete_rows_def with_table_def next_fault_def)
qed

lemma MlsSession_delete_frame:
  "MlsSession_delete M self conn = (r, conn') \<Longrightarrow> \<exists>s. conn' = conn\<lparr>mls_storage := s\<rparr>"
  by (auto simp: MlsSession_delete_def bindS_def with_provider_def split: res.splits prod.splits
      intro: exI [of _ "mls_storage conn"])

section \<open>An executable serialisation of states\<close>

text \<open>
  A total, injective serialisation that stands in for \<^verbatim>\<open>serde_json\<close> where a property is applied at a
  concrete state: every byte string is written with a marker before each byte and one at its end.
\<close>

fun mark :: "bytes \<Rightarrow> bytes" where
  "mark [] = [0]"
| "mark (b # bs) = 1 # b # mark bs"

fun unmark :: "bytes \<Rightarrow> bytes \<times> bytes" where
  "unmark (m # b # rest) = (if m = 1 then case unmark rest of (bs, rest) \<Rightarrow> (b # bs, rest) else ([], b # rest))"
| "unmark _ = ([], [])"

lemma unmark_mark [simp]: "unmark (mark bs @ rest) = (bs, rest)"
  by (induction bs) (cases rest, simp_all)

lemma unmark_mark_end [simp]: "unmark (mark bs) = (bs, [])"
  using unmark_mark [of bs "[]"] by simp

definition pending_bytes :: "('m \<Rightarrow> bytes) \<Rightarrow> 'm PendingUpdate \<Rightarrow> bytes" where
  "pending_bytes enc p = mark (enc (pu_mls_message p)) @
     mark (client_secret_bytes (client_secret (pu_traffic_secrets p))) @
     mark (server_secret_bytes (server_secret (pu_traffic_secrets p)))"

definition pending_of_bytes :: "(bytes \<Rightarrow> 'm) \<Rightarrow> bytes \<Rightarrow> 'm PendingUpdate" where
  "pending_of_bytes dec bs =
     (case unmark bs of (m, bs) \<Rightarrow> case unmark bs of (c, bs) \<Rightarrow> case unmark bs of (s, _) \<Rightarrow>
        \<lparr>pu_mls_message = dec m, pu_traffic_secrets = \<lparr>client_secret = ClientSecret c, server_secret = ServerSecret s\<rparr>\<rparr>)"

fun internal_bytes :: "('m \<Rightarrow> bytes) \<Rightarrow> 'm ClientInternalState \<Rightarrow> bytes" where
  "internal_bytes enc ClientRunning = [0]"
| "internal_bytes enc (WaitingForConnectionConfirmation p) = 1 # pending_bytes enc p"
| "internal_bytes enc (WaitingForEpochKeyUpdate p) = 2 # pending_bytes enc p"
| "internal_bytes enc (WaitingForEpochKeyUpdateReturn s) = 3 # mark (server_secret_bytes s)"

definition internal_of_bytes :: "(bytes \<Rightarrow> 'm) \<Rightarrow> bytes \<Rightarrow> 'm ClientInternalState" where
  "internal_of_bytes dec bs =
     (if hd bs = 0 then ClientRunning
      else if hd bs = 1 then WaitingForConnectionConfirmation (pending_of_bytes dec (tl bs))
      else if hd bs = 2 then WaitingForEpochKeyUpdate (pending_of_bytes dec (tl bs))
      else WaitingForEpochKeyUpdateReturn (ServerSecret (fst (unmark (tl bs)))))"

definition text_json :: "('m \<Rightarrow> bytes) \<Rightarrow> (bytes \<Rightarrow> 'm) \<Rightarrow> 'm json" where
  "text_json enc dec =
     \<lparr>json_to_vec = (\<lambda>st. Ok (mark (profile_id st) @ mark (group_id (client_session st)) @
         mark (u64_to_be_bytes (epoch (client_session st))) @ internal_bytes enc (client_internal st))),
      json_from_slice = (\<lambda>bs.
         case unmark bs of (pid, bs) \<Rightarrow> case unmark bs of (gid, bs) \<Rightarrow> case unmark bs of (ep, bs) \<Rightarrow>
         Ok \<lparr>profile_id = pid, client_session = \<lparr>group_id = gid, epoch = of_nat (be_value ep)\<rparr>,
             client_internal = internal_of_bytes dec bs\<rparr>)\<rparr>"

lemma pending_roundtrip [simp]:
  "(\<And>m. dec (enc m) = m) \<Longrightarrow> pending_of_bytes dec (pending_bytes enc p) = p"
  by (cases p; cases "pu_traffic_secrets p"; cases "client_secret (pu_traffic_secrets p)";
      cases "server_secret (pu_traffic_secrets p)")
    (simp add: pending_of_bytes_def pending_bytes_def)

lemma internal_roundtrip [simp]:
  "(\<And>m. dec (enc m) = m) \<Longrightarrow> internal_of_bytes dec (internal_bytes enc st) = st"
  by (cases st) (simp_all add: internal_of_bytes_def, metis ServerSecret.exhaust server_secret_bytes.simps)

lemma text_json_ok:
  "(\<And>m. dec (enc m) = m) \<Longrightarrow> json_ok (text_json enc dec)"
  "is_ok (json_to_vec (text_json enc dec) st)"
  by (auto simp: json_ok_def text_json_def)

lemma text_json_table:
  "(\<And>m. dec (enc m) = m) \<Longrightarrow> table_ok (text_json enc dec) \<lparr>mls_storage = s, handshake_states = Some [], faults = []\<rparr>"
  by (simp add: table_ok_def db_works_def text_json_ok)

section \<open>Properties\<close>

text \<open>
  C21. The table of client states is a map from profiles to states: \<^verbatim>\<open>load\<close> returns the profile's entry,
  \<^verbatim>\<open>store\<close> adds an entry for a profile that has none and otherwise fails without a change,
  \<^verbatim>\<open>store_update\<close> replaces the entry of a profile that has one and otherwise changes nothing; every
  operation keeps the table readable, with at most one row per profile.
\<close>
theorem stored_states_form_a_map:
  assumes "table_ok J conn"
  shows "ClientHandshakeState_load J conn pid = (Ok (states_of J conn pid), conn) \<and>
    (\<exists>r conn'. ClientHandshakeState_store J st conn = (r, conn') \<and> table_ok J conn' \<and>
       (if states_of J conn (profile_id st) = None
        then r = Ok () \<and> states_of J conn' = (states_of J conn)(profile_id st \<mapsto> st)
        else (\<exists>e. r = Err e) \<and> conn' = conn)) \<and>
    (\<exists>conn'. ClientHandshakeState_store_update J st conn = (Ok (), conn') \<and> table_ok J conn' \<and>
       states_of J conn' = (if states_of J conn (profile_id st) = None then states_of J conn
                            else (states_of J conn)(profile_id st \<mapsto> st)))"
proof (intro conjI)
  show "ClientHandshakeState_load J conn pid = (Ok (states_of J conn pid), conn)"
    by (rule handshake_table.lookup_entries [OF assms])
  show "\<exists>r conn'. ClientHandshakeState_store J st conn = (r, conn') \<and> table_ok J conn' \<and>
       (if states_of J conn (profile_id st) = None
        then r = Ok () \<and> states_of J conn' = (states_of J conn)(profile_id st \<mapsto> st)
        else (\<exists>e. r = Err e) \<and> conn' = conn)"
  proof (cases "states_of J conn (profile_id st) = None")
    case True
    with handshake_table.add_new [OF assms True] show ?thesis by auto
  next
    case False
    with handshake_table.add_present [OF assms False] assms show ?thesis by auto
  qed
qed (rule handshake_table.replace_entries [OF assms])

definition sample_state :: "bytes ClientHandshakeState" where
  "sample_state = \<lparr>profile_id = [7], client_session = \<lparr>group_id = [1], epoch = 3\<rparr>,
     client_internal = WaitingForEpochKeyUpdateReturn (ServerSecret [5, 6])\<rparr>"

definition sample_table :: "unit Connection" where
  "sample_table = \<lparr>mls_storage = (), handshake_states = Some [], faults = []\<rparr>"

abbreviation bytes_json :: "bytes json" where
  "bytes_json \<equiv> text_json (\<lambda>m. m) (\<lambda>m. m)"

lemma sample_table_ok: "table_ok bytes_json sample_table" "states_of bytes_json sample_table pid = None"
  by (simp_all add: sample_table_def text_json_table states_of_def)

theorem stored_states_form_a_map_witness:
  "\<exists>conn1 conn2. ClientHandshakeState_store bytes_json sample_state sample_table = (Ok (), conn1) \<and>
     ClientHandshakeState_load bytes_json conn1 [7] = (Ok (Some sample_state), conn1) \<and>
     ClientHandshakeState_store_update bytes_json (sample_state\<lparr>client_internal := ClientRunning\<rparr>) conn1 = (Ok (), conn2) \<and>
     ClientHandshakeState_load bytes_json conn2 [7] = (Ok (Some (sample_state\<lparr>client_internal := ClientRunning\<rparr>)), conn2)"
proof -
  have id: "profile_id sample_state = [7]" by (simp add: sample_state_def)
  from stored_states_form_a_map [OF sample_table_ok(1), of undefined sample_state] obtain conn1 where
    1: "ClientHandshakeState_store bytes_json sample_state sample_table = (Ok (), conn1)" "table_ok bytes_json conn1"
      "states_of bytes_json conn1 = (states_of bytes_json sample_table)([7] \<mapsto> sample_state)"
    by (auto simp: sample_table_ok id)
  note m1 = stored_states_form_a_map [OF 1(2), of "[7]" "sample_state\<lparr>client_internal := ClientRunning\<rparr>"]
  from m1 obtain conn2 where
    2: "ClientHandshakeState_store_update bytes_json (sample_state\<lparr>client_internal := ClientRunning\<rparr>) conn1 = (Ok (), conn2)"
      "table_ok bytes_json conn2"
      "states_of bytes_json conn2 [7] = Some (sample_state\<lparr>client_internal := ClientRunning\<rparr>)"
    by (auto simp: 1(3) id)
  from stored_states_form_a_map [OF 2(2), of "[7]"] 2 m1 1 show ?thesis by auto
qed

text \<open>
  C26. Deleting a client's state: afterwards the profile has no state and all others are as before,
  and the MLS group of the state was deleted first; a failure to delete the group, or to find it,
  leaves the table unchanged.
\<close>
theorem delete_removes_state_and_group:
  assumes "table_ok J conn" "ClientHandshakeState_delete J M conn pid = (r, conn')"
  shows "table_ok J conn' \<and>
    (case states_of J conn pid of
       None \<Rightarrow> r = Ok () \<and> conn' = conn
     | Some st \<Rightarrow>
         (r = Ok () \<longrightarrow> states_of J conn' = (states_of J conn)(pid := None) \<and>
            (\<exists>g. load_group M (group_id (client_session st)) conn = Ok g \<and>
               mls_delete M g (mls_storage conn) = (Ok (), mls_storage conn'))) \<and>
         (r \<noteq> Ok () \<longrightarrow> states_of J conn' = states_of J conn))"
proof (cases "states_of J conn pid")
  case None
  with assms show ?thesis by (simp add: ClientHandshakeState_delete_def table_load)
next
  case (Some st)
  obtain q conn1 where q: "MlsSession_delete M (client_session st) conn = (q, conn1)" by fastforce
  obtain s where conn1: "conn1 = conn\<lparr>mls_storage := s\<rparr>" using MlsSession_delete_frame [OF q] by blast
  with assms(1) have ok: "table_ok J conn1" "states_of J conn1 = states_of J conn"
    by (simp_all add: table_ok_storage states_of_storage)
  obtain conn2 where d: "delete_rows (\<lambda>row. row_profile_id row = pid) conn1 = (Ok (), conn2)" "table_ok J conn2"
    "states_of J conn2 = (states_of J conn1)(pid := None)" "mls_storage conn2 = mls_storage conn1"
    using delete_rows_filter [OF ok(1)] by blast
  show ?thesis
  proof (cases q)
    case (Ok u)
    with q have g: "\<exists>g. load_group M (group_id (client_session st)) conn = Ok g \<and>
      mls_delete M g (mls_storage conn) = (Ok (), mls_storage conn1)"
      by (auto simp: MlsSession_delete_def bindS_eq_Ok with_provider_Ok_iff)
    from assms(2) Some Ok q d have "r = Ok ()" "conn' = conn2"
      by (simp_all add: ClientHandshakeState_delete_def table_load [OF assms(1)] err_as_def)
    with d ok g Some show ?thesis by simp
  next
    case (Err e)
    with assms(2) Some q have "r = Err e" "conn' = conn1"
      by (simp_all add: ClientHandshakeState_delete_def table_load [OF assms(1)])
    with ok Some show ?thesis by simp
  next
    case Panic
    with assms(2) Some q have "r = Panic" "conn' = conn1"
      by (simp_all add: ClientHandshakeState_delete_def table_load [OF assms(1)])
    with ok Some show ?thesis by simp
  qed
qed

end
