(* ===== verification/Client_State.thy ===== *)
theory Client_State
  imports Persistence
begin

text \<open>
  \<^verbatim>\<open>src/mls_handshake/state_machine/client.rs\<close>: the client side of the handshake and of key updates.
  Methods on \<^verbatim>\<open>&mut self\<close> pass the client state together with the connection and return both, also
  on an error: \<^verbatim>\<open>mem::take\<close> replaces the internal state by \<^verbatim>\<open>Running\<close> before the outcome is known.
\<close>

type_synonym ('s, 'm) client = "'m ClientHandshakeState \<times> 's Connection"

section \<open>The first handshake\<close>

definition ClientHandshake_start ::
    "'m tls_codec \<Rightarrow> ('s, 'g, 'm, 'o) openmls \<Rightarrow> 's Connection \<Rightarrow> SignatureKeyPair \<Rightarrow> SignaturePublicKey \<Rightarrow> Uuid
       \<Rightarrow> (HandshakeError, WaitingForServerHello \<times> bytes, 's Connection) outcome" where
  "ClientHandshake_start T M conn keypair verifying_key client_id =
     (let cwk = \<lparr>credential = Basic client_id, signature_key = signer_public keypair\<rparr> in
      bindS (with_provider KeyPackageError
               (mls_key_package_build M CIPHERSUITE capabilities keypair cwk) conn) (\<lambda>kp conn.
      bindS (handshake_bytes T (MlsTlsHandshake_from (ClientHelloPayload \<lparr>key_package = kp\<rparr>)), conn)
        (\<lambda>message_bytes conn.
      (Ok (\<lparr>hello_profile_id = client_id, server_verifying_key = verifying_key\<rparr>, message_bytes), conn))))"

definition receive_server_hello ::
    "'m tls_codec \<Rightarrow> ('s, 'g, 'm, 'o) openmls \<Rightarrow> WaitingForServerHello \<Rightarrow> 's Connection \<Rightarrow> bytes
       \<Rightarrow> (HandshakeError, 'm ClientHandshakeState \<times> TrafficSecrets, 's Connection) outcome" where
  "receive_server_hello T M self conn message_bytes =
     bindS (map_err HandshakeCodecError (tls_deserialize_exact (ServerHello_de T) message_bytes), conn)
       (\<lambda>server_hello conn.
     case mls_extract M (hello_welcome server_hello) of
       BodyWelcome welcome_in \<Rightarrow>
         bindS (with_provider (\<lambda>_. ServerHelloError) (mls_stage_welcome M welcome_in) conn) (\<lambda>staged conn.
         bindS (map_err (\<lambda>_. HandshakeVerificationError LibraryError) (mls_welcome_sender_key M staged), conn)
           (\<lambda>sender_key conn.
         if sender_key \<noteq> server_verifying_key self
         then (Err (HandshakeVerificationError UnexpectedVerifyingKey), conn)
         else
           bindS (with_provider (\<lambda>_. ServerHelloError) (mls_into_group M staged) conn) (\<lambda>client_group conn.
           let session = MlsSession_new (mls_group_id M client_group) (mls_epoch M client_group) in
           bindS (export_traffic_secrets M client_group, conn) (\<lambda>traffic_secrets conn.
           (Ok (\<lparr>profile_id = hello_profile_id self, client_session = session,
                 client_internal = ClientRunning\<rparr>, traffic_secrets), conn)))))
     | _ \<Rightarrow> (Err (HandshakeUnexpectedMessage ''Welcome'' ''Unknown''), conn))"

section \<open>Updates\<close>

definition ClientHandshakeState_epoch :: "'m ClientHandshakeState \<Rightarrow> u64" where
  "ClientHandshakeState_epoch self = epoch (client_session self)"

text \<open>The calls of \<^verbatim>\<open>self.mls_session\<close>'s methods, on the state of the client.\<close>

definition client_mls_update ::
    "('s, 'g, 'm, 'o) openmls \<Rightarrow> SignatureKeyPair \<Rightarrow> ('s, 'm) client \<Rightarrow> (HandshakeError, 'm, ('s, 'm) client) outcome" where
  "client_mls_update M leaf_signer st =
     (case st of (self, conn) \<Rightarrow>
        case MlsSession_update M (client_session self) conn leaf_signer of (r, conn) \<Rightarrow> (r, (self, conn)))"

definition client_merge_update ::
    "('s, 'g, 'm, 'o) openmls \<Rightarrow> ('s, 'm) client \<Rightarrow> (HandshakeError, TrafficSecrets, ('s, 'm) client) outcome" where
  "client_merge_update M st =
     (case st of (self, conn) \<Rightarrow>
        case MlsSession_merge_update M (client_session self) conn of
          (r, (session, conn)) \<Rightarrow> (r, (self\<lparr>client_session := session\<rparr>, conn)))"

definition client_store_update ::
    "'m json \<Rightarrow> ('s, 'm) client \<Rightarrow> (HandshakeError, unit, ('s, 'm) client) outcome" where
  "client_store_update J st =
     (case st of (self, conn) \<Rightarrow>
        case ClientHandshakeState_store_update J self conn of
          (r, conn) \<Rightarrow> (map_err PersistenceError r, (self, conn)))"

definition ClientHandshakeState_resume ::
    "'m tls_codec \<Rightarrow> ('s, 'g, 'm, 'o) openmls \<Rightarrow> SignatureKeyPair \<Rightarrow> ('s, 'm) client
       \<Rightarrow> (HandshakeError, TrafficSecrets \<times> bytes, ('s, 'm) client) outcome" where
  "ClientHandshakeState_resume T M leaf_signer st =
     (case st of (self, conn) \<Rightarrow>
      let taken = client_internal self; st = (self\<lparr>client_internal := ClientRunning\<rparr>, conn);
          fresh = bindS (err_as (\<lambda>e. ResumptionError (BoxedHandshake e)) (client_mls_update M leaf_signer st))
                    (\<lambda>mls_message st.
                  bindS (client_merge_update M st) (\<lambda>traffic_secrets st.
                  (Ok (mls_message, traffic_secrets), st)))
      in bindS (case taken of
                  WaitingForEpochKeyUpdateReturn _ \<Rightarrow> fresh
                | ClientRunning \<Rightarrow> fresh
                | WaitingForEpochKeyUpdate p \<Rightarrow> (Ok (pu_mls_message p, pu_traffic_secrets p), st)
                | WaitingForConnectionConfirmation p \<Rightarrow> (Ok (pu_mls_message p, pu_traffic_secrets p), st))
           (\<lambda>(mls_message, traffic_secrets) st.
         bindS (handshake_bytes T (MlsTlsHandshake_from (ResumptionPayload \<lparr>resumption_commit = mls_message\<rparr>)), st)
           (\<lambda>message_bytes (self, conn).
         (Ok (traffic_secrets, message_bytes),
          (self\<lparr>client_internal := WaitingForConnectionConfirmation
             \<lparr>pu_mls_message = mls_message, pu_traffic_secrets = traffic_secrets\<rparr>\<rparr>, conn)))))"

definition ClientHandshakeState_is_waiting_for_response :: "'m ClientHandshakeState \<Rightarrow> bool" where
  "ClientHandshakeState_is_waiting_for_response self =
     (case client_internal self of
        WaitingForConnectionConfirmation _ \<Rightarrow> True
      | WaitingForEpochKeyUpdate _ \<Rightarrow> True
      | WaitingForEpochKeyUpdateReturn _ \<Rightarrow> True
      | ClientRunning \<Rightarrow> False)"

definition ClientHandshakeState_update ::
    "'m tls_codec \<Rightarrow> 'm json \<Rightarrow> ('s, 'g, 'm, 'o) openmls \<Rightarrow> SignatureKeyPair \<Rightarrow> bool \<Rightarrow> ('s, 'm) client
       \<Rightarrow> (HandshakeError, ClientSecret \<times> bytes, ('s, 'm) client) outcome" where
  "ClientHandshakeState_update T J M leaf_signer requested st =
     (if ClientHandshakeState_is_waiting_for_response (fst st) then (Err WaitingForResponse, st)
      else
        bindS (client_mls_update M leaf_signer st) (\<lambda>mls_message st.
        bindS (client_merge_update M st) (\<lambda>traffic_secrets st.
        let connection_update = ConnectionUpdateMessage
              \<lparr>update_requested = Boolean_from_bool requested, mls_commit = mls_message\<rparr>;
            pending_update = \<lparr>pu_mls_message = mls_message, pu_traffic_secrets = traffic_secrets\<rparr>
        in
        bindS (signaling_bytes T connection_update, st) (\<lambda>message_bytes (self, conn).
        bindS (client_store_update J (self\<lparr>client_internal := WaitingForEpochKeyUpdate pending_update\<rparr>, conn))
          (\<lambda>_ st.
        (Ok (client_secret traffic_secrets, message_bytes), st))))))"

section \<open>Incoming messages\<close>

definition client_process_update ::
    "bool \<Rightarrow> 'm tls_codec \<Rightarrow> ('s, 'g, 'm, 'o) openmls \<Rightarrow> SignatureKeyPair \<Rightarrow> 'm ConnectionUpdate \<Rightarrow> ('s, 'm) client
       \<Rightarrow> (HandshakeError, ClientSecret \<times> bytes, ('s, 'm) client) outcome" where
  "client_process_update oc T M leaf_signer connection_update st =
     (case st of (self, conn) \<Rightarrow>
      bindS (case process_mls_update oc M conn (mls_commit connection_update) False of
               (r, conn) \<Rightarrow> (r, (self, conn)))
        (\<lambda>(traffic_secrets, session, _) (self, conn).
      let self = self\<lparr>client_session := session\<rparr> in
      bindS (HandshakeState_create_epoch_key_update T M (client_session self) conn, (self, conn))
        (\<lambda>response_bytes (self, conn).
      if Boolean_into_bool (update_requested connection_update)
      then
        bindS (client_mls_update M leaf_signer (self, conn)) (\<lambda>own_update st.
        bindS (client_merge_update M st) (\<lambda>traffic_secrets (self, conn).
        let pending_update = \<lparr>pu_mls_message = own_update, pu_traffic_secrets = traffic_secrets\<rparr>;
            self = self\<lparr>client_internal := WaitingForEpochKeyUpdate pending_update\<rparr>
        in
        bindS (signaling_bytes T (ConnectionUpdateMessage
                 \<lparr>update_requested = Boolean_from_bool False, mls_commit = own_update\<rparr>), (self, conn))
          (\<lambda>connection_update_bytes st.
        (Ok (client_secret traffic_secrets, connection_update_bytes), st))))
      else
        (Ok (client_secret traffic_secrets, response_bytes),
         (self\<lparr>client_internal := WaitingForEpochKeyUpdateReturn (server_secret traffic_secrets)\<rparr>, conn)))))"

text \<open>\<^verbatim>\<open>self.process_epoch_key_update(..)?\<close> on the state of the client.\<close>

definition client_check_epoch ::
    "('s, 'g, 'm, 'o) openmls \<Rightarrow> EpochKeyUpdate \<Rightarrow> ('s, 'm) client \<Rightarrow> (HandshakeError, unit, ('s, 'm) client) outcome" where
  "client_check_epoch M u st =
     (HandshakeState_process_epoch_key_update M (client_session (fst st)) (snd st) u, st)"

definition ClientHandshakeState_receive_signaling_message ::
    "bool \<Rightarrow> 'm tls_codec \<Rightarrow> 'm json \<Rightarrow> ('s, 'g, 'm, 'o) openmls \<Rightarrow> SignatureKeyPair \<Rightarrow> bytes \<Rightarrow> ('s, 'm) client
       \<Rightarrow> (HandshakeError, SecretUpdate option \<times> bytes option, ('s, 'm) client) outcome" where
  "ClientHandshakeState_receive_signaling_message oc T J M leaf_signer message_bytes st =
     bindS (signaling_of_bytes T message_bytes, st) (\<lambda>signaling_message (self, conn).
     let incoming_message_type = SignalingMessage_message_type signaling_message;
         taken = client_internal self;
         taken_st = (self\<lparr>client_internal := ClientRunning\<rparr>, conn);
         store_and_return = (\<lambda>m. bindS m (\<lambda>result st. bindS (client_store_update J st) (\<lambda>_ st. (Ok result, st))))
     in
     case signaling_message of
       ConnectionUpdateMessage connection_update \<Rightarrow>
         if taken \<noteq> ClientRunning then (Ok (None, None), (self, conn))
         else store_and_return
           (bindS (client_process_update oc T M leaf_signer connection_update (self, conn))
              (\<lambda>(secret, bs) st. (Ok (Some (ClientSecretUpdate secret), Some bs), st)))
     | ConnectionConfirmationMessage epoch_key_update \<Rightarrow>
         (case taken of
            WaitingForConnectionConfirmation _ \<Rightarrow>
              store_and_return
                (bindS (client_check_epoch M epoch_key_update taken_st) (\<lambda>_ (self, conn).
                 (Ok (None, None), (self\<lparr>client_internal := ClientRunning\<rparr>, conn))))
          | _ \<Rightarrow> (Err (HandshakeUnexpectedMessage ''ConnectionConfirmation'' incoming_message_type), taken_st))
     | EpochKeyUpdateMessage epoch_key_update \<Rightarrow>
         (case taken of
            WaitingForEpochKeyUpdateReturn secret \<Rightarrow>
              store_and_return
                (bindS (client_check_epoch M epoch_key_update taken_st) (\<lambda>_ st.
                 (Ok (Some (ServerSecretUpdate secret), None), st)))
          | WaitingForEpochKeyUpdate pending_update \<Rightarrow>
              store_and_return
                (bindS (client_check_epoch M epoch_key_update taken_st) (\<lambda>_ st.
                 (Ok (Some (ServerSecretUpdate (server_secret (pu_traffic_secrets pending_update))), None), st)))
          | _ \<Rightarrow> (Err (HandshakeUnexpectedMessage ''EpochKeyUpdateReturn'' incoming_message_type), taken_st))
     | KeyUpdateMessage _ \<Rightarrow> (Panic, (self, conn)))"

section \<open>The abstract meaning of the handlers\<close>

lemma client_store_update_Ok:
  "client_store_update J (self, conn) = (Ok (), st) \<Longrightarrow>
   \<exists>conn'. st = (self, conn') \<and> mls_storage conn' = mls_storage conn"
  by (auto simp: client_store_update_def split: prod.splits dest: store_update_storage)

lemma client_update_effect:
  assumes "tls_laws T" "mls_laws M V" "member_at M V conn (group_id (client_session st)) me e None"
    and "ClientHandshakeState_update T J M k False (st, conn) = (Ok (secret, bs), (st', conn'))"
  shows "client_internal st = ClientRunning \<and> (\<exists>e' ts m. exported V e' = Ok ts \<and> secret = client_secret ts \<and>
    view_commit V m = Some (group_id (client_session st), me, e, e') \<and> reads_update T bs m \<and>
    member_at M V conn' (group_id (client_session st)) me e' None \<and>
    st' = st\<lparr>client_session := (client_session st)\<lparr>epoch := view_epoch V e'\<rparr>,
             client_internal := WaitingForEpochKeyUpdate \<lparr>pu_mls_message = m, pu_traffic_secrets = ts\<rparr>\<rparr>)"
proof -
  from assms(4) have run: "client_internal st = ClientRunning"
    by (auto simp: ClientHandshakeState_update_def ClientHandshakeState_is_waiting_for_response_def
        split: ClientInternalState.splits)
  from assms(4) obtain m conn1 ts session conn2 where
    1: "MlsSession_update M (client_session st) conn k = (Ok m, conn1)" and
    2: "MlsSession_merge_update M (client_session st) conn1 = (Ok ts, (session, conn2))" and
    3: "signaling_bytes T (ConnectionUpdateMessage \<lparr>update_requested = BFalse, mls_commit = m\<rparr>) = Ok bs" and
    4: "client_store_update J (st\<lparr>client_session := session, client_internal := WaitingForEpochKeyUpdate
          \<lparr>pu_mls_message = m, pu_traffic_secrets = ts\<rparr>\<rparr>, conn2) = (Ok (), (st', conn'))" and
    5: "secret = client_secret ts"
    by (auto simp: ClientHandshakeState_update_def client_mls_update_def client_merge_update_def bindS_eq_Ok
        Boolean_from_bool_def split: if_splits prod.splits)
  from MlsSession_update_meaning [OF assms(2,3) 1] obtain e' where
    c: "view_commit V m = Some (group_id (client_session st), me, e, e')"
       "member_at M V conn1 (group_id (client_session st)) me e (Some e')" by blast
  note g = MlsSession_merge_update_meaning [OF assms(2) c(2) 2]
  from client_store_update_Ok [OF 4] have "mls_storage conn' = mls_storage conn2"
    and "st' = st\<lparr>client_session := session, client_internal := WaitingForEpochKeyUpdate
          \<lparr>pu_mls_message = m, pu_traffic_secrets = ts\<rparr>\<rparr>" by auto
  moreover from this have "member_at M V conn' (group_id (client_session st)) me e' None"
    using g by (blast intro: member_at_storage)
  ultimately show ?thesis
    using run c(1) g 5 signaling_roundtrip [OF assms(1) 3]
    by (intro conjI exI [of _ e'] exI [of _ ts] exI [of _ m]) (simp_all add: reads_update_def)
qed

text \<open>While the client waits, an update of the server is ignored.\<close>

lemma client_ignores_update:
  assumes "reads_update T bs m" "client_internal st \<noteq> ClientRunning"
  shows "ClientHandshakeState_receive_signaling_message oc T J M k bs (st, conn) = (Ok (None, None), (st, conn))"
  using assms by (simp add: ClientHandshakeState_receive_signaling_message_def reads_update_def Let_def)

lemma client_process_update_effect:
  assumes "tls_laws T" "mls_laws M V" "member_at M V conn gid me e None"
    and "view_commit V m = Some (gid, by, e, e')" "by \<noteq> me"
    and "client_process_update oc T M k \<lparr>update_requested = BFalse, mls_commit = m\<rparr> (st, conn)
           = (Ok (secret, rb), (st', conn'))"
  shows "\<exists>ts. exported V e' = Ok ts \<and> secret = client_secret ts \<and> reads_key T rb (view_epoch V e') \<and>
    member_at M V conn' gid me e' None \<and>
    st' = st\<lparr>client_session := \<lparr>group_id = gid, epoch = view_epoch V e'\<rparr>,
             client_internal := WaitingForEpochKeyUpdateReturn (server_secret ts)\<rparr>"
proof -
  from assms(6) obtain ts session ident conn1 where
    1: "process_mls_update oc M conn m False = (Ok (ts, session, ident), conn1)" and
    2: "HandshakeState_create_epoch_key_update T M session conn1 = Ok rb" and
    3: "secret = client_secret ts" "conn' = conn1"
       "st' = st\<lparr>client_session := session, client_internal := WaitingForEpochKeyUpdateReturn (server_secret ts)\<rparr>"
    by (auto simp: client_process_update_def bindS_eq_Ok Let_def split: prod.splits)
  note g = process_mls_update_meaning [OF assms(2,3,4,5) _ 1]
  have "reads_key T rb (view_epoch V e')"
    by (rule create_epoch_key_update_reads [OF assms(1,2) _ 2]) (use g in auto)
  with g 3 show ?thesis by auto
qed

lemma client_receive_update_effect:
  assumes "tls_laws T" "mls_laws M V" "member_at M V conn gid me e None"
    and "view_commit V m = Some (gid, by, e, e')" "by \<noteq> me" "reads_update T bs m" "client_internal st = ClientRunning"
    and "ClientHandshakeState_receive_signaling_message oc T J M k bs (st, conn) = (Ok (u, resp), (st', conn'))"
  shows "\<exists>ts rb. exported V e' = Ok ts \<and> u = Some (ClientSecretUpdate (client_secret ts)) \<and> resp = Some rb \<and>
    reads_key T rb (view_epoch V e') \<and> member_at M V conn' gid me e' None \<and>
    st' = st\<lparr>client_session := \<lparr>group_id = gid, epoch = view_epoch V e'\<rparr>,
             client_internal := WaitingForEpochKeyUpdateReturn (server_secret ts)\<rparr>"
proof -
  from assms(6-8) obtain secret rb st1 conn1 where
    1: "client_process_update oc T M k \<lparr>update_requested = BFalse, mls_commit = m\<rparr> (st, conn)
           = (Ok (secret, rb), (st1, conn1))" and
    2: "client_store_update J (st1, conn1) = (Ok (), (st', conn'))" and
    3: "u = Some (ClientSecretUpdate secret)" "resp = Some rb"
    by (auto simp: ClientHandshakeState_receive_signaling_message_def reads_update_def bindS_eq_Ok Let_def)
  from client_store_update_Ok [OF 2] have "st' = st1" "mls_storage conn' = mls_storage conn1" by auto
  with client_process_update_effect [OF assms(1-5) 1] 3 show ?thesis
    by (blast intro: member_at_storage)
qed

text \<open>The server secret a waiting client adopts when the server confirms.\<close>

definition awaited_secret :: "'m ClientHandshakeState \<Rightarrow> ServerSecret option" where
  "awaited_secret st =
     (case client_internal st of
        WaitingForEpochKeyUpdate pu \<Rightarrow> Some (server_secret (pu_traffic_secrets pu))
      | WaitingForEpochKeyUpdateReturn secret \<Rightarrow> Some secret
      | _ \<Rightarrow> None)"

text \<open>The update of its own a waiting client has sent, or sends again when it resumes.\<close>

definition own_pending_update :: "'m ClientHandshakeState \<Rightarrow> 'm PendingUpdate option" where
  "own_pending_update st =
     (case client_internal st of
        WaitingForConnectionConfirmation p \<Rightarrow> Some p
      | WaitingForEpochKeyUpdate p \<Rightarrow> Some p
      | _ \<Rightarrow> None)"

lemma awaited_secret_waits: "awaited_secret st = Some secret \<Longrightarrow> client_internal st \<noteq> ClientRunning"
  by (auto simp: awaited_secret_def)

lemma client_receive_key_eq:
  assumes "mls_laws M V" "member_at M V conn (group_id (client_session st)) me e pend"
    and "reads_key T bs ep" "awaited_secret st = Some secret"
  shows "ClientHandshakeState_receive_signaling_message oc T J M k bs (st, conn) =
    (if view_epoch V e = ep
     then bindS (client_store_update J (st\<lparr>client_internal := ClientRunning\<rparr>, conn))
            (\<lambda>_ st. (Ok (Some (ServerSecretUpdate secret), None), st))
     else (Err (ValidationError ''Epoch mismatch''), (st\<lparr>client_internal := ClientRunning\<rparr>, conn)))"
proof -
  have "HandshakeState_process_epoch_key_update M (client_session st) conn \<lparr>eku_epoch = ep\<rparr> =
    (if view_epoch V e = ep then Ok () else Err (ValidationError ''Epoch mismatch''))"
    using epoch_key_update_meaning(2) [OF assms(1,2)] by (simp add: HandshakeState_process_epoch_key_update_def)
  then show ?thesis
    using assms(3,4)
    by (auto simp: ClientHandshakeState_receive_signaling_message_def reads_key_def awaited_secret_def Let_def
        client_check_epoch_def split: ClientInternalState.splits)
qed

lemma client_receive_key_effect:
  assumes "mls_laws M V" "member_at M V conn (group_id (client_session st)) me e pend"
    and "reads_key T bs (view_epoch V e)" "awaited_secret st = Some secret"
    and "ClientHandshakeState_receive_signaling_message oc T J M k bs (st, conn) = (Ok (u, resp), (st', conn'))"
  shows "u = Some (ServerSecretUpdate secret) \<and> resp = None \<and> st' = st\<lparr>client_internal := ClientRunning\<rparr> \<and>
    member_at M V conn' (group_id (client_session st)) me e pend"
proof -
  from assms(5) client_receive_key_eq [OF assms(1-4)] have
    1: "client_store_update J (st\<lparr>client_internal := ClientRunning\<rparr>, conn) = (Ok (), (st', conn'))"
    and 2: "u = Some (ServerSecretUpdate secret)" "resp = None"
    by (auto simp: bindS_eq_Ok)
  from client_store_update_Ok [OF 1] 2 show ?thesis
    using member_at_storage [OF assms(2), of conn'] by auto
qed

section \<open>The handlers succeed\<close>

lemma client_store_update_total:
  assumes "db_works J conn"
  shows "\<exists>conn'. client_store_update J (self, conn) = (Ok (), (self, conn')) \<and> db_works J conn'"
proof -
  obtain conn' where "ClientHandshakeState_store_update J self conn = (Ok (), conn')"
    using store_update_works [OF assms] by blast
  with store_update_keeps_db [OF assms this] show ?thesis by (simp add: client_store_update_def)
qed

lemma client_receive_key_total:
  assumes "mls_laws M V" "member_at M V conn (group_id (client_session st)) me e pend"
    and "reads_key T bs (view_epoch V e)" "awaited_secret st = Some secret" "db_works J conn"
  shows "\<exists>u resp st' conn'. ClientHandshakeState_receive_signaling_message oc T J M k bs (st, conn) =
    (Ok (u, resp), (st', conn')) \<and> db_works J conn'"
proof -
  obtain conn' where "client_store_update J (st\<lparr>client_internal := ClientRunning\<rparr>, conn) =
      (Ok (), (st\<lparr>client_internal := ClientRunning\<rparr>, conn'))" "db_works J conn'"
    using client_store_update_total [OF assms(5)] by blast
  then show ?thesis by (simp add: client_receive_key_eq [OF assms(1-4)])
qed

lemma client_receive_update_total:
  assumes "signaling_total T" "mls_laws M V" "mls_total M V" "member_at M V conn gid me e None"
    and "view_commit V m = Some (gid, by, e, e')" "by \<noteq> me" "reads_update T bs m"
    and "client_internal st = ClientRunning" "db_works J conn" "epoch_in_range oc (view_epoch V e)"
  shows "\<exists>u resp st' conn'. ClientHandshakeState_receive_signaling_message oc T J M k bs (st, conn) =
    (Ok (u, resp), (st', conn')) \<and> db_works J conn'"
proof -
  obtain ts session ident conn1 where
    1: "process_mls_update oc M conn m False = (Ok (ts, session, ident), conn1)"
    using process_mls_update_total [OF assms(2-6), of False oc] assms(10) by auto
  note g = process_mls_update_meaning [OF assms(2,4,5,6) _ 1]
  from g have "member_at M V conn1 (group_id session) me e' None" by simp
  from create_epoch_key_update_total [OF assms(1,2) this] obtain rb where
    2: "HandshakeState_create_epoch_key_update T M session conn1 = Ok rb" by blast
  let ?st = "st\<lparr>client_session := session, client_internal := WaitingForEpochKeyUpdateReturn (server_secret ts)\<rparr>"
  have "client_process_update oc T M k \<lparr>update_requested = BFalse, mls_commit = m\<rparr> (st, conn) =
      (Ok (client_secret ts, rb), (?st, conn1))"
    using 1 2 by (simp add: client_process_update_def Let_def)
  moreover from g assms(9) have "db_works J conn1" using same_tables_db_works [of conn conn1 J] by simp
  then obtain conn2 where "client_store_update J (?st, conn1) = (Ok (), (?st, conn2))" "db_works J conn2"
    using client_store_update_total by blast
  ultimately show ?thesis
    using assms(7,8)
    by (simp add: ClientHandshakeState_receive_signaling_message_def reads_update_def Let_def)
qed

lemma client_update_keeps_db:
  assumes "mls_laws M V" "member_at M V conn (group_id (client_session st)) me e None" "db_works J conn"
    and "ClientHandshakeState_update T J M k False (st, conn) = (Ok (secret, bs), (st', conn'))"
  shows "db_works J conn'"
proof -
  from assms(4) obtain m conn1 ts session conn2 st2 where
    1: "MlsSession_update M (client_session st) conn k = (Ok m, conn1)" and
    2: "MlsSession_merge_update M (client_session st) conn1 = (Ok ts, (session, conn2))" and
    3: "client_store_update J (st2, conn2) = (Ok (), (st', conn'))"
    by (auto simp: ClientHandshakeState_update_def client_mls_update_def client_merge_update_def bindS_eq_Ok
        split: if_splits prod.splits)
  from MlsSession_update_meaning [OF assms(1,2) 1] obtain e' where
    c: "member_at M V conn1 (group_id (client_session st)) me e (Some e')" "same_tables conn conn1" by blast
  have "same_tables conn1 conn2" using MlsSession_merge_update_meaning [OF assms(1) c(1) 2] by simp
  with c(2) have "same_tables conn conn2" by (rule same_tables_trans)
  with assms(3) have "db_works J conn2" using same_tables_db_works [of conn conn2 J] by simp
  with client_store_update_total [OF this, of st2] 3 show ?thesis by auto
qed

end
