(* ===== verification/Server_State.thy ===== *)
theory Server_State
  imports Handshake_State
begin

text \<open>
  \<^verbatim>\<open>src/mls_handshake/state_machine/server.rs\<close>: the server side of the handshake and of key updates.
  Methods on \<^verbatim>\<open>&mut self\<close> pass the server state together with the connection and return both, also
  on an error.
\<close>

type_synonym 's server = "ServerHandshakeState \<times> 's Connection"

type_synonym started = "ServerHandshakeState \<times> TrafficSecrets \<times> ClientIdentity \<times> bytes"

section \<open>The first handshake\<close>

definition process_client_hello ::
    "'m tls_codec \<Rightarrow> ('s, 'g, 'm, 'o) openmls \<Rightarrow> 's Connection \<Rightarrow> SignatureKeyPair \<Rightarrow> 'm ClientHello
       \<Rightarrow> (HandshakeError, started, 's Connection) outcome" where
  "process_client_hello T M conn leaf_signer client_hello =
     (case mls_extract M (key_package client_hello) of
        BodyKeyPackage key_package_in \<Rightarrow>
          bindS (create_server_session M conn leaf_signer key_package_in)
            (\<lambda>(session, traffic_secrets, client_identity, welcome_message) conn.
          bindS (map_err HandshakeCodecError (ServerHello_ser T \<lparr>hello_welcome = welcome_message\<rparr>), conn)
            (\<lambda>message_bytes conn.
          (Ok (\<lparr>server_session = session, server_internal = ServerRunning\<rparr>, traffic_secrets,
               client_identity, message_bytes), conn)))
      | _ \<Rightarrow> (Err (HandshakeUnexpectedMessage ''KeyPackage'' ''Unknown''), conn))"

definition create_connection_confirmation ::
    "'m tls_codec \<Rightarrow> ('s, 'g, 'm, 'o) openmls \<Rightarrow> ServerHandshakeState \<Rightarrow> 's Connection \<Rightarrow> (HandshakeError, bytes) res" where
  "create_connection_confirmation T M self conn =
     res_bind (MlsSession_create_epoch_key_update M (server_session self) conn) (\<lambda>epoch_key_update.
     signaling_bytes T (ConnectionConfirmationMessage epoch_key_update))"

definition process_resumption ::
    "bool \<Rightarrow> 'm tls_codec \<Rightarrow> ('s, 'g, 'm, 'o) openmls \<Rightarrow> 's Connection \<Rightarrow> 'm Resumption
       \<Rightarrow> (HandshakeError, started, 's Connection) outcome" where
  "process_resumption oc T M conn resumption =
     bindS (process_mls_update oc M conn (resumption_commit resumption) True)
       (\<lambda>(traffic_secrets, session, client_identity) conn.
     let state = \<lparr>server_session = session, server_internal = ServerRunning\<rparr> in
     bindS (create_connection_confirmation T M state conn, conn) (\<lambda>connection_confirmation conn.
     (Ok (state, traffic_secrets, client_identity, connection_confirmation), conn)))"

definition ServerHandshake_start ::
    "bool \<Rightarrow> 'm tls_codec \<Rightarrow> ('s, 'g, 'm, 'o) openmls \<Rightarrow> 's Connection \<Rightarrow> SignatureKeyPair \<Rightarrow> bytes
       \<Rightarrow> (HandshakeError, started, 's Connection) outcome" where
  "ServerHandshake_start oc T M conn leaf_signer message_bytes =
     bindS (map_err HandshakeCodecError (tls_deserialize_exact (MlsTlsHandshake_de T) message_bytes), conn)
       (\<lambda>message conn.
     bindS (check_version message, conn) (\<lambda>_ conn.
     case payload message of
       ClientHelloPayload client_hello \<Rightarrow> process_client_hello T M conn leaf_signer client_hello
     | ResumptionPayload resumption \<Rightarrow> process_resumption oc T M conn resumption))"

section \<open>Updates\<close>

definition ServerHandshakeState_epoch :: "ServerHandshakeState \<Rightarrow> u64" where
  "ServerHandshakeState_epoch self = epoch (server_session self)"

definition ServerHandshakeState_is_waiting_for_response :: "ServerHandshakeState \<Rightarrow> bool" where
  "ServerHandshakeState_is_waiting_for_response self \<longleftrightarrow> server_internal self = WaitingForUpdate"

text \<open>The calls of \<^verbatim>\<open>self.mls_session\<close>'s methods, on the state of the server.\<close>

definition server_mls_update ::
    "('s, 'g, 'm, 'o) openmls \<Rightarrow> SignatureKeyPair \<Rightarrow> 's server \<Rightarrow> (HandshakeError, 'm, 's server) outcome" where
  "server_mls_update M leaf_signer st =
     (case st of (self, conn) \<Rightarrow>
        case MlsSession_update M (server_session self) conn leaf_signer of (r, conn) \<Rightarrow> (r, (self, conn)))"

definition server_merge_update ::
    "('s, 'g, 'm, 'o) openmls \<Rightarrow> 's server \<Rightarrow> (HandshakeError, TrafficSecrets, 's server) outcome" where
  "server_merge_update M st =
     (case st of (self, conn) \<Rightarrow>
        case MlsSession_merge_update M (server_session self) conn of
          (r, (session, conn)) \<Rightarrow> (r, (self\<lparr>server_session := session\<rparr>, conn)))"

definition ServerHandshakeState_update ::
    "'m tls_codec \<Rightarrow> ('s, 'g, 'm, 'o) openmls \<Rightarrow> SignatureKeyPair \<Rightarrow> bool \<Rightarrow> 's server
       \<Rightarrow> (HandshakeError, bytes, 's server) outcome" where
  "ServerHandshakeState_update T M leaf_signer requested st =
     (if ServerHandshakeState_is_waiting_for_response (fst st) then (Err WaitingForResponse, st)
      else
        bindS (server_mls_update M leaf_signer st) (\<lambda>mls_message st.
        bindS (signaling_bytes T (ConnectionUpdateMessage
                 \<lparr>update_requested = Boolean_from_bool requested, mls_commit = mls_message\<rparr>), st)
          (\<lambda>message_bytes (self, conn).
        (Ok message_bytes, (self\<lparr>server_internal := WaitingForUpdate\<rparr>, conn)))))"

section \<open>Incoming messages\<close>

definition server_process_update ::
    "bool \<Rightarrow> 'm tls_codec \<Rightarrow> ('s, 'g, 'm, 'o) openmls \<Rightarrow> SignatureKeyPair \<Rightarrow> 'm ConnectionUpdate \<Rightarrow> 's server
       \<Rightarrow> (HandshakeError, TrafficSecrets \<times> bytes, 's server) outcome" where
  "server_process_update oc T M leaf_signer connection_update st =
     (case st of (self, conn) \<Rightarrow>
      bindS (case process_mls_update oc M conn (mls_commit connection_update) True of
               (r, conn) \<Rightarrow> (r, (self, conn)))
        (\<lambda>(traffic_secrets, session, _) (self, conn).
      let self = self\<lparr>server_internal := ServerRunning, server_session := session\<rparr> in
      bindS (HandshakeState_create_epoch_key_update T M (server_session self) conn, (self, conn))
        (\<lambda>response_bytes st.
      if Boolean_into_bool (update_requested connection_update)
      then
        bindS (server_mls_update M leaf_signer st) (\<lambda>own_commit (self, conn).
        let self = self\<lparr>server_internal := WaitingForUpdate\<rparr> in
        bindS (signaling_bytes T (ConnectionUpdateMessage
                 \<lparr>update_requested = Boolean_from_bool False, mls_commit = own_commit\<rparr>), (self, conn))
          (\<lambda>connection_update_bytes st.
        (Ok (traffic_secrets, connection_update_bytes), st)))
      else (Ok (traffic_secrets, response_bytes), st))))"

definition ServerHandshakeState_receive_signaling_message ::
    "bool \<Rightarrow> 'm tls_codec \<Rightarrow> ('s, 'g, 'm, 'o) openmls \<Rightarrow> SignatureKeyPair \<Rightarrow> bytes \<Rightarrow> 's server
       \<Rightarrow> (HandshakeError, TrafficSecrets \<times> bytes option, 's server) outcome" where
  "ServerHandshakeState_receive_signaling_message oc T M leaf_signer message_bytes st =
     bindS (signaling_of_bytes T message_bytes, st) (\<lambda>signaling_message st.
     let incoming_message_type = SignalingMessage_message_type signaling_message in
     case signaling_message of
       ConnectionUpdateMessage connection_update \<Rightarrow>
         bindS (server_process_update oc T M leaf_signer connection_update st)
           (\<lambda>(traffic_secrets, bs) st. (Ok (traffic_secrets, Some bs), st))
     | ConnectionConfirmationMessage _ \<Rightarrow>
         (Err (HandshakeUnexpectedMessage ''None'' ''ConnectionConfirmation''), st)
     | EpochKeyUpdateMessage epoch_key_update \<Rightarrow>
         if server_internal (fst st) \<noteq> WaitingForUpdate
         then (Err (HandshakeUnexpectedMessage ''None'' incoming_message_type), st)
         else
           bindS (server_merge_update M st) (\<lambda>traffic_secrets (self, conn).
           bindS (HandshakeState_process_epoch_key_update M (server_session self) conn epoch_key_update, (self, conn))
             (\<lambda>_ (self, conn).
           bindS (HandshakeState_create_epoch_key_update T M (server_session self) conn, (self, conn))
             (\<lambda>message_bytes (self, conn).
           (Ok (traffic_secrets, Some message_bytes), (self\<lparr>server_internal := ServerRunning\<rparr>, conn)))))
     | KeyUpdateMessage _ \<Rightarrow> (Panic, st))"

section \<open>The abstract meaning of the handlers\<close>

lemma server_update_effect:
  assumes "tls_laws T" "mls_laws M V" "member_at M V conn (group_id (server_session st)) me e None"
    and "ServerHandshakeState_update T M k False (st, conn) = (Ok bs, (st', conn'))"
  shows "server_internal st = ServerRunning \<and> (\<exists>e' m.
    view_commit V m = Some (group_id (server_session st), me, e, e') \<and> reads_update T bs m \<and>
    member_at M V conn' (group_id (server_session st)) me e (Some e') \<and>
    st' = st\<lparr>server_internal := WaitingForUpdate\<rparr>)"
proof -
  from assms(4) have run: "server_internal st = ServerRunning"
    by (cases "server_internal st")
      (auto simp: ServerHandshakeState_update_def ServerHandshakeState_is_waiting_for_response_def)
  from assms(4) obtain m where
    1: "MlsSession_update M (server_session st) conn k = (Ok m, conn')" and
    2: "signaling_bytes T (ConnectionUpdateMessage \<lparr>update_requested = BFalse, mls_commit = m\<rparr>) = Ok bs" and
    3: "st' = st\<lparr>server_internal := WaitingForUpdate\<rparr>"
    by (auto simp: ServerHandshakeState_update_def server_mls_update_def bindS_eq_Ok Boolean_from_bool_def
        split: if_splits prod.splits)
  from MlsSession_update_meaning [OF assms(2,3) 1] signaling_roundtrip [OF assms(1) 2] run 3
  show ?thesis by (auto simp: reads_update_def)
qed

text \<open>
  An update of the client is applied in every state of the server; a pending commit of the server
  is dropped, or merged first if the client's commit builds on it.
\<close>

lemma server_receive_update_effect:
  assumes "tls_laws T" "mls_laws M V" "member_at M V conn gid me e0 pend"
    and "view_commit V m = Some (gid, by, e, e')" "by \<noteq> me"
    and "e = e0 \<or> pend = Some e \<and> view_epoch V e = view_epoch V e0 + 1" "reads_update T bs m"
    and "ServerHandshakeState_receive_signaling_message oc T M k bs (st, conn) = (Ok (ts, resp), (st', conn'))"
  shows "\<exists>rb. exported V e' = Ok ts \<and> resp = Some rb \<and> reads_key T rb (view_epoch V e') \<and>
    member_at M V conn' gid me e' None \<and>
    st' = st\<lparr>server_session := \<lparr>group_id = gid, epoch = view_epoch V e'\<rparr>, server_internal := ServerRunning\<rparr>"
proof -
  from assms(7,8) obtain session ident rb where
    1: "process_mls_update oc M conn m True = (Ok (ts, session, ident), conn')" and
    2: "HandshakeState_create_epoch_key_update T M session conn' = Ok rb" and
    3: "resp = Some rb" "st' = st\<lparr>server_session := session, server_internal := ServerRunning\<rparr>"
    by (auto simp: ServerHandshakeState_receive_signaling_message_def server_process_update_def
        reads_update_def bindS_eq_Ok Let_def split: prod.splits)
  note g = process_mls_update_meaning [OF assms(2,3,4,5) _ 1]
  have "reads_key T rb (view_epoch V e')"
    by (rule create_epoch_key_update_reads [OF assms(1,2) _ 2]) (use g assms(6) in auto)
  with g 3 assms(6) show ?thesis by auto
qed

lemma server_receive_key_effect:
  assumes "tls_laws T" "mls_laws M V" "member_at M V conn (group_id (server_session st)) me e (Some e')"
    and "reads_key T bs (view_epoch V e')"
    and "ServerHandshakeState_receive_signaling_message oc T M k bs (st, conn) = (Ok (ts, resp), (st', conn'))"
  shows "\<exists>rb. exported V e' = Ok ts \<and> resp = Some rb \<and> reads_key T rb (view_epoch V e') \<and>
    member_at M V conn' (group_id (server_session st)) me e' None \<and>
    st' = st\<lparr>server_session := (server_session st)\<lparr>epoch := view_epoch V e'\<rparr>, server_internal := ServerRunning\<rparr>"
proof -
  from assms(4,5) obtain session rb where
    1: "MlsSession_merge_update M (server_session st) conn = (Ok ts, (session, conn'))" and
    2: "HandshakeState_create_epoch_key_update T M session conn' = Ok rb" and
    3: "resp = Some rb" "st' = st\<lparr>server_session := session, server_internal := ServerRunning\<rparr>"
    by (auto simp: ServerHandshakeState_receive_signaling_message_def server_merge_update_def
        reads_key_def bindS_eq_Ok Let_def split: prod.splits if_splits)
  note g = MlsSession_merge_update_meaning [OF assms(2,3) 1]
  have "reads_key T rb (view_epoch V e')"
    by (rule create_epoch_key_update_reads [OF assms(1,2) _ 2]) (use g in auto)
  with g 3 show ?thesis by auto
qed

section \<open>The handlers succeed\<close>

lemma server_receive_update_total:
  assumes "signaling_total T" "mls_laws M V" "mls_total M V" "member_at M V conn gid me e pend"
    and "view_commit V m = Some (gid, by, e, e')" "by \<noteq> me" "reads_update T bs m"
    and "epoch_in_range oc (view_epoch V e)"
  shows "\<exists>r st'. ServerHandshakeState_receive_signaling_message oc T M k bs (st, conn) = (Ok r, st')"
proof -
  obtain ts session ident conn1 where
    1: "process_mls_update oc M conn m True = (Ok (ts, session, ident), conn1)"
    using process_mls_update_total [OF assms(2-6), of True oc] assms(8) by auto
  note g = process_mls_update_meaning [OF assms(2,4,5,6) _ 1]
  from g have "member_at M V conn1 (group_id session) me e' None" by simp
  from create_epoch_key_update_total [OF assms(1,2) this] obtain rb where
    "HandshakeState_create_epoch_key_update T M session conn1 = Ok rb" by blast
  with 1 assms(7) show ?thesis
    by (simp add: ServerHandshakeState_receive_signaling_message_def server_process_update_def
        reads_update_def Let_def)
qed

lemma server_receive_key_total:
  assumes "signaling_total T" "mls_laws M V" "mls_total M V"
    and "member_at M V conn (group_id (server_session st)) me e (Some e')"
    and "reads_key T bs (view_epoch V e')" "server_internal st = WaitingForUpdate"
  shows "\<exists>r st'. ServerHandshakeState_receive_signaling_message oc T M k bs (st, conn) = (Ok r, st')"
proof -
  obtain ts session conn1 where
    1: "MlsSession_merge_update M (server_session st) conn = (Ok ts, (session, conn1))"
    using MlsSession_merge_update_total [OF assms(2,3,4)] by blast
  note g = MlsSession_merge_update_meaning [OF assms(2,4) 1]
  then have m: "member_at M V conn1 (group_id session) me e' None" by simp
  from create_epoch_key_update_total [OF assms(1,2) this] obtain rb where
    "HandshakeState_create_epoch_key_update T M session conn1 = Ok rb" by blast
  with 1 assms(5,6) epoch_key_update_meaning(2) [OF assms(2) m] show ?thesis
    by (simp add: ServerHandshakeState_receive_signaling_message_def server_merge_update_def
        HandshakeState_process_epoch_key_update_def reads_key_def Let_def)
qed

end
