(* ===== verification/Frame_Codec.thy ===== *)
theory Frame_Codec
  imports Wire_Codec
begin

text \<open>
  \<^verbatim>\<open>src/tls_aead/codec.rs\<close> and the constants of \<^verbatim>\<open>src/tls_aead/mod.rs\<close>: the TLS record
  framing that \<^verbatim>\<open>FramedRead\<close> and \<^verbatim>\<open>FramedWrite\<close> drive.  The lemmas show that decoding
  partitions its buffer, that cutting the byte stream into network reads at any place does not
  change the packets, that encoded frames come back in order, and where the sixteen-bit length
  field stops being enough.
\<close>

section \<open>Constants and types\<close>

definition TLS_APP_DATA :: u8 where "TLS_APP_DATA = 0x17"
definition TLS_VERSION :: u16 where "TLS_VERSION = 0x0303"
definition TLS_MAX_RECORD_SIZE :: u16 where "TLS_MAX_RECORD_SIZE = push_bit 14 2"
definition TLS_HDR_SIZE :: nat where "TLS_HDR_SIZE = 5"
definition TLS_AEAD_TAG_SIZE :: nat where "TLS_AEAD_TAG_SIZE = 16"
definition MIN_RECORD_SIZE :: nat where
  "MIN_RECORD_SIZE = TLS_HDR_SIZE + TLS_AEAD_TAG_SIZE + 1"

record TlsPacketIn =
  header :: bytes
  data :: bytes

section \<open>Operations\<close>

text \<open>\<^verbatim>\<open>self.header[0]\<close> panics on an empty header.\<close>

definition TlsPacketIn_msg_type :: "TlsPacketIn \<Rightarrow> ('e, u8) res" where
  "TlsPacketIn_msg_type p = (case header p of [] \<Rightarrow> Panic | b # _ \<Rightarrow> Ok b)"

definition TlsPacketIn_version :: "TlsPacketIn \<Rightarrow> ('e, u16) res" where
  "TlsPacketIn_version p =
     (if length (header p) < 3 then Panic
      else Ok (u16_from_be_bytes (header p ! 1) (header p ! 2)))"

text \<open>
  The decoder returns \<^verbatim>\<open>Ok(None)\<close> and leaves the buffer alone while the frame is incomplete;
  the conversion of the two length bytes cannot fail, so the only outcome is \<^verbatim>\<open>Ok\<close>.
\<close>

definition TlsFrameCodec_decode :: "bytes \<Rightarrow> (io_error, TlsPacketIn option, bytes) outcome" where
  "TlsFrameCodec_decode src =
     (if length src < TLS_HDR_SIZE then (Ok None, src)
      else let len = unat (u16_from_be_bytes (src ! 3) (src ! 4)) in
        if length src < len + TLS_HDR_SIZE then (Ok None, src)
        else (Ok (Some \<lparr>header = take TLS_HDR_SIZE src, data = take len (drop TLS_HDR_SIZE src)\<rparr>),
              drop len (drop TLS_HDR_SIZE src)))"

definition TlsFrameCodec_encode :: "bytes \<Rightarrow> bytes \<Rightarrow> (io_error, unit, bytes) outcome" where
  "TlsFrameCodec_encode dat dst =
     (let len = as_u16 (length dat) in
      (Ok (), dst @ [TLS_APP_DATA] @ u16_to_be_bytes TLS_VERSION @ u16_to_be_bytes len @ dat))"

text \<open>
  The record header of a payload of \<open>n\<close> bytes, and the frame the encoder appends.
\<close>

definition record_header :: "nat \<Rightarrow> bytes" where
  "record_header n = [TLS_APP_DATA] @ u16_to_be_bytes TLS_VERSION @ u16_to_be_bytes (as_u16 n)"

abbreviation frame :: "bytes \<Rightarrow> bytes" where
  "frame dat \<equiv> record_header (length dat) @ dat"

abbreviation packet :: "bytes \<Rightarrow> TlsPacketIn" where
  "packet dat \<equiv> \<lparr>header = record_header (length dat), data = dat\<rparr>"

section \<open>The decoder\<close>

lemma length_record_header [simp]: "length (record_header n) = TLS_HDR_SIZE"
  by (simp add: record_header_def TLS_HDR_SIZE_def)

lemma record_header_length_field:
  "u16_from_be_bytes ((record_header n @ xs) ! 3) ((record_header n @ xs) ! 4) = as_u16 n"
  by (simp add: record_header_def u16_to_be_bytes_def)

lemma TlsFrameCodec_encode_eq: "TlsFrameCodec_encode dat dst = (Ok (), dst @ frame dat)"
  by (simp add: TlsFrameCodec_encode_def record_header_def Let_def)

lemma decode_cases:
  obtains (incomplete) "TlsFrameCodec_decode src = (Ok None, src)"
  | (complete) p rest where "TlsFrameCodec_decode src = (Ok (Some p), rest)"
      "src = header p @ data p @ rest" "length (header p) = TLS_HDR_SIZE"
proof (cases "fst (TlsFrameCodec_decode src) = Ok None")
  case True
  then have "TlsFrameCodec_decode src = (Ok None, src)"
    by (auto simp: TlsFrameCodec_decode_def Let_def split: if_splits)
  then show thesis by (rule incomplete)
next
  case False
  let ?len = "unat (u16_from_be_bytes (src ! 3) (src ! 4))"
  from False have "\<not> length src < ?len + TLS_HDR_SIZE" "\<not> length src < TLS_HDR_SIZE"
    by (auto simp: TlsFrameCodec_decode_def Let_def split: if_splits)
  then show thesis
    by (intro complete [of "\<lparr>header = take TLS_HDR_SIZE src, data = take ?len (drop TLS_HDR_SIZE src)\<rparr>"
          "drop ?len (drop TLS_HDR_SIZE src)"])
      (simp_all add: TlsFrameCodec_decode_def Let_def del: drop_drop)
qed

lemma decode_short: "length src < TLS_HDR_SIZE \<Longrightarrow> TlsFrameCodec_decode src = (Ok None, src)"
  by (simp add: TlsFrameCodec_decode_def)

lemma decode_more:
  assumes "TlsFrameCodec_decode src = (Ok (Some p), rest)"
  shows "TlsFrameCodec_decode (src @ ext) = (Ok (Some p), rest @ ext)"
proof -
  from assms have "TLS_HDR_SIZE \<le> length src"
    by (auto simp: TlsFrameCodec_decode_def split: if_splits)
  then have "(src @ ext) ! 3 = src ! 3" "(src @ ext) ! 4 = src ! 4"
    by (simp_all add: TLS_HDR_SIZE_def nth_append)
  with assms show ?thesis
    by (auto simp: TlsFrameCodec_decode_def Let_def split: if_splits)
qed

lemma decode_frame:
  "length dat < 65536 \<Longrightarrow>
   TlsFrameCodec_decode (frame dat @ rest) = (Ok (Some (packet dat)), rest)"
  using record_header_length_field [of "length dat" "dat @ rest"]
  by (simp add: TlsFrameCodec_decode_def Let_def)

lemma decode_shrinks:
  "TlsFrameCodec_decode src = (Ok (Some p), rest) \<Longrightarrow> length rest < length src"
  by (rule decode_cases [of src]) (auto simp: TLS_HDR_SIZE_def)

text \<open>
  What \<^verbatim>\<open>FramedRead\<close> does with one read: append the bytes to the buffer and decode until the
  decoder asks for more.
\<close>

function decode_all :: "bytes \<Rightarrow> TlsPacketIn list \<times> bytes" where
  "decode_all buf =
     (case TlsFrameCodec_decode buf of
        (Ok (Some p), rest) \<Rightarrow> (let (ps, rest') = decode_all rest in (p # ps, rest'))
      | (_, rest) \<Rightarrow> ([], rest))"
  by pat_completeness auto
termination
  by (relation "measure length") (auto dest: decode_shrinks [OF sym])

declare decode_all.simps [simp del]

primrec feed :: "bytes \<Rightarrow> bytes list \<Rightarrow> TlsPacketIn list \<times> bytes" where
  "feed buf [] = ([], buf)"
| "feed buf (r # rs) =
     (let (ps, buf') = decode_all (buf @ r); (qs, buf'') = feed buf' rs in (ps @ qs, buf''))"

lemma decode_all_incomplete:
  "TlsFrameCodec_decode buf = (Ok None, r) \<Longrightarrow> decode_all buf = ([], r)"
  by (simp add: decode_all.simps)

lemma decode_all_complete:
  "TlsFrameCodec_decode buf = (Ok (Some p), r) \<Longrightarrow>
   decode_all buf = (p # fst (decode_all r), snd (decode_all r))"
  by (subst decode_all.simps) (simp add: case_prod_beta)

lemma decode_all_split:
  "decode_all (xs @ ys) =
     (fst (decode_all xs) @ fst (decode_all (snd (decode_all xs) @ ys)),
      snd (decode_all (snd (decode_all xs) @ ys)))"
proof (induction xs rule: decode_all.induct)
  case (1 xs)
  show ?case
  proof (rule decode_cases [of xs])
    assume "TlsFrameCodec_decode xs = (Ok None, xs)"
    then show ?thesis by (simp add: decode_all_incomplete)
  next
    fix p rest
    assume d: "TlsFrameCodec_decode xs = (Ok (Some p), rest)"
    have ih: "decode_all (rest @ ys) =
        (fst (decode_all rest) @ fst (decode_all (snd (decode_all rest) @ ys)),
         snd (decode_all (snd (decode_all rest) @ ys)))"
      by (rule "1.IH" [OF d [symmetric]]) simp_all
    from d show ?thesis
      by (simp add: decode_all_complete decode_all_complete [OF decode_more [OF d]] ih)
  qed
qed

lemma decode_all_idem: "decode_all (snd (decode_all xs)) = ([], snd (decode_all xs))"
proof (induction xs rule: decode_all.induct)
  case (1 xs)
  show ?case
  proof (rule decode_cases [of xs])
    assume "TlsFrameCodec_decode xs = (Ok None, xs)"
    then show ?thesis by (simp add: decode_all_incomplete)
  next
    fix p rest
    assume d: "TlsFrameCodec_decode xs = (Ok (Some p), rest)"
    then show ?thesis using "1.IH" [OF d [symmetric]] by (simp add: decode_all_complete)
  qed
qed

lemma feed_eq_decode_all:
  "decode_all buf = ([], buf) \<Longrightarrow> feed buf rs = decode_all (buf @ concat rs)"
proof (induction rs arbitrary: buf)
  case Nil
  then show ?case by simp
next
  case (Cons r rs)
  have "feed (snd (decode_all (buf @ r))) rs = decode_all (snd (decode_all (buf @ r)) @ concat rs)"
    by (rule Cons.IH) (rule decode_all_idem)
  then show ?case
    by (simp add: case_prod_beta decode_all_split [of "buf @ r" "concat rs", simplified])
qed

lemma decode_all_frames:
  "(\<forall>d \<in> set ds. length d < 65536) \<Longrightarrow>
   decode_all (concat (map (\<lambda>d. frame d) ds)) = (map (\<lambda>d. packet d) ds, [])"
proof (induction ds)
  case Nil
  then show ?case by (simp add: decode_all_incomplete decode_short TLS_HDR_SIZE_def)
next
  case (Cons d ds)
  then show ?case
    using decode_all_complete [OF decode_frame [of d "concat (map (\<lambda>d. frame d) ds)"]]
    by simp
qed

section \<open>The codec contract\<close>

text \<open>
  Reading a payload off the front of the buffer, with the request for more bytes as the error.
\<close>

definition next_payload :: "bytes \<Rightarrow> (io_error option, bytes \<times> bytes) res" where
  "next_payload buf =
     (case TlsFrameCodec_decode buf of
        (Ok (Some p), rest) \<Rightarrow> Ok (data p, rest)
      | (Ok None, _) \<Rightarrow> Err None
      | (Err e, _) \<Rightarrow> Err (Some e)
      | (Panic, _) \<Rightarrow> Panic)"

definition encode_payload :: "bytes \<Rightarrow> (io_error, bytes) res" where
  "encode_payload dat =
     (case TlsFrameCodec_encode dat [] of (r, dst) \<Rightarrow> res_bind r (\<lambda>_. Ok dst))"

lemma encode_payload_eq: "encode_payload dat = Ok (frame dat)"
  by (simp add: encode_payload_def TlsFrameCodec_encode_eq)

lemma next_payload_truncated:
  assumes "length dat < 65536" and "strict_prefix p (frame dat)"
  shows "next_payload p = Err None"
proof (rule decode_cases [of p])
  assume "TlsFrameCodec_decode p = (Ok None, p)"
  then show ?thesis by (simp add: next_payload_def)
next
  fix q r
  assume d: "TlsFrameCodec_decode p = (Ok (Some q), r)"
  from assms(2) obtain s where s: "frame dat = p @ s" "s \<noteq> []"
    by (auto simp: strict_prefix_def prefix_def)
  have "TlsFrameCodec_decode (frame dat) = (Ok (Some q), r @ s)"
    using decode_more [OF d, of s] s(1) by simp
  with decode_frame [OF assms(1), of "[]"] have False using s(2) by simp
  then show ?thesis ..
qed

interpretation frame_codec: prefix_codec encode_payload next_payload "\<lambda>dat. length dat < 65536"
proof unfold_locales
  fix x bs rest
  assume "length (x :: bytes) < 65536" "encode_payload x = Ok bs"
  then show "next_payload (bs @ rest) = Ok (x, rest)"
    using decode_frame [of x rest] by (auto simp: next_payload_def encode_payload_eq)
next
  fix x bs p
  assume "length (x :: bytes) < 65536" "encode_payload x = Ok bs" "strict_prefix p bs"
  then show "\<exists>e. next_payload p = Err e"
    using next_payload_truncated by (auto simp: encode_payload_eq)
qed

section \<open>Properties\<close>

text \<open>What a \<^verbatim>\<open>FramedWrite\<close> has written after encoding a list of payloads.\<close>

definition encode_all :: "bytes list \<Rightarrow> bytes" where
  "encode_all ds = fold (\<lambda>d dst. snd (TlsFrameCodec_encode d dst)) ds []"

lemma encode_all_eq: "encode_all ds = concat (map (\<lambda>d. frame d) ds)"
proof -
  have "fold (\<lambda>d dst. snd (TlsFrameCodec_encode d dst)) ds dst = dst @ concat (map (\<lambda>d. frame d) ds)" for dst
    by (induction ds arbitrary: dst) (simp_all add: TlsFrameCodec_encode_eq)
  then show ?thesis by (simp add: encode_all_def)
qed

lemma decode_all_lossless: "concat (map (\<lambda>p. header p @ data p) (fst (decode_all xs))) @ snd (decode_all xs) = xs"
proof (induction xs rule: decode_all.induct)
  case (1 xs)
  show ?case
  proof (rule decode_cases [of xs])
    assume "TlsFrameCodec_decode xs = (Ok None, xs)"
    then show ?thesis by (simp add: decode_all_incomplete)
  next
    fix p rest
    assume d: "TlsFrameCodec_decode xs = (Ok (Some p), rest)" and xs: "xs = header p @ data p @ rest"
    show ?thesis
      using "1.IH" [OF d [symmetric]] by (simp add: decode_all_complete [OF d]) (simp add: xs)
  qed
qed

text \<open>
  C22. Framing is transparent.  Decoding does not depend on how the bytes arrive, for every input,
  well-formed or not: any two ways of cutting the same bytes into reads give the same packets and
  the same residue, and the packets with the residue are the input, byte for byte.  When the
  bytes are those that the other side encoded for payloads of at most 65535 bytes, the packets carry
  exactly these payloads, in order, each with the header that announces its length, and no byte is left over.
\<close>

theorem frame_stream_reassembly:
  assumes "concat reads = concat reads'"
  shows "feed [] reads = feed [] reads' \<and>
    concat (map (\<lambda>p. header p @ data p) (fst (feed [] reads))) @ snd (feed [] reads) = concat reads \<and>
    (\<forall>ds. (\<forall>d \<in> set ds. length d < 65536) \<longrightarrow> concat reads = encode_all ds \<longrightarrow>
       feed [] reads = (map (\<lambda>d. \<lparr>header = record_header (length d), data = d\<rparr>) ds, []))"
proof -
  have "decode_all [] = ([], [])"
    by (simp add: decode_all_incomplete decode_short TLS_HDR_SIZE_def)
  then have "feed [] rs = decode_all (concat rs)" for rs by (simp add: feed_eq_decode_all)
  with assms show ?thesis by (simp add: decode_all_lossless encode_all_eq decode_all_frames)
qed

theorem frame_stream_reassembly_witness:
  "feed [] [[1, 2], [3, 0, 1], [9, 4]] = feed [] [[1, 2, 3, 0, 1, 9, 4]] \<and>
   feed [] [[23, 3], [3, 0, 2, 7, 8, 23, 3, 3, 0], [0]] =
     ([\<lparr>header = [23, 3, 3, 0, 2], data = [7, 8]\<rparr>, \<lparr>header = [23, 3, 3, 0, 0], data = []\<rparr>], [])"
proof -
  let ?cut = "[[23, 3], [3, 0, 2, 7, 8, 23, 3, 3, 0], [0 :: u8]]" and ?ds = "[[7, 8], [] :: bytes]"
  have e: "concat ?cut = encode_all ?ds"
    by (simp add: encode_all_def TlsFrameCodec_encode_def TLS_APP_DATA_def TLS_VERSION_def u16_to_be_bytes_def)
  have d: "\<forall>d \<in> set ?ds. length d < 65536" by simp
  note own = frame_stream_reassembly [OF HOL.refl [of "concat ?cut"], THEN conjunct2, THEN conjunct2, THEN spec [of _ ?ds],
      THEN mp, OF d, THEN mp, OF e]
  have c: "concat [[1, 2], [3, 0, 1], [9, 4]] = concat [[1, 2, 3, 0, 1, 9, 4 :: u8]]" by simp
  have "map (\<lambda>d. \<lparr>header = record_header (length d), data = d\<rparr>) ?ds =
      [\<lparr>header = [23, 3, 3, 0, 2], data = [7, 8]\<rparr>, \<lparr>header = [23, 3, 3, 0, 0], data = []\<rparr>]"
    by (simp add: record_header_def TLS_APP_DATA_def TLS_VERSION_def u16_to_be_bytes_def)
  with own show ?thesis by (simp only: frame_stream_reassembly [OF c, THEN conjunct1] simp_thms)
qed

text \<open>
  C40. The encoder's length field is sixteen bits and the cast truncates: a payload of 65536 bytes or
  more is encoded without error, and the decoder then returns only its first \<open>length mod 65536\<close>
  bytes and takes the remaining payload bytes for the next frame.
\<close>

theorem frame_encode_truncates_length:
  assumes "65536 \<le> length dat"
  shows "\<exists>wire hdr. TlsFrameCodec_encode dat [] = (Ok (), wire) \<and>
    TlsFrameCodec_decode wire =
      (Ok (Some \<lparr>header = hdr, data = take (length dat mod 65536) dat\<rparr>),
       drop (length dat mod 65536) dat) \<and>
    drop (length dat mod 65536) dat \<noteq> []"
proof -
  have "length dat mod 65536 < length dat" using assms
    by (metis linorder_not_less mod_less_divisor order_less_le_trans zero_less_numeral)
  moreover have "TlsFrameCodec_decode (frame dat) =
      (Ok (Some \<lparr>header = record_header (length dat), data = take (length dat mod 65536) dat\<rparr>),
       drop (length dat mod 65536) dat)"
    using record_header_length_field [of "length dat" dat] calculation
    by (simp add: TlsFrameCodec_decode_def Let_def unat_as_u16_mod)
  ultimately show ?thesis by (simp add: TlsFrameCodec_encode_eq)
qed

theorem frame_encode_truncates_length_witness:
  "\<exists>wire hdr. TlsFrameCodec_encode (replicate 65537 9) [] = (Ok (), wire) \<and>
    TlsFrameCodec_decode wire = (Ok (Some \<lparr>header = hdr, data = [9]\<rparr>), replicate 65536 9) \<and>
    replicate 65536 (9 :: u8) \<noteq> []"
  using frame_encode_truncates_length [of "replicate 65537 9"] by simp

end
