(* ===== verification/Symbolic_Crypto.thy ===== *)
theory Symbolic_Crypto
  imports Key_Generation
begin

text \<open>
  A small executable crypto provider that meets the laws the record layer relies on.  It stands in
  for \<^verbatim>\<open>openmls_rust_crypto\<close> where a property is applied at a concrete input: the ciphertext is
  the plaintext followed by sixteen copies of a checksum over key, nonce, associated data and
  plaintext; HKDF-Expand repeats the secret and the info string.
\<close>

definition sym_checksum :: "bytes \<Rightarrow> u8" where
  "sym_checksum bs = foldr (\<lambda>b acc. b + 3 * acc) bs 1"

definition sym_tag :: "bytes \<Rightarrow> bytes \<Rightarrow> bytes \<Rightarrow> bytes \<Rightarrow> bytes" where
  "sym_tag k n ad pt = replicate 16 (sym_checksum (k @ n @ ad @ pt))"

definition sym_aead_encrypt ::
    "AeadType \<Rightarrow> bytes \<Rightarrow> bytes \<Rightarrow> bytes \<Rightarrow> bytes \<Rightarrow> (CryptoError, bytes) res" where
  "sym_aead_encrypt alg k pt n ad = Ok (pt @ sym_tag k n ad pt)"

definition sym_aead_decrypt ::
    "AeadType \<Rightarrow> bytes \<Rightarrow> bytes \<Rightarrow> bytes \<Rightarrow> bytes \<Rightarrow> (CryptoError, bytes) res" where
  "sym_aead_decrypt alg k ct n ad =
     (if length ct < 16 then Err (CryptoOther 0)
      else let pt = take (length ct - 16) ct; tag = drop (length ct - 16) ct
           in if tag = sym_tag k n ad pt then Ok pt else Err (CryptoOther 1))"

definition sym_expand :: "HashType \<Rightarrow> bytes \<Rightarrow> bytes \<Rightarrow> nat \<Rightarrow> (CryptoError, bytes) res" where
  "sym_expand h secret info len =
     Ok (take len (take 4 info @ [sym_checksum (secret @ info)] @ take 16 secret @ replicate len 0))"

definition sym_crypto :: crypto where
  "sym_crypto = \<lparr>hash_size = (\<lambda>h. 64), key_size = (\<lambda>a. 32), tag_size = (\<lambda>a. 16),
     hkdf_extract = (\<lambda>h salt ikm. sym_expand h ikm salt 64), hkdf_expand = sym_expand,
     aead_encrypt = sym_aead_encrypt, aead_decrypt = sym_aead_decrypt\<rparr>"

lemma sym_crypto_sel [simp]:
  "hash_size sym_crypto h = 64" "key_size sym_crypto a = 32" "tag_size sym_crypto a = 16"
  "hkdf_extract sym_crypto h salt ikm = sym_expand h ikm salt 64"
  "hkdf_expand sym_crypto = sym_expand"
  "aead_encrypt sym_crypto = sym_aead_encrypt" "aead_decrypt sym_crypto = sym_aead_decrypt"
  by (simp_all add: sym_crypto_def)

lemma aead_correct_sym_crypto [simp]: "aead_correct sym_crypto alg"
  by (auto simp: aead_correct_def sym_aead_encrypt_def sym_aead_decrypt_def sym_tag_def)

lemma hkdf_expand_length_sym_crypto [simp]: "hkdf_expand_length sym_crypto h"
  by (auto simp: hkdf_expand_length_def sym_expand_def)

theorem hkdf_labels_separate_domains_witness:
  "hdkf_expand_label sym_crypto Sha2_512 [1] (ascii ''c ap traffic'') [] 64 =
     sym_expand Sha2_512 [1] (hkdf_label_info 64 (ascii ''c ap traffic'') []) 64 \<and>
   hkdf_label_info 64 (ascii ''c ap traffic'') [] \<noteq> hkdf_label_info 64 (ascii ''s ap traffic'') []"
proof -
  obtain out out' where
    h: "hdkf_expand_label sym_crypto Sha2_512 [1] (ascii ''c ap traffic'') [] 64 = Ok out"
       "hdkf_expand_label sym_crypto Sha2_512 [1] (ascii ''s ap traffic'') [] 64 = Ok out'"
    by (simp add: hdkf_expand_label_eq hkdf_label_ok_def sym_expand_def)
  moreover have "ascii ''c ap traffic'' \<noteq> ascii ''s ap traffic''"
    by (simp add: ascii_def)
  ultimately show ?thesis
    using hkdf_labels_separate_domains [OF h] by simp
qed

end
