(* ===== verification/Tls_Aead.thy ===== *)
theory Tls_Aead
  imports Frame_Codec Symbolic_Crypto Channel
begin

text \<open>
  \<^verbatim>\<open>src/tls_aead/mod.rs\<close>: the codec that encrypts application data into TLS records and decrypts
  them again.  The lemmas cover the nonce construction (equal to that of RFC 8446, injective in
  the sequence number), the per-record channel contract, the key updates (which direction they
  change, that they keep the sequence numbers, that applying one twice is applying it once) and
  the agreement of the two roles.
\<close>

datatype TlsAeadCodecError =
    NotEnoughData
  | InvalidMac
  | AeadCryptoError CryptoError
  | AeadInvalidLength

record TlsAeadCodec =
  send_key :: bytes
  send_iv :: bytes
  recv_key :: bytes
  recv_iv :: bytes
  send_seq :: u64
  recv_seq :: u64
  cipher :: AeadType
  hash :: HashType
  max_frame_size :: u16
  crypto_provider :: crypto

section \<open>Construction and key updates\<close>

definition TlsAeadCodec_new ::
    "crypto \<Rightarrow> bool \<Rightarrow> TrafficSecrets \<Rightarrow> bytes \<Rightarrow> HashType \<Rightarrow> AeadType \<Rightarrow> (TlsAeadCodecError, TlsAeadCodec) res" where
  "TlsAeadCodec_new C is_server traffic_secrets handshake_hash h alg =
     res_bind (map_err AeadCryptoError (generate_keys C h traffic_secrets handshake_hash alg))
       (\<lambda>keys.
        let (skey, siv, rkey, riv) =
          (if is_server then (server_key keys, server_iv keys, client_key keys, client_iv keys)
           else (client_key keys, client_iv keys, server_key keys, server_iv keys))
        in Ok \<lparr>send_key = skey, send_iv = siv, recv_key = rkey, recv_iv = riv,
               send_seq = 0, recv_seq = 0, cipher = alg, hash = h,
               max_frame_size = TLS_MAX_RECORD_SIZE, crypto_provider = C\<rparr>)"

text \<open>The shared shape of the three branches: the keys are expanded first, the fields set last.\<close>

fun TlsAeadCodec_update_traffic_secrets ::
    "TlsAeadCodec \<Rightarrow> SecretUpdate \<Rightarrow> bool \<Rightarrow> (TlsAeadCodecError, unit, TlsAeadCodec) outcome" where
  "TlsAeadCodec_update_traffic_secrets self (ClientSecretUpdate secret) is_server =
     bindS (map_err AeadCryptoError
              (expand_client_secret (crypto_provider self) (hash self) secret [] (cipher self)), self)
       (\<lambda>(ckey, civ) self.
        (Ok (), if is_server then self\<lparr>recv_key := ckey, recv_iv := civ\<rparr>
                else self\<lparr>send_key := ckey, send_iv := civ\<rparr>))"
| "TlsAeadCodec_update_traffic_secrets self (ServerSecretUpdate secret) is_server =
     bindS (map_err AeadCryptoError
              (expand_server_secret (crypto_provider self) (hash self) secret [] (cipher self)), self)
       (\<lambda>(skey, siv) self.
        (Ok (), if is_server then self\<lparr>send_key := skey, send_iv := siv\<rparr>
                else self\<lparr>recv_key := skey, recv_iv := siv\<rparr>))"
| "TlsAeadCodec_update_traffic_secrets self (Both secrets) is_server =
     bindS (map_err AeadCryptoError
              (expand_client_secret (crypto_provider self) (hash self) (client_secret secrets) []
                 (cipher self)), self)
       (\<lambda>(ckey, civ) self.
     bindS (map_err AeadCryptoError
              (expand_server_secret (crypto_provider self) (hash self) (server_secret secrets) []
                 (cipher self)), self)
       (\<lambda>(skey, siv) self.
        (Ok (), if is_server
                then self\<lparr>send_key := skey, send_iv := siv, recv_key := ckey, recv_iv := civ\<rparr>
                else self\<lparr>send_key := ckey, send_iv := civ, recv_key := skey, recv_iv := siv\<rparr>)))"

section \<open>Nonces\<close>

definition make_iv :: "bytes \<Rightarrow> u64 \<Rightarrow> (CryptoError, bytes) res" where
  "make_iv iv seq =
     (if length iv = TLS13_IV_SIZE
      then Ok (fold (\<lambda>(i, b) ret. let idx = length iv - 1 - i in ret[idx := ret ! idx XOR b])
                 (enumerate 0 (u64_to_le_bytes seq)) iv)
      else Err InvalidLength)"

section \<open>Encryption\<close>

text \<open>
  One iteration's ciphertext.  The nonce is an argument of the AEAD call, so its error comes
  first.  The associated data is the record header of the ciphertext to come.
\<close>

definition encrypt_chunk :: "TlsAeadCodec \<Rightarrow> bytes \<Rightarrow> (TlsAeadCodecError, bytes) res" where
  "encrypt_chunk self chunk =
     (let to_encode = chunk @ [TLS_APP_DATA];
          associated_data =
            [TLS_APP_DATA] @ u16_to_be_bytes TLS_VERSION @
            u16_to_be_bytes (as_u16 (length chunk + tag_size (crypto_provider self) (cipher self) + 1))
      in map_err AeadCryptoError
           (res_bind (make_iv (send_iv self) (send_seq self)) (\<lambda>nonce.
            aead_encrypt (crypto_provider self) (cipher self) (send_key self) to_encode nonce
              associated_data)))"

fun encrypt_loop ::
    "bool \<Rightarrow> bytes list \<Rightarrow> TlsAeadCodec \<times> bytes list \<Rightarrow> (TlsAeadCodecError, unit, TlsAeadCodec \<times> bytes list) outcome" where
  "encrypt_loop oc [] (self, buf) = (Ok (), (self, buf))"
| "encrypt_loop oc (chunk # rest) (self, buf) =
     bindS (encrypt_chunk self chunk, (self, buf)) (\<lambda>encrypted (self, buf).
     bindS (add_u64 oc (send_seq self) 1, (self, buf @ [encrypted])) (\<lambda>seq (self, buf).
     encrypt_loop oc rest (self\<lparr>send_seq := seq\<rparr>, buf)))"

definition TlsAeadCodec_encrypt ::
    "bool \<Rightarrow> TlsAeadCodec \<Rightarrow> bytes \<Rightarrow> bytes list \<Rightarrow> (TlsAeadCodecError, unit, TlsAeadCodec \<times> bytes list) outcome" where
  "TlsAeadCodec_encrypt oc self dat buf =
     (if max_frame_size self = 0 then (Panic, (self, buf))
      else encrypt_loop oc (chunks (unat (max_frame_size self)) dat) (self, buf))"

fun encrypt_with_header_loop ::
    "bool \<Rightarrow> bytes list \<Rightarrow> TlsAeadCodec \<times> bytes list \<Rightarrow> (TlsAeadCodecError, bytes list, TlsAeadCodec \<times> bytes list) outcome" where
  "encrypt_with_header_loop oc [] (self, frames) = (Ok frames, (self, frames))"
| "encrypt_with_header_loop oc (chunk # rest) (self, frames) =
     bindS (encrypt_chunk self chunk, (self, frames)) (\<lambda>encrypted (self, frames).
     let tls_msg_out = [TLS_APP_DATA] @ u16_to_be_bytes TLS_VERSION @
                       u16_to_be_bytes (as_u16 (length encrypted)) @ encrypted in
     bindS (add_u64 oc (send_seq self) 1, (self, frames @ [tls_msg_out])) (\<lambda>seq (self, frames).
     encrypt_with_header_loop oc rest (self\<lparr>send_seq := seq\<rparr>, frames)))"

definition TlsAeadCodec_encrypt_with_header ::
    "bool \<Rightarrow> TlsAeadCodec \<Rightarrow> bytes \<Rightarrow> (TlsAeadCodecError, bytes list, TlsAeadCodec) outcome" where
  "TlsAeadCodec_encrypt_with_header oc self dat =
     (if max_frame_size self = 0 then (Panic, self)
      else case encrypt_with_header_loop oc (chunks (unat (max_frame_size self)) dat) (self, [])
        of (r, (self, _)) \<Rightarrow> (r, self))"

section \<open>Decryption\<close>

text \<open>
  The last byte of the plaintext is the message type.  On an empty plaintext \<^verbatim>\<open>msg.len() - 1\<close>
  underflows: a panic with overflow checks, and without them a range outside the vector, which
  panics in \<^verbatim>\<open>drain\<close>.
\<close>

definition TlsAeadCodec_decrypt ::
    "bool \<Rightarrow> TlsAeadCodec \<Rightarrow> bytes \<Rightarrow> bytes \<Rightarrow> (TlsAeadCodecError, bytes, TlsAeadCodec) outcome" where
  "TlsAeadCodec_decrypt oc self ciphertext associated_data =
     bindS (map_err AeadCryptoError
              (res_bind (make_iv (recv_iv self) (recv_seq self)) (\<lambda>nonce.
               aead_decrypt (crypto_provider self) (cipher self) (recv_key self) ciphertext nonce
                 associated_data)), self) (\<lambda>msg self.
     bindS (add_u64 oc (recv_seq self) 1, self) (\<lambda>seq self.
     (if msg = [] then Panic else Ok (butlast msg), self\<lparr>recv_seq := seq\<rparr>)))"

definition TlsAeadCodec_decrypt_with_header ::
    "bool \<Rightarrow> TlsAeadCodec \<Rightarrow> bytes \<Rightarrow> (TlsAeadCodecError, bytes, TlsAeadCodec) outcome" where
  "TlsAeadCodec_decrypt_with_header oc self dat =
     (if length dat < MIN_RECORD_SIZE then (Err NotEnoughData, self)
      else if length dat = MIN_RECORD_SIZE then (Ok [], self)
      else TlsAeadCodec_decrypt oc self (drop TLS_HDR_SIZE dat) (take TLS_HDR_SIZE dat))"

section \<open>Lemmas on nonces\<close>

text \<open>
  The per-record nonce of RFC 8446, section 5.3: the sequence number in network byte order,
  padded on the left with zeros to the length of the IV, exclusive-or the IV.
\<close>

definition rfc8446_nonce :: "bytes \<Rightarrow> u64 \<Rightarrow> bytes" where
  "rfc8446_nonce iv seq = map2 (XOR) iv (replicate (length iv - 8) 0 @ u64_to_be_bytes seq)"

lemma map2_xor_cancel:
  fixes iv :: "'a :: ring_bit_operations list"
  assumes "length xs = length iv" "length ys = length iv" "map2 (XOR) iv xs = map2 (XOR) iv ys"
  shows "xs = ys"
proof (rule nth_equalityI)
  show "length xs = length ys" using assms by simp
next
  fix i assume i: "i < length xs"
  then have "map2 (XOR) iv xs ! i = map2 (XOR) iv ys ! i" using assms(3) by simp
  then have "iv ! i XOR xs ! i = iv ! i XOR ys ! i" using i assms(1,2) by simp
  then have "iv ! i XOR (iv ! i XOR xs ! i) = iv ! i XOR (iv ! i XOR ys ! i)" by simp
  then show "xs ! i = ys ! i" by (simp flip: xor.assoc)
qed

lemma list12_cases:
  assumes "length (xs :: 'a list) = 12"
  obtains a b c d e f g h i j k l where "xs = [a, b, c, d, e, f, g, h, i, j, k, l]"
  using assms by (auto simp: numeral_eq_Suc length_Suc_conv)

lemma make_iv_eq:
  assumes "length iv = TLS13_IV_SIZE"
  shows "make_iv iv seq = Ok (rfc8446_nonce iv seq)"
proof -
  obtain a b c d e f g h i j k l where iv: "iv = [a, b, c, d, e, f, g, h, i, j, k, l]"
    using assms by (auto simp: TLS13_IV_SIZE_def elim: list12_cases)
  show ?thesis
    by (simp add: iv make_iv_def rfc8446_nonce_def TLS13_IV_SIZE_def u64_to_be_bytes_def
        u64_to_le_bytes_def upt_rec numeral_eq_Suc)
qed

lemma make_iv_Ok_iff: "make_iv iv seq = Ok n \<longleftrightarrow> length iv = TLS13_IV_SIZE \<and> n = rfc8446_nonce iv seq"
  by (cases "length iv = TLS13_IV_SIZE") (auto simp: make_iv_eq, simp add: make_iv_def)

lemma rfc8446_nonce_inject:
  assumes "length iv = TLS13_IV_SIZE"
  shows "rfc8446_nonce iv seq = rfc8446_nonce iv seq' \<longleftrightarrow> seq = seq'"
proof
  assume "rfc8446_nonce iv seq = rfc8446_nonce iv seq'"
  then have "replicate (length iv - 8) 0 @ u64_to_be_bytes seq
           = replicate (length iv - 8) 0 @ u64_to_be_bytes seq'"
    unfolding rfc8446_nonce_def
    by (rule map2_xor_cancel [rotated 2]) (simp_all add: assms TLS13_IV_SIZE_def)
  then show "seq = seq'" by (simp add: u64_to_be_bytes_def)
qed simp

section \<open>Lemmas on key updates\<close>

text \<open>
  The keys a codec of either role must hold for given traffic secrets: each side sends under its
  own role's secret and receives under the other's.
\<close>

definition keyed :: "TrafficSecrets \<Rightarrow> bool \<Rightarrow> TlsAeadCodec \<Rightarrow> bool" where
  "keyed ts is_server c \<longleftrightarrow>
     expand_client_secret (crypto_provider c) (hash c) (client_secret ts) [] (cipher c)
       = Ok (if is_server then (recv_key c, recv_iv c) else (send_key c, send_iv c)) \<and>
     expand_server_secret (crypto_provider c) (hash c) (server_secret ts) [] (cipher c)
       = Ok (if is_server then (send_key c, send_iv c) else (recv_key c, recv_iv c))"

lemma TlsAeadCodec_new_Ok:
  assumes "TlsAeadCodec_new C is_server ts [] h alg = Ok c"
  shows "keyed ts is_server c" "send_seq c = 0" "recv_seq c = 0" "crypto_provider c = C"
    "cipher c = alg" "hash c = h" "max_frame_size c = TLS_MAX_RECORD_SIZE"
  using assms
  by (cases is_server; auto simp: TlsAeadCodec_new_def keyed_def generate_keys_Ok)+

lemma update_traffic_secrets_frame:
  assumes "TlsAeadCodec_update_traffic_secrets c u is_server = (r, c')"
  shows "send_seq c' = send_seq c" "recv_seq c' = recv_seq c" "cipher c' = cipher c"
    "hash c' = hash c" "max_frame_size c' = max_frame_size c" "crypto_provider c' = crypto_provider c"
  using assms
  by (cases u; auto simp: bindS_def split: res.splits prod.splits if_splits)+

lemma update_traffic_secrets_error:
  assumes "TlsAeadCodec_update_traffic_secrets c u is_server = (r, c')" and "r \<noteq> Ok ()"
  shows "c' = c"
  using assms by (cases u; auto simp: bindS_def split: res.splits prod.splits if_splits)

lemma update_traffic_secrets_keyed:
  assumes "keyed ts is_server c"
    and "TlsAeadCodec_update_traffic_secrets c u is_server = (Ok (), c')"
  shows "keyed (TrafficSecrets_update ts u) is_server c'"
  using assms by (cases u) (auto simp: keyed_def bindS_eq_Ok)

lemma update_traffic_secrets_again:
  assumes "TlsAeadCodec_update_traffic_secrets c u is_server = (Ok (), c')"
  shows "TlsAeadCodec_update_traffic_secrets c' u is_server = (Ok (), c')"
  using assms by (cases u; cases is_server) (auto simp: bindS_eq_Ok)

section \<open>The record channel\<close>

text \<open>
  Sealing one record is one iteration of the encryption loop; opening one is decrypting a
  ciphertext with the header its frame carries.  Two codecs are linked when the receiving half
  of one mirrors the sending half of the other, over an AEAD that is correct.
\<close>

definition seal_record :: "bool \<Rightarrow> TlsAeadCodec \<Rightarrow> bytes \<Rightarrow> (TlsAeadCodecError, bytes, TlsAeadCodec) outcome" where
  "seal_record oc self chunk =
     bindS (encrypt_chunk self chunk, self) (\<lambda>encrypted self.
     bindS (add_u64 oc (send_seq self) 1, self) (\<lambda>seq self. (Ok encrypted, self\<lparr>send_seq := seq\<rparr>)))"

definition open_record :: "bool \<Rightarrow> TlsAeadCodec \<Rightarrow> bytes \<Rightarrow> (TlsAeadCodecError, bytes, TlsAeadCodec) outcome" where
  "open_record oc self ciphertext =
     TlsAeadCodec_decrypt oc self ciphertext (record_header (length ciphertext))"

definition linked :: "TlsAeadCodec \<Rightarrow> TlsAeadCodec \<Rightarrow> bool" where
  "linked s r \<longleftrightarrow>
     aead_correct (crypto_provider s) (cipher s) \<and>
     crypto_provider r = crypto_provider s \<and> cipher r = cipher s \<and>
     recv_key r = send_key s \<and> recv_iv r = send_iv s \<and> recv_seq r = send_seq s"

lemma encrypt_chunk_Ok_iff:
  "encrypt_chunk self chunk = Ok ct \<longleftrightarrow>
   length (send_iv self) = TLS13_IV_SIZE \<and>
   aead_encrypt (crypto_provider self) (cipher self) (send_key self) (chunk @ [TLS_APP_DATA])
     (rfc8446_nonce (send_iv self) (send_seq self))
     (record_header (length chunk + tag_size (crypto_provider self) (cipher self) + 1)) = Ok ct"
  by (auto simp: encrypt_chunk_def Let_def make_iv_Ok_iff record_header_def)

lemma seal_record_Ok_iff:
  "seal_record oc self chunk = (Ok ct, self') \<longleftrightarrow>
   encrypt_chunk self chunk = Ok ct \<and>
   (\<exists>seq. add_u64 oc (send_seq self) 1 = (Ok seq :: (TlsAeadCodecError, u64) res) \<and>
          self' = self\<lparr>send_seq := seq\<rparr>)"
  by (auto simp: seal_record_def bindS_eq_Ok)

interpretation record_channel: channel "seal_record oc" "open_record oc" linked for oc
proof unfold_locales
  fix s r p c s'
  assume l: "linked s r" and sealed: "seal_record oc s p = (Ok c, s')"
  from sealed obtain seq where enc: "encrypt_chunk s p = Ok c"
    and seq: "add_u64 oc (send_seq s) 1 = (Ok seq :: (TlsAeadCodecError, u64) res)"
    and s': "s' = s\<lparr>send_seq := seq\<rparr>"
    by (auto simp: seal_record_Ok_iff)
  from enc l have
    "aead_decrypt (crypto_provider s) (cipher s) (send_key s) c
       (rfc8446_nonce (send_iv s) (send_seq s))
       (record_header (length p + tag_size (crypto_provider s) (cipher s) + 1)) = Ok (p @ [TLS_APP_DATA])"
    and len: "length c = length p + 1 + tag_size (crypto_provider s) (cipher s)"
    by (auto simp: encrypt_chunk_Ok_iff linked_def aead_correct_def)
  then have "aead_decrypt (crypto_provider s) (cipher s) (send_key s) c
       (rfc8446_nonce (send_iv s) (send_seq s)) (record_header (length c)) = Ok (p @ [TLS_APP_DATA])"
    by (simp add: ac_simps)
  moreover have "length (send_iv s) = TLS13_IV_SIZE" using enc by (simp add: encrypt_chunk_Ok_iff)
  ultimately show "\<exists>r'. open_record oc r c = (Ok p, r') \<and> linked s' r'"
    using l seq s' by (auto simp: open_record_def TlsAeadCodec_decrypt_def linked_def make_iv_eq)
qed

lemma encrypt_loop_seal_all:
  "encrypt_loop oc cs (self, buf) = (Ok (), (self', buf')) \<longleftrightarrow>
   (\<exists>cts. seal_all (seal_record oc) self cs = (Ok cts, self') \<and> buf' = buf @ cts)"
proof (induction cs arbitrary: self buf)
  case Nil
  show ?case by auto
next
  case (Cons c cs)
  show ?case
    by (auto simp: bindS_eq_Ok Cons.IH seal_record_Ok_iff)
qed

lemma TlsAeadCodec_encrypt_Ok_iff:
  "TlsAeadCodec_encrypt oc self dat buf = (Ok (), (self', buf')) \<longleftrightarrow>
   max_frame_size self \<noteq> 0 \<and>
   (\<exists>cts. seal_all (seal_record oc) self (chunks (unat (max_frame_size self)) dat) = (Ok cts, self')
         \<and> buf' = buf @ cts)"
  by (simp add: TlsAeadCodec_encrypt_def encrypt_loop_seal_all)

lemma seal_record_frame:
  "seal_record oc self chunk = (Ok ct, self') \<Longrightarrow>
   self' = self\<lparr>send_seq := send_seq self + 1\<rparr>"
  by (auto simp: seal_record_Ok_iff dest: add_u64_Ok_D)

lemma seal_all_frame:
  "seal_all (seal_record oc) self cs = (Ok cts, self') \<Longrightarrow>
   self' = self\<lparr>send_seq := send_seq self + of_nat (length cs)\<rparr>"
proof (induction cs arbitrary: self cts)
  case Nil
  then show ?case by simp
next
  case (Cons c cs)
  from Cons.prems obtain ct self1 cts' where
    1: "seal_record oc self c = (Ok ct, self1)" and
    2: "seal_all (seal_record oc) self1 cs = (Ok cts', self')"
    by (auto simp: bindS_eq_Ok)
  from Cons.IH [OF 2] seal_record_frame [OF 1] show ?case
    by (simp add: ac_simps)
qed

lemma seal_all_nth:
  assumes "seal_all (seal_record oc) self cs = (Ok cts, self')" and "i < length cs"
  shows "encrypt_chunk (self\<lparr>send_seq := send_seq self + of_nat i\<rparr>) (cs ! i) = Ok (cts ! i)"
  using assms
proof (induction cs arbitrary: self cts i)
  case Nil
  then show ?case by simp
next
  case (Cons c cs)
  from Cons.prems(1) obtain ct self1 cts' where
    1: "seal_record oc self c = (Ok ct, self1)" and
    2: "seal_all (seal_record oc) self1 cs = (Ok cts', self')" and 3: "cts = ct # cts'"
    by (auto simp: bindS_eq_Ok)
  show ?case
  proof (cases i)
    case 0
    with 1 3 show ?thesis by (simp add: seal_record_Ok_iff)
  next
    case (Suc j)
    with Cons.IH [OF 2, of j] Cons.prems(2) seal_record_frame [OF 1] 3 show ?thesis
      by (simp add: ac_simps)
  qed
qed

lemma seal_all_lengths:
  assumes "aead_correct (crypto_provider self) (cipher self)"
    and "seal_all (seal_record oc) self cs = (Ok cts, self')" and "ct \<in> set cts"
  shows "\<exists>c \<in> set cs. length ct = length c + 1 + tag_size (crypto_provider self) (cipher self)"
proof -
  from assms(3) obtain i where i: "i < length cts" "ct = cts ! i" by (auto simp: in_set_conv_nth)
  then have "i < length cs" using seal_all_length [OF assms(2)] by simp
  from seal_all_nth [OF assms(2) this] i(2) assms(1) \<open>i < length cs\<close> show ?thesis
    by (intro bexI [of _ "cs ! i"]) (auto simp: encrypt_chunk_Ok_iff aead_correct_def)
qed

lemma record_nonces_distinct:
  assumes "length iv = TLS13_IV_SIZE" and "n \<le> 2 ^ 64"
  shows "distinct (map (\<lambda>i. rfc8446_nonce iv (seq + of_nat i)) [0..<n])"
proof -
  have "inj_on (\<lambda>i. seq + of_nat i :: u64) {0..<n}"
    using assms(2) by (auto simp: inj_on_def word_of_nat_eq_iff take_bit_nat_eq_self)
  then show ?thesis
    using assms(1) by (auto simp: distinct_map inj_on_def rfc8446_nonce_inject)
qed

lemma seal_all_map: "seal_all f s (map g xs) = seal_all (\<lambda>s x. f s (g x)) s xs"
  by (induction xs arbitrary: s) simp_all

lemma unat_TLS_MAX_RECORD_SIZE [simp]: "unat TLS_MAX_RECORD_SIZE = 32768"
  by (simp add: TLS_MAX_RECORD_SIZE_def push_bit_eq_mult)

lemma TLS_MAX_RECORD_SIZE_neq_0 [simp]: "TLS_MAX_RECORD_SIZE \<noteq> 0"
  by (simp add: TLS_MAX_RECORD_SIZE_def push_bit_eq_mult)

text \<open>A sender and a receiver over the symbolic provider, at which the properties are applied.\<close>

definition sym_codec :: "u64 \<Rightarrow> TlsAeadCodec" where
  "sym_codec seq = \<lparr>send_key = [1, 2], send_iv = [1, 2, 3, 4, 5, 6, 7, 8, 9, 10, 11, 12],
     recv_key = [1, 2], recv_iv = [1, 2, 3, 4, 5, 6, 7, 8, 9, 10, 11, 12],
     send_seq = seq, recv_seq = seq, cipher = Aes256Gcm, hash = Sha2_512,
     max_frame_size = TLS_MAX_RECORD_SIZE, crypto_provider = sym_crypto\<rparr>"

lemma linked_sym_codec: "linked (sym_codec n) (sym_codec n)"
  by (simp add: linked_def sym_codec_def)

abbreviation sym_ciphertexts :: "bytes list" where
  "sym_ciphertexts \<equiv> snd (snd (TlsAeadCodec_encrypt True (sym_codec 0) [5, 6] []))"

lemma sym_codec_encrypt:
  "TlsAeadCodec_encrypt True (sym_codec 0) [5, 6] [] =
   (Ok (), (sym_codec 0\<lparr>send_seq := 1\<rparr>, sym_ciphertexts))"
  by (simp add: TlsAeadCodec_encrypt_def sym_codec_def chunks_short encrypt_chunk_def make_iv_eq
      TLS13_IV_SIZE_def sym_aead_encrypt_def add_u64_def Let_def)

section \<open>Properties\<close>

text \<open>
  C6. The record layer delivers what was sent: when the receiving half of one codec mirrors the
  sending half of the other, the ciphertexts that one \<^verbatim>\<open>encrypt\<close> call produces, framed by the
  frame codec and cut into reads anywhere by the network, are decoded and decrypted to pieces
  whose concatenation is the plaintext, and the two codecs mirror each other afterwards.
\<close>

theorem record_layer_end_to_end:
  assumes "linked s r" and "max_frame_size s = TLS_MAX_RECORD_SIZE"
    and "tag_size (crypto_provider s) (cipher s) = TLS_AEAD_TAG_SIZE"
    and "TlsAeadCodec_encrypt oc s dat [] = (Ok (), (s', cts))"
    and "concat reads = encode_all cts"
  shows "\<exists>pkts plains r'. feed [] reads = (pkts, []) \<and>
    open_all (\<lambda>c p. TlsAeadCodec_decrypt oc c (data p) (header p)) r pkts = (Ok plains, r') \<and>
    concat plains = dat \<and> linked s' r'"
proof -
  from assms(2,4) have sealed: "seal_all (seal_record oc) s (chunks 32768 dat) = (Ok cts, s')"
    by (simp add: TlsAeadCodec_encrypt_Ok_iff)
  obtain r' where r': "open_all (open_record oc) r cts = (Ok (chunks 32768 dat), r')" "linked s' r'"
    using record_channel.open_all_seal_all [OF assms(1) sealed] by blast
  have "\<forall>ct \<in> set cts. length ct < 65536"
    using assms(1,3) seal_all_lengths [OF _ sealed] chunks_length_le [of _ 32768 dat]
    by (fastforce simp: linked_def TLS_AEAD_TAG_SIZE_def)
  then have "feed [] reads = (map (\<lambda>d. packet d) cts, [])"
    using assms(5) by (simp add: feed_eq_decode_all decode_all_incomplete decode_short TLS_HDR_SIZE_def
        encode_all_eq decode_all_frames)
  with r' show ?thesis by (auto simp: seal_all_map open_record_def [abs_def])
qed

theorem record_layer_end_to_end_witness:
  "\<exists>pkts plains r'. feed [] [encode_all sym_ciphertexts] = (pkts, []) \<and>
    open_all (\<lambda>c p. TlsAeadCodec_decrypt True c (data p) (header p)) (sym_codec 0) pkts = (Ok plains, r') \<and>
    concat plains = [5, 6] \<and> linked (sym_codec 0\<lparr>send_seq := 1\<rparr>) r'"
  by (rule record_layer_end_to_end [OF linked_sym_codec _ _ sym_codec_encrypt])
    (simp_all add: sym_codec_def TLS_AEAD_TAG_SIZE_def)

text \<open>
  C24. The nonce construction is that of RFC 8446: for a twelve-byte IV it is the IV exclusive-or the
  zero-padded big-endian sequence number; any other IV length is refused.
\<close>

theorem make_iv_is_rfc8446_nonce:
  "make_iv iv seq = (if length iv = TLS13_IV_SIZE then Ok (rfc8446_nonce iv seq) else Err InvalidLength)"
  by (simp add: make_iv_eq) (simp add: make_iv_def)

text \<open>A run of \<^verbatim>\<open>encrypt\<close> calls on one codec, each into an empty buffer.\<close>

definition encrypt_message :: "bool \<Rightarrow> TlsAeadCodec \<Rightarrow> bytes \<Rightarrow> (TlsAeadCodecError, bytes list, TlsAeadCodec) outcome" where
  "encrypt_message oc c dat =
     (case TlsAeadCodec_encrypt oc c dat [] of (r, (c, buf)) \<Rightarrow> (res_bind r (\<lambda>_. Ok buf), c))"

lemma encrypt_message_Ok_iff:
  "encrypt_message oc c dat = (Ok cts, c') \<longleftrightarrow>
   max_frame_size c \<noteq> 0 \<and>
   seal_all (seal_record oc) c (chunks (unat (max_frame_size c)) dat) = (Ok cts, c')"
  using TlsAeadCodec_encrypt_Ok_iff [of oc c dat "[]" c' cts]
  by (auto simp: encrypt_message_def split: prod.splits)

lemma encrypt_messages_seal_all:
  "seal_all (encrypt_message oc) c ms = (Ok ctss, c') \<Longrightarrow>
   seal_all (seal_record oc) c (concat (map (chunks (unat (max_frame_size c))) ms)) = (Ok (concat ctss), c')"
proof (induction ms arbitrary: c ctss)
  case Nil
  then show ?case by simp
next
  case (Cons m ms)
  from Cons.prems obtain cts c1 ctss' where
    1: "encrypt_message oc c m = (Ok cts, c1)" and
    2: "seal_all (encrypt_message oc) c1 ms = (Ok ctss', c')" and 3: "ctss = cts # ctss'"
    by (auto simp: bindS_eq_Ok)
  from 1 have "max_frame_size c1 = max_frame_size c"
    by (auto simp: encrypt_message_Ok_iff dest: seal_all_frame)
  with Cons.IH [OF 2] 1 3 show ?case
    by (simp add: encrypt_message_Ok_iff seal_all_append)
qed

lemma seal_all_no_overflow:
  "seal_all (seal_record True) c cs = (Ok cts, c') \<Longrightarrow> cs \<noteq> [] \<Longrightarrow>
   unat (send_seq c) + length cs < 2 ^ 64"
proof (induction cs arbitrary: c cts)
  case Nil
  then show ?case by simp
next
  case (Cons x cs)
  from Cons.prems obtain ct c1 cts' where
    1: "seal_record True c x = (Ok ct, c1)" and
    2: "seal_all (seal_record True) c1 cs = (Ok cts', c')"
    by (auto simp: bindS_eq_Ok)
  from 1 have lt: "unat (send_seq c) + 1 < 2 ^ 64"
    by (auto simp: seal_record_Ok_iff add_u64_def split: if_splits)
  from seal_record_frame [OF 1] lt have "unat (send_seq c1) = unat (send_seq c) + 1"
    by (simp add: unat_add_u64)
  with Cons.IH [OF 2] lt show ?case by (cases "cs = []") auto
qed

text \<open>
  C7. Nonces are never reused under one key: over any run of \<^verbatim>\<open>encrypt\<close> calls that succeeds, each
  record is the AEAD encryption of its piece of plaintext, followed by the type byte, under the
  codec's key, with its own nonce and with the record header as associated data, and the nonces of
  the run are pairwise different.  With overflow checks this needs no bound (the codec panics before
  the counter wraps); without them it holds for up to \<open>2 ^ 64\<close> records.
\<close>

theorem nonces_never_repeat:
  assumes "seal_all (encrypt_message oc) c ms = (Ok ctss, c')"
    and "oc \<or> length (concat ctss) \<le> 2 ^ 64"
  shows "\<exists>nonces pieces. distinct nonces \<and> length nonces = length (concat ctss) \<and>
    pieces = concat (map (chunks (unat (max_frame_size c))) ms) \<and> length pieces = length (concat ctss) \<and>
    send_seq c' = send_seq c + of_nat (length (concat ctss)) \<and>
    (\<forall>i < length (concat ctss).
       aead_encrypt (crypto_provider c) (cipher c) (send_key c) (pieces ! i @ [TLS_APP_DATA]) (nonces ! i)
         (record_header (length (pieces ! i) + tag_size (crypto_provider c) (cipher c) + 1))
         = Ok (concat ctss ! i))"
proof -
  let ?pieces = "concat (map (chunks (unat (max_frame_size c))) ms)"
  let ?cts = "concat ctss"
  let ?nonces = "map (\<lambda>i. rfc8446_nonce (send_iv c) (send_seq c + of_nat i)) [0..<length ?cts]"
  note sealed = encrypt_messages_seal_all [OF assms(1)]
  have len: "length ?cts = length ?pieces" by (rule seal_all_length [OF sealed])
  have enc: "encrypt_chunk (c\<lparr>send_seq := send_seq c + of_nat i\<rparr>) (?pieces ! i) = Ok (?cts ! i)"
    if "i < length ?cts" for i
    using seal_all_nth [OF sealed, of i] that len by simp
  have "distinct ?nonces"
  proof (cases "?cts = []")
    case False
    have "length (send_iv c) = TLS13_IV_SIZE"
      using enc [of 0] False by (simp add: encrypt_chunk_Ok_iff)
    moreover have "length ?cts \<le> 2 ^ 64"
    proof (cases oc)
      case True
      have "?pieces \<noteq> []" using len False by (metis length_0_conv)
      then have "unat (send_seq c) + length ?pieces < 2 ^ 64"
        using sealed True by (intro seal_all_no_overflow) simp_all
      then show ?thesis using len by simp
    qed (use assms(2) in simp)
    ultimately show ?thesis by (rule record_nonces_distinct)
  qed simp
  moreover have "\<forall>i < length ?cts.
       aead_encrypt (crypto_provider c) (cipher c) (send_key c) (?pieces ! i @ [TLS_APP_DATA]) (?nonces ! i)
         (record_header (length (?pieces ! i) + tag_size (crypto_provider c) (cipher c) + 1))
         = Ok (?cts ! i)"
    using enc by (auto simp: encrypt_chunk_Ok_iff)
  moreover have "send_seq c' = send_seq c + of_nat (length ?cts)"
    using seal_all_frame [OF sealed] len by simp
  ultimately show ?thesis using len by (intro exI [of _ ?nonces] exI [of _ ?pieces]) simp
qed

lemma sym_encrypt_message:
  "encrypt_message True (sym_codec 0) [5, 6] = (Ok sym_ciphertexts, sym_codec 0\<lparr>send_seq := 1\<rparr>)"
  by (subst encrypt_message_def) (subst sym_codec_encrypt, simp)

theorem nonces_never_repeat_witness:
  "\<exists>nonces pieces. distinct nonces \<and> length nonces = length (concat [sym_ciphertexts]) \<and>
    pieces = concat (map (chunks (unat (max_frame_size (sym_codec 0)))) [[5, 6]]) \<and>
    length pieces = length (concat [sym_ciphertexts]) \<and>
    send_seq (sym_codec 0\<lparr>send_seq := 1\<rparr>) = send_seq (sym_codec 0) + of_nat (length (concat [sym_ciphertexts])) \<and>
    (\<forall>i < length (concat [sym_ciphertexts]).
       aead_encrypt (crypto_provider (sym_codec 0)) (cipher (sym_codec 0)) (send_key (sym_codec 0))
         (pieces ! i @ [TLS_APP_DATA]) (nonces ! i)
         (record_header (length (pieces ! i) + tag_size (crypto_provider (sym_codec 0)) (cipher (sym_codec 0)) + 1))
         = Ok (concat [sym_ciphertexts] ! i))"
proof -
  have "seal_all (encrypt_message True) (sym_codec 0) [[5, 6]] = (Ok [sym_ciphertexts], sym_codec 0\<lparr>send_seq := 1\<rparr>)"
    by (simp add: sym_encrypt_message)
  from nonces_never_repeat [OF this] show ?thesis by simp
qed

text \<open>A run of secret updates on a codec of one role.\<close>

definition update_run :: "bool \<Rightarrow> TlsAeadCodec \<Rightarrow> SecretUpdate list \<Rightarrow> (TlsAeadCodecError, unit list, TlsAeadCodec) outcome" where
  "update_run is_server c us = seal_all (\<lambda>c u. TlsAeadCodec_update_traffic_secrets c u is_server) c us"

lemma update_run_frame:
  assumes "update_run is_server c us = (Ok xs, c')"
  shows "send_seq c' = send_seq c \<and> recv_seq c' = recv_seq c \<and> cipher c' = cipher c \<and>
    hash c' = hash c \<and> crypto_provider c' = crypto_provider c"
  using assms unfolding update_run_def
proof (induction us arbitrary: c xs)
  case Nil
  then show ?case by simp
next
  case (Cons u us)
  from Cons.prems obtain c1 xs' where
    1: "TlsAeadCodec_update_traffic_secrets c u is_server = (Ok (), c1)" and
    2: "seal_all (\<lambda>c u. TlsAeadCodec_update_traffic_secrets c u is_server) c1 us = (Ok xs', c')"
    by (auto simp: bindS_eq_Ok)
  from Cons.IH [OF 2] update_traffic_secrets_frame [OF 1] show ?case by simp
qed

lemma update_run_keyed:
  assumes "keyed ts is_server c" and "update_run is_server c us = (Ok xs, c')"
  shows "keyed (foldl TrafficSecrets_update ts us) is_server c'"
  using assms unfolding update_run_def
proof (induction us arbitrary: c ts xs)
  case Nil
  then show ?case by simp
next
  case (Cons u us)
  from Cons.prems(2) obtain c1 xs' where
    1: "TlsAeadCodec_update_traffic_secrets c u is_server = (Ok (), c1)" and
    2: "seal_all (\<lambda>c u. TlsAeadCodec_update_traffic_secrets c u is_server) c1 us = (Ok xs', c')"
    by (auto simp: bindS_eq_Ok)
  from Cons.IH [OF update_traffic_secrets_keyed [OF Cons.prems(1) 1] 2] show ?case by simp
qed

lemma keyed_linked:
  assumes "keyed ts False c" and "keyed ts True s"
    and "crypto_provider s = crypto_provider c" "cipher s = cipher c" "hash s = hash c"
    and "send_seq c = recv_seq s" "send_seq s = recv_seq c"
    and "aead_correct (crypto_provider c) (cipher c)"
  shows "linked c s \<and> linked s c"
  using assms by (auto simp: keyed_def linked_def)

text \<open>
  C18. Both ends derive matching keys: a client codec and a server codec built from the same traffic
  secrets mirror each other in both directions, and keep mirroring each other through every
  sequence of secret updates (client, server or both) that both apply, each in its own role.
\<close>

theorem roles_derive_matching_keys:
  assumes "aead_correct C alg"
    and "TlsAeadCodec_new C False ts [] h alg = Ok c" and "TlsAeadCodec_new C True ts [] h alg = Ok s"
    and "update_run False c us = (Ok xs, c')" and "update_run True s us = (Ok ys, s')"
  shows "linked c' s' \<and> linked s' c'"
proof (rule keyed_linked)
  show "keyed (foldl TrafficSecrets_update ts us) False c'"
    by (rule update_run_keyed [OF TlsAeadCodec_new_Ok(1) [OF assms(2)] assms(4)])
  show "keyed (foldl TrafficSecrets_update ts us) True s'"
    by (rule update_run_keyed [OF TlsAeadCodec_new_Ok(1) [OF assms(3)] assms(5)])
qed (use assms(1) update_run_frame [OF assms(4)] update_run_frame [OF assms(5)]
      TlsAeadCodec_new_Ok [OF assms(2)] TlsAeadCodec_new_Ok [OF assms(3)] in simp_all)

definition sym_secrets :: TrafficSecrets where
  "sym_secrets = \<lparr>client_secret = ClientSecret [1], server_secret = ServerSecret [2]\<rparr>"

lemma sym_crypto_expands:
  "\<exists>k iv. expand_client_secret sym_crypto h cs [] a = Ok (k, iv)"
  "\<exists>k iv. expand_server_secret sym_crypto h ss [] a = Ok (k, iv)"
  by (simp_all add: expand_client_secret_def expand_server_secret_def hdkf_expand_label_eq
      hkdf_label_ok_def sym_expand_def TLS13_IV_SIZE_def)

lemma sym_crypto_new: "\<exists>c. TlsAeadCodec_new sym_crypto is_server ts [] h a = Ok c"
proof -
  obtain ck civ sk siv where
    "expand_client_secret sym_crypto h (client_secret ts) [] a = Ok (ck, civ)"
    "expand_server_secret sym_crypto h (server_secret ts) [] a = Ok (sk, siv)"
    using sym_crypto_expands by blast
  then show ?thesis by (cases is_server) (simp_all add: TlsAeadCodec_new_def generate_keys_def)
qed

lemma sym_crypto_update:
  assumes "crypto_provider c = sym_crypto"
  shows "\<exists>c'. TlsAeadCodec_update_traffic_secrets c u is_server = (Ok (), c')"
proof -
  have "\<exists>k. expand_client_secret (crypto_provider c) (hash c) cs [] (cipher c) = Ok k"
    "\<exists>k. expand_server_secret (crypto_provider c) (hash c) ss [] (cipher c) = Ok k" for cs ss
    using sym_crypto_expands assms by metis+
  then obtain ck sk where
    "\<And>cs. expand_client_secret (crypto_provider c) (hash c) cs [] (cipher c) = Ok (ck cs)"
    "\<And>ss. expand_server_secret (crypto_provider c) (hash c) ss [] (cipher c) = Ok (sk ss)"
    by metis
  then show ?thesis by (cases u) (simp_all add: case_prod_beta)
qed

theorem roles_derive_matching_keys_witness:
  "\<exists>c s c' s'. TlsAeadCodec_new sym_crypto False sym_secrets [] Sha2_512 Aes256Gcm = Ok c \<and>
     TlsAeadCodec_new sym_crypto True sym_secrets [] Sha2_512 Aes256Gcm = Ok s \<and>
     update_run False c [ClientSecretUpdate (ClientSecret [7])] = (Ok [()], c') \<and>
     update_run True s [ClientSecretUpdate (ClientSecret [7])] = (Ok [()], s') \<and> linked c' s' \<and> linked s' c'"
proof -
  obtain c s where
    n: "TlsAeadCodec_new sym_crypto False sym_secrets [] Sha2_512 Aes256Gcm = Ok c"
       "TlsAeadCodec_new sym_crypto True sym_secrets [] Sha2_512 Aes256Gcm = Ok s"
    using sym_crypto_new by blast
  obtain c' where c': "TlsAeadCodec_update_traffic_secrets c (ClientSecretUpdate (ClientSecret [7])) False = (Ok (), c')"
    using sym_crypto_update TlsAeadCodec_new_Ok(4) [OF n(1)] by blast
  obtain s' where s': "TlsAeadCodec_update_traffic_secrets s (ClientSecretUpdate (ClientSecret [7])) True = (Ok (), s')"
    using sym_crypto_update TlsAeadCodec_new_Ok(4) [OF n(2)] by blast
  have u: "update_run False c [ClientSecretUpdate (ClientSecret [7])] = (Ok [()], c')"
    "update_run True s [ClientSecretUpdate (ClientSecret [7])] = (Ok [()], s')"
    using c' s' by (simp_all add: update_run_def)
  from roles_derive_matching_keys [OF aead_correct_sym_crypto n u] n u show ?thesis by blast
qed

lemma TlsAeadCodec_decrypt_Err: "TlsAeadCodec_decrypt oc c ct ad = (Err e, c') \<Longrightarrow> c' = c"
  by (auto simp: TlsAeadCodec_decrypt_def bindS_eq_Err split: if_splits)

text \<open>
  C25. A record that fails authentication costs nothing: the receiving codec is unchanged, so the
  sender's next genuine record is still decrypted to its plaintext, and the error that is reported
  is the crypto provider's.
\<close>

theorem rejected_record_keeps_synchronisation:
  assumes "linked s r" and "TlsAeadCodec_decrypt oc r forged ad = (Err e, r1)"
    and "seal_record oc s p = (Ok ct, s')"
  shows "r1 = r \<and> (\<exists>ce. e = AeadCryptoError ce) \<and>
    (\<exists>r'. TlsAeadCodec_decrypt oc r1 ct (record_header (length ct)) = (Ok p, r') \<and> linked s' r')"
proof -
  from assms(2) have "r1 = r" by (rule TlsAeadCodec_decrypt_Err)
  moreover from assms(2) have "\<exists>ce. e = AeadCryptoError ce"
    by (auto simp: TlsAeadCodec_decrypt_def bindS_eq_Err split: if_splits)
  ultimately show ?thesis
    using record_channel.open_seal [OF assms(1,3)] by (simp add: open_record_def)
qed

lemma sym_seal_record:
  assumes "crypto_provider c = sym_crypto" "length (send_iv c) = TLS13_IV_SIZE"
    and "\<not> oc \<or> send_seq c = 0"
  shows "\<exists>ct. seal_record oc c p = (Ok ct, c\<lparr>send_seq := send_seq c + 1\<rparr>)"
  using assms by (auto simp: seal_record_def encrypt_chunk_def make_iv_eq sym_aead_encrypt_def add_u64_def Let_def)

lemma sym_seal_all:
  assumes "crypto_provider c = sym_crypto" "length (send_iv c) = TLS13_IV_SIZE"
  shows "\<exists>cts c'. seal_all (seal_record False) c cs = (Ok cts, c')"
  using assms
proof (induction cs arbitrary: c)
  case (Cons p cs)
  obtain ct where ct: "seal_record False c p = (Ok ct, c\<lparr>send_seq := send_seq c + 1\<rparr>)"
    using sym_seal_record [of c False p] Cons.prems by auto
  moreover obtain cts c' where "seal_all (seal_record False) (c\<lparr>send_seq := send_seq c + 1\<rparr>) cs = (Ok cts, c')"
    using Cons.IH [of "c\<lparr>send_seq := send_seq c + 1\<rparr>"] Cons.prems by auto
  ultimately show ?case by simp
qed simp

lemma sym_codec_seal: "\<exists>ct s'. seal_record True (sym_codec 0) p = (Ok ct, s')"
  using sym_seal_record [of "sym_codec 0" True p] by (auto simp: sym_codec_def TLS13_IV_SIZE_def)

theorem rejected_record_keeps_synchronisation_witness:
  "\<exists>ct s'. seal_record True (sym_codec 0) [5] = (Ok ct, s') \<and>
    TlsAeadCodec_decrypt True (sym_codec 0) [0] [] = (Err (AeadCryptoError (CryptoOther 0)), sym_codec 0) \<and>
    (\<exists>r'. TlsAeadCodec_decrypt True (sym_codec 0) ct (record_header (length ct)) = (Ok [5], r') \<and> linked s' r')"
proof -
  obtain ct s' where s: "seal_record True (sym_codec 0) [5] = (Ok ct, s')"
    using sym_codec_seal by blast
  have f: "TlsAeadCodec_decrypt True (sym_codec 0) [0] [] = (Err (AeadCryptoError (CryptoOther 0)), sym_codec 0)"
    by (simp add: TlsAeadCodec_decrypt_def sym_codec_def make_iv_eq TLS13_IV_SIZE_def sym_aead_decrypt_def)
  from rejected_record_keeps_synchronisation [OF linked_sym_codec f s] s f show ?thesis by blast
qed

lemma encrypt_with_header_loop_Ok_iff:
  "encrypt_with_header_loop oc cs (c, frames) = (Ok out, (c', frames')) \<longleftrightarrow>
   out = frames' \<and>
   (\<exists>cts. seal_all (seal_record oc) c cs = (Ok cts, c') \<and> frames' = frames @ map (\<lambda>ct. frame ct) cts)"
proof (induction cs arbitrary: c frames)
  case Nil
  show ?case by auto
next
  case (Cons x cs)
  show ?case
    by (auto simp: bindS_eq_Ok Cons.IH seal_record_Ok_iff Let_def record_header_def)
qed

text \<open>
  C30. \<^verbatim>\<open>encrypt_with_header\<close> is \<^verbatim>\<open>encrypt\<close> followed by framing: one succeeds exactly when the other
  does, the codec ends in the same state, and the frames are the ciphertexts with the header that
  the frame codec would put in front of them.
\<close>

theorem encrypt_with_header_is_encrypt_then_frame:
  "TlsAeadCodec_encrypt_with_header oc c dat = (Ok frames, c') \<longleftrightarrow>
   (\<exists>cts. TlsAeadCodec_encrypt oc c dat [] = (Ok (), (c', cts)) \<and>
          frames = map (\<lambda>ct. snd (TlsFrameCodec_encode ct [])) cts)"
proof -
  have "TlsAeadCodec_encrypt_with_header oc c dat = (Ok frames, c') \<longleftrightarrow> max_frame_size c \<noteq> 0 \<and>
    (\<exists>fs. encrypt_with_header_loop oc (chunks (unat (max_frame_size c)) dat) (c, []) = (Ok frames, (c', fs)))"
    by (auto simp: TlsAeadCodec_encrypt_with_header_def split: prod.splits)
  then show ?thesis
    by (auto simp: TlsAeadCodec_encrypt_Ok_iff encrypt_with_header_loop_Ok_iff TlsFrameCodec_encode_eq)
qed

text \<open>
  C39. \<^verbatim>\<open>decrypt_with_header\<close> returns an empty message for every record of the minimal size (22 bytes)
  without authenticating it and without counting it: whatever bytes the record holds it is
  accepted, and a genuine empty record leaves the receiver one sequence number behind the sender.
\<close>

theorem minimal_record_not_authenticated:
  assumes "length record = MIN_RECORD_SIZE"
    and "linked s r" and "seal_record oc s [] = (Ok ct, s')"
    and "tag_size (crypto_provider s) (cipher s) = TLS_AEAD_TAG_SIZE"
  shows "TlsAeadCodec_decrypt_with_header oc r record = (Ok [], r) \<and>
    TlsAeadCodec_decrypt_with_header oc r (record_header (length ct) @ ct) = (Ok [], r) \<and> \<not> linked s' r"
proof -
  have "length ct = TLS_AEAD_TAG_SIZE + 1"
    using assms(2,3,4) by (auto simp: seal_record_Ok_iff encrypt_chunk_Ok_iff linked_def aead_correct_def)
  moreover have "send_seq s' \<noteq> recv_seq r"
    using seal_record_frame [OF assms(3)] assms(2) by (simp add: linked_def)
  ultimately show ?thesis
    using assms(1) by (auto simp: TlsAeadCodec_decrypt_with_header_def MIN_RECORD_SIZE_def linked_def)
qed

theorem minimal_record_not_authenticated_witness:
  "\<exists>ct s'. seal_record True (sym_codec 0) [] = (Ok ct, s') \<and>
    TlsAeadCodec_decrypt_with_header True (sym_codec 0) (replicate 22 0) = (Ok [], sym_codec 0) \<and>
    TlsAeadCodec_decrypt_with_header True (sym_codec 0) (record_header (length ct) @ ct) = (Ok [], sym_codec 0) \<and>
    \<not> linked s' (sym_codec 0)"
proof -
  obtain ct s' where s: "seal_record True (sym_codec 0) [] = (Ok ct, s')"
    using sym_codec_seal by blast
  from minimal_record_not_authenticated [OF _ linked_sym_codec s, of "replicate 22 0"] s show ?thesis
    by (auto simp: MIN_RECORD_SIZE_def TLS_HDR_SIZE_def TLS_AEAD_TAG_SIZE_def sym_codec_def)
qed

end
