(* ===== verification/Stream_Sink.thy ===== *)
theory Stream_Sink
  imports Tls_Aead
begin

text \<open>
  \<^verbatim>\<open>src/tls_aead/stream_sink.rs\<close>: the poll-based sink and stream that put the codec between the
  program and the framed transport.  The transport underneath is a type parameter of the source
  (any \<^verbatim>\<open>Sink\<close> and \<^verbatim>\<open>Stream\<close>), so it is the parameter \<open>S\<close> here: four, respectively one,
  state-passing functions.  The lemmas show that the sink hands every record to the transport
  exactly once and in order, however often the transport is not ready, and what is lost when it
  fails.
\<close>

section \<open>Polling, transports and the shared cipher\<close>

datatype 'a poll = Ready 'a | Pending

record 'i sink =
  sink_poll_ready :: "'i \<Rightarrow> (io_error, unit) res poll \<times> 'i"
  sink_start_send :: "'i \<Rightarrow> bytes \<Rightarrow> (io_error, unit) res \<times> 'i"
  sink_poll_flush :: "'i \<Rightarrow> (io_error, unit) res poll \<times> 'i"
  sink_poll_close :: "'i \<Rightarrow> (io_error, unit) res poll \<times> 'i"

type_synonym 'i stream_next = "'i \<Rightarrow> (io_error, TlsPacketIn) res option poll \<times> 'i"

text \<open>
  \<^verbatim>\<open>Arc<Mutex<TlsAeadCodec>>\<close> is shared by the sink and the stream of a connection: it is passed
  to and returned by every operation that locks it.  A panic while the lock is held poisons it.
\<close>

record 'a mutex =
  contents :: 'a
  poisoned :: bool

datatype TlsAeadSinkError =
    EncryptionFailed TlsAeadCodecError
  | SinkIoError io_error
  | PoisonedLock
  | Backpressure

text \<open>Locking, running a critical section and unlocking.\<close>

definition with_lock ::
    "'a mutex \<Rightarrow> 'b \<Rightarrow> ('a \<Rightarrow> 'b \<Rightarrow> (TlsAeadSinkError, 'r, 'a \<times> 'b) outcome)
       \<Rightarrow> (TlsAeadSinkError, 'r, 'a mutex \<times> 'b) outcome" where
  "with_lock m b f =
     (if poisoned m then (Err PoisonedLock, (m, b))
      else case f (contents m) b of
        (r, (a, b)) \<Rightarrow> (r, (\<lparr>contents = a, poisoned = (r = Panic)\<rparr>, b)))"

section \<open>The sink\<close>

record 'i TlsAeadSink =
  sink_inner :: 'i
  buffer :: "bytes list"

definition TlsAeadSink_new :: "'i \<Rightarrow> 'i TlsAeadSink" where
  "TlsAeadSink_new i = \<lparr>sink_inner = i, buffer = []\<rparr>"

definition TlsAeadSink_update_traffic_secrets ::
    "TlsAeadCodec mutex \<Rightarrow> SecretUpdate \<Rightarrow> bool \<Rightarrow> (TlsAeadSinkError, unit, TlsAeadCodec mutex) outcome" where
  "TlsAeadSink_update_traffic_secrets m u is_server =
     (case with_lock m () (\<lambda>c _. case TlsAeadCodec_update_traffic_secrets c u is_server of
                                   (r, c) \<Rightarrow> (map_err EncryptionFailed r, (c, ()))) of
        (r, (m, _)) \<Rightarrow> (r, m))"

text \<open>
  The loop of \<^verbatim>\<open>try_empty_buffer\<close>: pop the front item, hand it to the transport, and wait for the
  transport again only if something is left.
\<close>

fun empty_buffer_loop ::
    "'i sink \<Rightarrow> 'i \<Rightarrow> bytes list \<Rightarrow> (TlsAeadSinkError, unit) res poll \<times> 'i TlsAeadSink" where
  "empty_buffer_loop S i [] = (Ready (Ok ()), \<lparr>sink_inner = i, buffer = []\<rparr>)"
| "empty_buffer_loop S i (item # buf) =
     (case sink_start_send S i item of
        (Err e, i) \<Rightarrow> (Ready (Err (SinkIoError e)), \<lparr>sink_inner = i, buffer = buf\<rparr>)
      | (Panic, i) \<Rightarrow> (Ready Panic, \<lparr>sink_inner = i, buffer = buf\<rparr>)
      | (Ok _, i) \<Rightarrow>
          if buf = [] then empty_buffer_loop S i buf
          else (case sink_poll_ready S i of
                  (Pending, i) \<Rightarrow> (Pending, \<lparr>sink_inner = i, buffer = buf\<rparr>)
                | (Ready (Err e), i) \<Rightarrow> (Ready (Err (SinkIoError e)), \<lparr>sink_inner = i, buffer = buf\<rparr>)
                | (Ready Panic, i) \<Rightarrow> (Ready Panic, \<lparr>sink_inner = i, buffer = buf\<rparr>)
                | (Ready (Ok _), i) \<Rightarrow> empty_buffer_loop S i buf))"

definition TlsAeadSink_try_empty_buffer ::
    "'i sink \<Rightarrow> 'i TlsAeadSink \<Rightarrow> (TlsAeadSinkError, unit) res poll \<times> 'i TlsAeadSink" where
  "TlsAeadSink_try_empty_buffer S self =
     (case sink_poll_ready S (sink_inner self) of
        (Pending, i) \<Rightarrow> (Pending, self\<lparr>sink_inner := i\<rparr>)
      | (Ready (Err e), i) \<Rightarrow> (Ready (Err (SinkIoError e)), self\<lparr>sink_inner := i\<rparr>)
      | (Ready Panic, i) \<Rightarrow> (Ready Panic, self\<lparr>sink_inner := i\<rparr>)
      | (Ready (Ok _), i) \<Rightarrow> empty_buffer_loop S i (buffer self))"

text \<open>
  \<^verbatim>\<open>poll_ready\<close>, \<^verbatim>\<open>poll_flush\<close> and \<^verbatim>\<open>poll_close\<close>: empty the buffer first, then poll the transport
  the same way.
\<close>

definition empty_then_poll ::
    "'i sink \<Rightarrow> ('i \<Rightarrow> (io_error, unit) res poll \<times> 'i) \<Rightarrow> 'i TlsAeadSink
       \<Rightarrow> (TlsAeadSinkError, unit) res poll \<times> 'i TlsAeadSink" where
  "empty_then_poll S poll_inner self =
     (case TlsAeadSink_try_empty_buffer S self of
        (Ready (Ok _), self) \<Rightarrow>
          (case poll_inner (sink_inner self) of
             (Ready r, i) \<Rightarrow> (Ready (map_err SinkIoError r), self\<lparr>sink_inner := i\<rparr>)
           | (Pending, i) \<Rightarrow> (Pending, self\<lparr>sink_inner := i\<rparr>))
      | (p, self) \<Rightarrow> (p, self))"

definition TlsAeadSink_poll_ready ::
    "'i sink \<Rightarrow> 'i TlsAeadSink \<Rightarrow> (TlsAeadSinkError, unit) res poll \<times> 'i TlsAeadSink" where
  "TlsAeadSink_poll_ready S self = empty_then_poll S (sink_poll_ready S) self"

definition TlsAeadSink_poll_flush ::
    "'i sink \<Rightarrow> 'i TlsAeadSink \<Rightarrow> (TlsAeadSinkError, unit) res poll \<times> 'i TlsAeadSink" where
  "TlsAeadSink_poll_flush S self = empty_then_poll S (sink_poll_flush S) self"

definition TlsAeadSink_poll_close ::
    "'i sink \<Rightarrow> 'i TlsAeadSink \<Rightarrow> (TlsAeadSinkError, unit) res poll \<times> 'i TlsAeadSink" where
  "TlsAeadSink_poll_close S self = empty_then_poll S (sink_poll_close S) self"

text \<open>
  \<^verbatim>\<open>start_send\<close>.  The flag \<open>oc\<close> also stands for \<^verbatim>\<open>debug-assertions\<close> (Cargo switches the two
  together unless told otherwise): with it a non-empty buffer is a panic, before the lock is taken.
\<close>

definition TlsAeadSink_start_send ::
    "bool \<Rightarrow> TlsAeadCodec mutex \<times> 'i TlsAeadSink \<Rightarrow> bytes
       \<Rightarrow> (TlsAeadSinkError, unit, TlsAeadCodec mutex \<times> 'i TlsAeadSink) outcome" where
  "TlsAeadSink_start_send oc st item =
     (case st of (m, self) \<Rightarrow>
        if oc \<and> buffer self \<noteq> [] then (Panic, (m, self))
        else with_lock m self (\<lambda>c self.
          case TlsAeadCodec_encrypt oc c item (buffer self) of
            (r, (c, buf)) \<Rightarrow> (map_err EncryptionFailed r, (c, self\<lparr>buffer := buf\<rparr>))))"

section \<open>The stream\<close>

definition TlsAeadStream_update_traffic_secrets ::
    "TlsAeadCodec mutex \<Rightarrow> SecretUpdate \<Rightarrow> bool \<Rightarrow> (TlsAeadSinkError, unit, TlsAeadCodec mutex) outcome" where
  "TlsAeadStream_update_traffic_secrets m u is_server =
     (case with_lock m () (\<lambda>c _. case TlsAeadCodec_update_traffic_secrets c u is_server of
                                   (r, c) \<Rightarrow> (map_err EncryptionFailed r, (c, ()))) of
        (r, (m, _)) \<Rightarrow> (r, m))"

definition TlsAeadStream_poll_next ::
    "bool \<Rightarrow> 'i stream_next \<Rightarrow> TlsAeadCodec mutex \<times> 'i
       \<Rightarrow> (TlsAeadSinkError, TlsPacketIn) res option poll \<times> TlsAeadCodec mutex \<times> 'i" where
  "TlsAeadStream_poll_next oc S st =
     (case st of (m, i) \<Rightarrow>
        (case S i of
           (Pending, i) \<Rightarrow> (Pending, (m, i))
         | (Ready None, i) \<Rightarrow> (Ready None, (m, i))
         | (Ready (Some (Err e)), i) \<Rightarrow> (Ready (Some (Err (SinkIoError e))), (m, i))
         | (Ready (Some Panic), i) \<Rightarrow> (Ready (Some Panic), (m, i))
         | (Ready (Some (Ok pkt)), i) \<Rightarrow>
             (case with_lock m i (\<lambda>c i.
                case TlsAeadCodec_decrypt oc c (data pkt) (header pkt) of
                  (r, c) \<Rightarrow> (map_err EncryptionFailed
                              (res_bind r (\<lambda>plaintext. Ok (pkt\<lparr>data := plaintext\<rparr>))), (c, i))) of
                (r, st) \<Rightarrow> (Ready (Some r), st))))"

section \<open>What reaches the transport\<close>

text \<open>
  Any transport with a log of the items it accepted.  The log observes the sink from outside: it
  holds for every transport, with no assumption on when it is ready or fails.
\<close>

definition recording :: "'i sink \<Rightarrow> ('i \<times> bytes list) sink" where
  "recording S =
     \<lparr>sink_poll_ready = (\<lambda>(i, log). case sink_poll_ready S i of (p, i) \<Rightarrow> (p, (i, log))),
      sink_start_send = (\<lambda>(i, log) item. case sink_start_send S i item of
                           (r, i) \<Rightarrow> (r, (i, if is_ok r then log @ [item] else log))),
      sink_poll_flush = (\<lambda>(i, log). case sink_poll_flush S i of (p, i) \<Rightarrow> (p, (i, log))),
      sink_poll_close = (\<lambda>(i, log). case sink_poll_close S i of (p, i) \<Rightarrow> (p, (i, log)))\<rparr>"

lemma recording_sel [simp]:
  "sink_poll_ready (recording S) (i, log) = (fst (sink_poll_ready S i), (snd (sink_poll_ready S i), log))"
  "sink_start_send (recording S) (i, log) item =
     (fst (sink_start_send S i item),
      (snd (sink_start_send S i item), if is_ok (fst (sink_start_send S i item)) then log @ [item] else log))"
  "sink_poll_flush (recording S) (i, log) = (fst (sink_poll_flush S i), (snd (sink_poll_flush S i), log))"
  "sink_poll_close (recording S) (i, log) = (fst (sink_poll_close S i), (snd (sink_poll_close S i), log))"
  by (simp_all add: recording_def split: prod.splits)

abbreviation delivered :: "('i \<times> bytes list) TlsAeadSink \<Rightarrow> bytes list" where
  "delivered k \<equiv> snd (sink_inner k)"

text \<open>
  The account of one poll: accepted items, then at most one item lost (only when the poll fails),
  then what stays buffered; success means that nothing stays buffered.
\<close>

definition accounted ::
    "bytes list \<Rightarrow> (TlsAeadSinkError, unit) res poll \<Rightarrow> ('i \<times> bytes list) TlsAeadSink \<Rightarrow> bool" where
  "accounted items p k \<longleftrightarrow>
     (\<exists>lost. delivered k @ lost @ buffer k = items \<and> length lost \<le> 1 \<and>
        (p = Pending \<or> p = Ready (Ok ()) \<longrightarrow> lost = []) \<and> (p = Ready (Ok ()) \<longrightarrow> buffer k = []))"

lemma accounted_no_loss: "delivered k @ buffer k = items \<Longrightarrow> p \<noteq> Ready (Ok ()) \<Longrightarrow> accounted items p k"
  by (auto simp: accounted_def intro!: exI [of _ "[]"])

lemma empty_buffer_loop_accounted:
  "empty_buffer_loop (recording S) (i, log) buf = (p, k) \<Longrightarrow> accounted (log @ buf) p k"
proof (induction buf arbitrary: i log p k)
  case Nil
  then show ?case by (auto simp: accounted_def)
next
  case (Cons item buf)
  obtain r i1 where r: "sink_start_send S i item = (r, i1)" by fastforce
  show ?case
  proof (cases r)
    case (Ok u)
    obtain q i2 where q: "sink_poll_ready S i1 = (q, i2)" by fastforce
    show ?thesis
    proof (cases "buf = [] \<or> (\<exists>u. q = Ready (Ok u))")
      case True
      then obtain j where "empty_buffer_loop (recording S) (j, log @ [item]) buf = (p, k)"
        using Cons.prems r Ok q by (auto split: if_splits)
      from Cons.IH [OF this] show ?thesis by simp
    next
      case False
      with Cons.prems r Ok q show ?thesis
        by (intro accounted_no_loss) (auto split: poll.splits res.splits)
    qed
  next
    case (Err e)
    with Cons.prems r show ?thesis by (auto simp: accounted_def intro!: exI [of _ "[item]"])
  next
    case Panic
    with Cons.prems r show ?thesis by (auto simp: accounted_def intro!: exI [of _ "[item]"])
  qed
qed

lemma try_empty_buffer_accounted:
  assumes "TlsAeadSink_try_empty_buffer (recording S) k = (p, k')"
  shows "accounted (delivered k @ buffer k) p k'"
proof -
  obtain i log where i: "sink_inner k = (i, log)" by fastforce
  obtain q j where q: "sink_poll_ready S i = (q, j)" by fastforce
  show ?thesis
  proof (cases "\<exists>u. q = Ready (Ok u)")
    case True
    with assms i q show ?thesis
      by (auto simp: TlsAeadSink_try_empty_buffer_def dest: empty_buffer_loop_accounted)
  next
    case False
    with assms i q show ?thesis
      by (intro accounted_no_loss)
        (auto simp: TlsAeadSink_try_empty_buffer_def split: poll.splits res.splits)
  qed
qed

lemma empty_then_poll_accounted:
  assumes "empty_then_poll (recording S) g k = (p, k')"
    and "\<And>i log. snd (snd (g (i, log))) = log"
  shows "accounted (delivered k @ buffer k) p k'"
proof -
  obtain q k1 where q: "TlsAeadSink_try_empty_buffer (recording S) k = (q, k1)" by fastforce
  note acc = try_empty_buffer_accounted [OF q]
  show ?thesis
  proof (cases "\<exists>u. q = Ready (Ok u)")
    case True
    then have b: "buffer k1 = []" "delivered k1 = delivered k @ buffer k"
      using acc by (auto simp: accounted_def)
    obtain i log where i: "sink_inner k1 = (i, log)" by fastforce
    have "delivered k' = delivered k1 \<and> buffer k' = []"
      using assms(1) assms(2) [of i log] True q i b(1)
      by (auto simp: empty_then_poll_def split: prod.splits poll.splits)
    then show ?thesis using b by (auto simp: accounted_def intro!: exI [of _ "[]"])
  next
    case False
    with assms(1) q have "p = q" "k' = k1"
      by (auto simp: empty_then_poll_def split: poll.splits res.splits)
    with acc show ?thesis by simp
  qed
qed

lemmas sink_polls_accounted =
  empty_then_poll_accounted [of S "sink_poll_ready (recording S)" for S, folded TlsAeadSink_poll_ready_def]
  empty_then_poll_accounted [of S "sink_poll_flush (recording S)" for S, folded TlsAeadSink_poll_flush_def]
  empty_then_poll_accounted [of S "sink_poll_close (recording S)" for S, folded TlsAeadSink_poll_close_def]

lemma poll_ready_accounted:
  "TlsAeadSink_poll_ready (recording S) k = (p, k') \<Longrightarrow> accounted (delivered k @ buffer k) p k'"
  "TlsAeadSink_poll_flush (recording S) k = (p, k') \<Longrightarrow> accounted (delivered k @ buffer k) p k'"
  "TlsAeadSink_poll_close (recording S) k = (p, k') \<Longrightarrow> accounted (delivered k @ buffer k) p k'"
  by (rule sink_polls_accounted, assumption, simp)+

section \<open>Runs of the sink\<close>

text \<open>
  A run of the sink of one connection between two key updates: polls that succeed or are pending
  and sends that succeed, in any order.  The third component collects the messages sent.
\<close>

type_synonym 'i sink_state = "TlsAeadCodec mutex \<times> ('i \<times> bytes list) TlsAeadSink \<times> bytes list"

inductive sink_step :: "bool \<Rightarrow> 'i sink \<Rightarrow> 'i sink_state \<Rightarrow> 'i sink_state \<Rightarrow> bool" for oc S where
  poll_ready: "TlsAeadSink_poll_ready (recording S) k = (p, k') \<Longrightarrow> p = Pending \<or> p = Ready (Ok ()) \<Longrightarrow>
     sink_step oc S (m, k, msgs) (m, k', msgs)"
| start_send: "TlsAeadSink_start_send oc (m, k) msg = (Ok (), (m', k')) \<Longrightarrow>
     sink_step oc S (m, k, msgs) (m', k', msgs @ [msg])"
| poll_flush: "TlsAeadSink_poll_flush (recording S) k = (p, k') \<Longrightarrow> p = Pending \<or> p = Ready (Ok ()) \<Longrightarrow>
     sink_step oc S (m, k, msgs) (m, k', msgs)"
| poll_close: "TlsAeadSink_poll_close (recording S) k = (p, k') \<Longrightarrow> p = Pending \<or> p = Ready (Ok ()) \<Longrightarrow>
     sink_step oc S (m, k, msgs) (m, k', msgs)"

inductive sink_run :: "bool \<Rightarrow> 'i sink \<Rightarrow> 'i sink_state \<Rightarrow> 'i sink_state \<Rightarrow> bool" for oc S where
  refl: "sink_run oc S st st"
| step: "sink_run oc S st st' \<Longrightarrow> sink_step oc S st' st'' \<Longrightarrow> sink_run oc S st st''"

text \<open>
  The invariant: what the transport accepted, followed by what is buffered, is what the codec
  produced from its initial state for the messages sent so far.
\<close>

fun sink_inv :: "bool \<Rightarrow> TlsAeadCodec \<Rightarrow> 'i sink_state \<Rightarrow> bool" where
  "sink_inv oc c (m, k, msgs) \<longleftrightarrow>
     (\<exists>ctss. seal_all (encrypt_message oc) c msgs = (Ok ctss, contents m) \<and>
            concat ctss = delivered k @ buffer k)"

lemma accounted_ok:
  "accounted items p k \<Longrightarrow> p = Pending \<or> p = Ready (Ok ()) \<Longrightarrow> delivered k @ buffer k = items"
  by (auto simp: accounted_def)

lemma start_send_Ok:
  assumes "TlsAeadSink_start_send oc (m, k) msg = (Ok (), (m', k'))"
  shows "\<exists>cts. encrypt_message oc (contents m) msg = (Ok cts, contents m') \<and>
    k' = k\<lparr>buffer := buffer k @ cts\<rparr>"
proof -
  obtain c buf where e: "TlsAeadCodec_encrypt oc (contents m) msg (buffer k) = (Ok (), (c, buf))"
    and m': "contents m' = c" "k' = k\<lparr>buffer := buf\<rparr>"
    using assms
    by (auto simp: TlsAeadSink_start_send_def with_lock_def split: if_splits prod.splits)
  then show ?thesis
    by (auto simp: TlsAeadCodec_encrypt_Ok_iff encrypt_message_Ok_iff)
qed

lemma sink_step_inv: "sink_step oc S st st' \<Longrightarrow> sink_inv oc c st \<Longrightarrow> sink_inv oc c st'"
proof (induction rule: sink_step.induct)
  case (start_send m k msg m' k' msgs)
  obtain cts where "encrypt_message oc (contents m) msg = (Ok cts, contents m')"
    "k' = k\<lparr>buffer := buffer k @ cts\<rparr>"
    using start_send_Ok [OF start_send.hyps] by blast
  with start_send.prems show ?case by (auto simp: seal_all_append)
qed (use accounted_ok poll_ready_accounted in \<open>fastforce+\<close>)

lemma sink_run_inv: "sink_run oc S st st' \<Longrightarrow> sink_inv oc c st \<Longrightarrow> sink_inv oc c st'"
  by (induction rule: sink_run.induct) (auto dest: sink_step_inv)

lemma encrypt_message_pieces:
  "seal_all (encrypt_message oc) c msgs = (Ok ctss, c') \<Longrightarrow>
   concat (concat (map (chunks (unat (max_frame_size c))) msgs)) = concat msgs"
proof (induction msgs arbitrary: c ctss)
  case Nil
  then show ?case by simp
next
  case (Cons m ms)
  from Cons.prems obtain cts c1 ctss' where
    1: "encrypt_message oc c m = (Ok cts, c1)" and
    2: "seal_all (encrypt_message oc) c1 ms = (Ok ctss', c')"
    by (auto simp: bindS_eq_Ok)
  from 1 have "max_frame_size c1 = max_frame_size c" "0 < unat (max_frame_size c)"
    by (auto simp: encrypt_message_Ok_iff unat_gt_0 dest: seal_all_frame)
  with Cons.IH [OF 2] show ?case by simp
qed

section \<open>Properties\<close>


definition ready_sink :: "unit sink" where
  "ready_sink = \<lparr>sink_poll_ready = (\<lambda>i. (Ready (Ok ()), i)), sink_start_send = (\<lambda>i item. (Ok (), i)),
     sink_poll_flush = (\<lambda>i. (Ready (Ok ()), i)), sink_poll_close = (\<lambda>i. (Ready (Ok ()), i))\<rparr>"

lemma sym_sink_run:
  "sink_run True ready_sink (\<lparr>contents = sym_codec 0, poisoned = False\<rparr>, TlsAeadSink_new ((), []), [])
     (\<lparr>contents = sym_codec 0\<lparr>send_seq := 1\<rparr>, poisoned = False\<rparr>,
      \<lparr>sink_inner = ((), []), buffer = sym_ciphertexts\<rparr>, [[5, 6]])"
proof (rule sink_run.step [OF sink_run.refl], rule sink_step.start_send [where msgs = "[]", simplified])
  show "TlsAeadSink_start_send True (\<lparr>contents = sym_codec 0, poisoned = False\<rparr>, TlsAeadSink_new ((), [])) [5, 6] =
    (Ok (), \<lparr>contents = sym_codec 0\<lparr>send_seq := 1\<rparr>, poisoned = False\<rparr>, \<lparr>sink_inner = ((), []), buffer = sym_ciphertexts\<rparr>)"
    by (simp add: TlsAeadSink_start_send_def TlsAeadSink_new_def with_lock_def) (subst sym_codec_encrypt, simp)
qed



text \<open>A transport that refuses every item.\<close>

definition broken_sink :: "unit sink" where
  "broken_sink = ready_sink\<lparr>sink_start_send := (\<lambda>i item. (Err (IoOther ''broken pipe''), i))\<rparr>"


end
