(* ===== verification/Async.thy ===== *)
theory Async
  imports Stream_Sink
begin

text \<open>
  Asynchronous calls.  An \<^verbatim>\<open>async\<close> function of the source is a state-passing function that may never
  complete: \<open>None\<close>.  Awaiting a poll function polls it until it is ready; between two polls the
  transport, which is part of the state, moves on by itself.  \<open>sink_send\<close> is \<^verbatim>\<open>SinkExt::send\<close> of the
  \<^verbatim>\<open>futures\<close> crate as documented: wait until the sink is ready, hand over the item, flush.
\<close>

type_synonym ('e, 'a, 's) run = "('e, 'a, 's) outcome option"

partial_function (option) await_poll :: "('st \<Rightarrow> 'a poll \<times> 'st) \<Rightarrow> 'st \<Rightarrow> ('a \<times> 'st) option" where
  "await_poll p st =
     (case p st of (Ready x, st) \<Rightarrow> Some (x, st) | (Pending, st) \<Rightarrow> await_poll p st)"

declare await_poll.simps [code]

text \<open>The question mark after an \<^verbatim>\<open>await\<close>.\<close>

definition bindA :: "('e, 'a, 's) run \<Rightarrow> ('a \<Rightarrow> 's \<Rightarrow> ('e, 'b, 's) run) \<Rightarrow> ('e, 'b, 's) run" where
  "bindA m f =
     Option.bind m (\<lambda>(r, s). case r of Ok x \<Rightarrow> f x s | Err e \<Rightarrow> Some (Err e, s) | Panic \<Rightarrow> Some (Panic, s))"

lemma bindA_simps [simp]:
  "bindA None f = None"
  "bindA (Some (Ok x, s)) f = f x s"
  "bindA (Some (Err e, s)) f = Some (Err e, s)"
  "bindA (Some (Panic, s)) f = Some (Panic, s)"
  by (simp_all add: bindA_def)

lemma bindA_eq_Ok:
  "bindA m f = Some (Ok y, t) \<longleftrightarrow> (\<exists>x s. m = Some (Ok x, s) \<and> f x s = Some (Ok y, t))"
proof (cases m)
  case (Some rs)
  then show ?thesis by (cases rs; cases "fst rs") auto
qed simp

lemma bindA_mono [partial_function_mono]:
  assumes "\<And>x s. mono_option (\<lambda>f. C x s f)"
  shows "mono_option (\<lambda>f. bindA m (\<lambda>x s. C x s f))"
proof (cases m)
  case None
  then show ?thesis by (simp add: partial_function_mono)
next
  case (Some rs)
  then show ?thesis
    by (cases rs; cases "fst rs") (use assms in \<open>auto simp: partial_function_mono\<close>)
qed

lemma await_poll_ready [simp]: "p st = (Ready x, st') \<Longrightarrow> await_poll p st = Some (x, st')"
  by (subst await_poll.simps) simp

lemma await_poll_pending: "p st = (Pending, st') \<Longrightarrow> await_poll p st = await_poll p st'"
  by (subst await_poll.simps) simp

text \<open>The poll that completes an await, with what the pending polls before it keep.\<close>

lemma await_poll_until:
  assumes "await_poll p st = Some (x, st')" "I st" "\<And>s s'. I s \<Longrightarrow> p s = (Pending, s') \<Longrightarrow> I s'"
  shows "\<exists>s. I s \<and> p s = (Ready x, st')"
proof -
  let ?P = "\<lambda>p st r. I st \<longrightarrow> (\<forall>s s'. I s \<longrightarrow> p s = (Pending, s') \<longrightarrow> I s') \<longrightarrow>
    (\<exists>s. I s \<and> p s = (Ready (fst r), snd r))"
  have "?P p st (x, st')"
  proof (rule await_poll.raw_induct [OF _ assms(1), where P = ?P])
    fix await p st r
    assume hyp: "\<And>p st r. await p st = Some r \<Longrightarrow> ?P p st r"
      and step: "(case p st of (Ready x, st) \<Rightarrow> Some (x, st) | (Pending, st) \<Rightarrow> await p st) = Some r"
    show "?P p st r"
    proof (cases "fst (p st)")
      case (Ready y)
      with step show ?thesis by (cases "p st") auto
    next
      case Pending
      then obtain st1 where "p st = (Pending, st1)" by (metis prod.collapse)
      with step hyp [of p st1 r] show ?thesis by auto
    qed
  qed
  with assms(2,3) show ?thesis by auto
qed

definition sink_send ::
    "('st \<Rightarrow> ('e, unit) res poll \<times> 'st) \<Rightarrow> ('st \<Rightarrow> 'i \<Rightarrow> ('e, unit, 'st) outcome)
       \<Rightarrow> ('st \<Rightarrow> ('e, unit) res poll \<times> 'st) \<Rightarrow> 'i \<Rightarrow> 'st \<Rightarrow> ('e, unit, 'st) run" where
  "sink_send poll_ready start_send poll_flush item st =
     bindA (await_poll poll_ready st) (\<lambda>_ st.
     bindA (Some (start_send st item)) (\<lambda>_ st. await_poll poll_flush st))"

text \<open>Converting the error of an awaited call, and a poll function that acts on a part of the state.\<close>

definition run_as :: "('e \<Rightarrow> 'f) \<Rightarrow> ('e, 'a, 's) run \<Rightarrow> ('f, 'a, 's) run" where
  "run_as conv m = map_option (\<lambda>(r, s). (map_err conv r, s)) m"

lemma run_as_Ok [simp]: "run_as conv m = Some (Ok x, s) \<longleftrightarrow> m = Some (Ok x, s)"
  by (auto simp: run_as_def)

definition poll_at :: "('st \<Rightarrow> 'p) \<Rightarrow> ('p \<Rightarrow> 'st \<Rightarrow> 'st) \<Rightarrow> ('p \<Rightarrow> 'a poll \<times> 'p) \<Rightarrow> 'st \<Rightarrow> 'a poll \<times> 'st" where
  "poll_at get put p st = (case p (get st) of (r, x) \<Rightarrow> (r, put x st))"

lemma await_poll_at:
  assumes "await_poll (poll_at get put p) st = Some (x, st')"
    and "\<And>y s. get (put y s) = y" "\<And>y z s. put y (put z s) = put y s"
  shows "\<exists>y. await_poll p (get st) = Some (x, y) \<and> st' = put y st"
proof -
  let ?P = "\<lambda>q s r. q = poll_at get put p \<longrightarrow> (\<exists>y. await_poll p (get s) = Some (fst r, y) \<and> snd r = put y s)"
  have "?P (poll_at get put p) st (x, st')"
  proof (rule await_poll.raw_induct [OF _ assms(1), where P = ?P])
    fix await q s r
    assume hyp: "\<And>q s r. await q s = Some r \<Longrightarrow> ?P q s r"
      and step: "(case q s of (Ready x, s) \<Rightarrow> Some (x, s) | (Pending, s) \<Rightarrow> await q s) = Some r"
    show "?P q s r"
    proof
      assume q: "q = poll_at get put p"
      show "\<exists>y. await_poll p (get s) = Some (fst r, y) \<and> snd r = put y s"
      proof (cases "p (get s)")
        case (Pair v y)
        show ?thesis
        proof (cases v)
          case (Ready z)
          with Pair q step show ?thesis by (auto simp: poll_at_def)
        next
          case Pending
          with Pair q step have "await q (put y s) = Some r" by (simp add: poll_at_def)
          from hyp [OF this] q assms(2) obtain y' where "await_poll p y = Some (fst r, y')" "snd r = put y' (put y s)"
            by auto
          with Pair Pending show ?thesis by (simp add: await_poll_pending assms(3))
        qed
      qed
    qed
  qed
  then show ?thesis by simp
qed

end
