(* ===== verification/Mls_Handshake.thy ===== *)
theory Mls_Handshake
  imports Client_State Server_State Async
begin

text \<open>
  \<^verbatim>\<open>src/mls_handshake/mod.rs\<close>, the implementation of the traits of \<^verbatim>\<open>src/handshake.rs\<close>: one handshake
  object that runs the client or the server side over a transport and afterwards updates the keys.
  The transport is a type parameter of the source (a \<^verbatim>\<open>Sink\<close> and a \<^verbatim>\<open>Stream\<close>), so it is the parameter
  \<open>X\<close> here: what \<^verbatim>\<open>tx.send(..).await\<close> and \<^verbatim>\<open>rx.next().await\<close> return, if they complete.  The connection,
  shared through a lock in the source, is part of the object.
\<close>

datatype transport_error = TransportIo io_error | TransportSink TlsAeadSinkError

record 't transport =
  tx_send :: "bytes \<Rightarrow> 't \<Rightarrow> (transport_error, unit, 't) run"
  rx_next :: "'t \<Rightarrow> ((transport_error, TlsPacketIn) res option \<times> 't) option"

datatype MlsHandshakeError =
    DecodingError
  | TransportError transport_error
  | MlsHandshakeErr HandshakeError
  | Uninitialized
  | MlsPersistence sql_error
  | SqliteMigration string

datatype 'm MlsHandshakeState =
    NoHandshake
  | ClientSide "'m ClientHandshakeState"
  | ServerSide ServerHandshakeState

record ('s, 'm) MlsHandshake =
  leaf_signer :: SignatureKeyPair
  connection :: "'s Connection"
  hs_state :: "'m MlsHandshakeState"

definition MlsHandshake_new :: "'s Connection \<Rightarrow> SignatureKeyPair \<Rightarrow> ('s, 'm) MlsHandshake" where
  "MlsHandshake_new conn signer = \<lparr>leaf_signer = signer, connection = conn, hs_state = NoHandshake\<rparr>"

definition MlsHandshake_initialize_storage ::
    "('s, 'g, 'm, 'o) openmls \<Rightarrow> 's Connection \<Rightarrow> (MlsHandshakeError, unit, 's Connection) outcome" where
  "MlsHandshake_initialize_storage M conn = err_as MlsHandshakeErr (initialize_storage M conn)"

section \<open>The handshake over a transport\<close>

text \<open>A call on the locked connection, with the question mark's conversion of its error.\<close>

definition on_connection ::
    "('s Connection \<Rightarrow> (HandshakeError, 'a, 's Connection) outcome) \<Rightarrow> ('s, 'm) MlsHandshake \<times> 't
       \<Rightarrow> (MlsHandshakeError, 'a, ('s, 'm) MlsHandshake \<times> 't) run" where
  "on_connection call st =
     (case st of (self, t) \<Rightarrow>
        case call (connection self) of
          (r, conn) \<Rightarrow> Some (map_err MlsHandshakeErr r, (self\<lparr>connection := conn\<rparr>, t)))"

text \<open>\<^verbatim>\<open>tx.send(..).await.map_err(TransportError)?\<close> and \<^verbatim>\<open>let Some(Ok(..)) = rx.next().await else\<close>.\<close>

definition send_message ::
    "'t transport \<Rightarrow> bytes \<Rightarrow> 'h \<times> 't \<Rightarrow> (MlsHandshakeError, unit, 'h \<times> 't) run" where
  "send_message X bs st =
     (case st of (self, t) \<Rightarrow>
        map_option (\<lambda>(r, t). (map_err TransportError r, (self, t))) (tx_send X bs t))"

definition read_message ::
    "'t transport \<Rightarrow> 'h \<times> 't \<Rightarrow> (MlsHandshakeError, bytes, 'h \<times> 't) run" where
  "read_message X st =
     (case st of (self, t) \<Rightarrow>
        map_option (\<lambda>(item, t).
          (case item of
             Some (Ok pkt) \<Rightarrow> Ok (data pkt)
           | Some Panic \<Rightarrow> Panic
           | Some (Err _) \<Rightarrow> Err DecodingError
           | None \<Rightarrow> Err DecodingError, (self, t))) (rx_next X t))"

definition MlsHandshake_server_handshake ::
    "bool \<Rightarrow> 'm tls_codec \<Rightarrow> ('s, 'g, 'm, 'o) openmls \<Rightarrow> 't transport \<Rightarrow> ('s, 'm) MlsHandshake \<times> 't
       \<Rightarrow> (MlsHandshakeError, TrafficSecrets \<times> ClientIdentity, ('s, 'm) MlsHandshake \<times> 't) run" where
  "MlsHandshake_server_handshake oc T M X st =
     bindA (read_message X st) (\<lambda>first_message_bytes st.
     bindA (on_connection (\<lambda>conn. ServerHandshake_start oc T M conn (leaf_signer (fst st)) first_message_bytes) st)
       (\<lambda>(state, traffic_secrets, client_identity, response_bytes) (self, t).
     bindA (send_message X response_bytes (self\<lparr>hs_state := ServerSide state\<rparr>, t)) (\<lambda>_ st.
     Some (Ok (traffic_secrets, client_identity), st))))"

definition MlsHandshake_client_handshake ::
    "'m tls_codec \<Rightarrow> 'm json \<Rightarrow> ('s, 'g, 'm, 'o) openmls \<Rightarrow> 't transport \<Rightarrow> Uuid \<Rightarrow> SignaturePublicKey
       \<Rightarrow> ('s, 'm) MlsHandshake \<times> 't
       \<Rightarrow> (MlsHandshakeError, TrafficSecrets, ('s, 'm) MlsHandshake \<times> 't) run" where
  "MlsHandshake_client_handshake T J M X client_id verifying_key st =
     bindA (on_connection ClientHandshakeState_create_table st) (\<lambda>_ st.
     bindA (on_connection (\<lambda>conn. ClientHandshakeState_delete J M conn client_id) st) (\<lambda>_ st.
     bindA (on_connection (\<lambda>conn.
              ClientHandshake_start T M conn (leaf_signer (fst st)) verifying_key client_id) st)
       (\<lambda>(handshake_state, client_hello) st.
     bindA (send_message X client_hello st) (\<lambda>_ st.
     bindA (read_message X st) (\<lambda>server_hello_bytes st.
     bindA (on_connection (\<lambda>conn. receive_server_hello T M handshake_state conn server_hello_bytes) st)
       (\<lambda>(state, traffic_secrets) st.
     bindA (on_connection (ClientHandshakeState_store J state) st) (\<lambda>_ (self, t).
     Some (Ok traffic_secrets, (self\<lparr>hs_state := ClientSide state\<rparr>, t)))))))))"

section \<open>The completed handshake\<close>

fun MlsHandshake_epoch :: "('s, 'm) MlsHandshake \<Rightarrow> u64" where
  "MlsHandshake_epoch self =
     (case hs_state self of
        NoHandshake \<Rightarrow> 0
      | ClientSide st \<Rightarrow> ClientHandshakeState_epoch st
      | ServerSide st \<Rightarrow> ServerHandshakeState_epoch st)"

definition MlsHandshake_update_handshake ::
    "'m tls_codec \<Rightarrow> 'm json \<Rightarrow> ('s, 'g, 'm, 'o) openmls \<Rightarrow> ('s, 'm) MlsHandshake
       \<Rightarrow> (MlsHandshakeError, SecretUpdate option \<times> bytes, ('s, 'm) MlsHandshake) outcome" where
  "MlsHandshake_update_handshake T J M self =
     (case hs_state self of
        NoHandshake \<Rightarrow> (Err Uninitialized, self)
      | ClientSide st \<Rightarrow>
          (case ClientHandshakeState_update T J M (leaf_signer self) False (st, connection self) of
             (r, (st, conn)) \<Rightarrow>
               (map_err MlsHandshakeErr
                  (res_bind r (\<lambda>(secret, bs). Ok (Some (ClientSecretUpdate secret), bs))),
                self\<lparr>hs_state := ClientSide st, connection := conn\<rparr>))
      | ServerSide st \<Rightarrow>
          (case ServerHandshakeState_update T M (leaf_signer self) False (st, connection self) of
             (r, (st, conn)) \<Rightarrow>
               (map_err MlsHandshakeErr (res_bind r (\<lambda>bs. Ok (None, bs))),
                self\<lparr>hs_state := ServerSide st, connection := conn\<rparr>)))"

definition MlsHandshake_process_signaling_message ::
    "bool \<Rightarrow> 'm tls_codec \<Rightarrow> 'm json \<Rightarrow> ('s, 'g, 'm, 'o) openmls \<Rightarrow> bytes \<Rightarrow> ('s, 'm) MlsHandshake
       \<Rightarrow> (MlsHandshakeError, SecretUpdate option \<times> bytes option, ('s, 'm) MlsHandshake) outcome" where
  "MlsHandshake_process_signaling_message oc T J M message_bytes self =
     (case hs_state self of
        NoHandshake \<Rightarrow> (Err Uninitialized, self)
      | ClientSide st \<Rightarrow>
          (case ClientHandshakeState_receive_signaling_message oc T J M (leaf_signer self) message_bytes
                  (st, connection self) of
             (r, (st, conn)) \<Rightarrow>
               (map_err MlsHandshakeErr r, self\<lparr>hs_state := ClientSide st, connection := conn\<rparr>))
      | ServerSide st \<Rightarrow>
          (case ServerHandshakeState_receive_signaling_message oc T M (leaf_signer self) message_bytes
                  (st, connection self) of
             (r, (st, conn)) \<Rightarrow>
               (map_err MlsHandshakeErr
                  (res_bind r (\<lambda>(traffic_secrets, bs). Ok (Some (Both traffic_secrets), bs))),
                self\<lparr>hs_state := ServerSide st, connection := conn\<rparr>)))"

definition MlsHandshake_delete ::
    "'m json \<Rightarrow> ('s, 'g, 'm, 'o) openmls \<Rightarrow> ('s, 'm) MlsHandshake
       \<Rightarrow> (MlsHandshakeError, unit, ('s, 'm) MlsHandshake) outcome" where
  "MlsHandshake_delete J M self =
     (case hs_state self of
        NoHandshake \<Rightarrow> (Ok (), self)
      | ClientSide st \<Rightarrow>
          (case ClientHandshakeState_delete J M (connection self) (profile_id st) of
             (r, conn) \<Rightarrow> (map_err MlsHandshakeErr r, self\<lparr>connection := conn\<rparr>))
      | ServerSide st \<Rightarrow>
          (case MlsSession_delete M (server_session st) (connection self) of
             (r, conn) \<Rightarrow> (map_err MlsHandshakeErr r, self\<lparr>connection := conn\<rparr>)))"

section \<open>What the handshake says and hears\<close>

text \<open>
  Over any transport the client sends one message and then waits for one, the server waits for one
  and then answers it.
\<close>

lemma on_connection_Ok:
  "on_connection call (self, t) = Some (Ok x, (self', t')) \<longleftrightarrow>
     (\<exists>conn. call (connection self) = (Ok x, conn) \<and> self' = self\<lparr>connection := conn\<rparr> \<and> t' = t)"
  by (cases "call (connection self)") (auto simp: on_connection_def)

lemma send_message_Ok:
  "send_message X bs (hs, t) = Some (Ok u, (hs', t')) \<longleftrightarrow> hs' = hs \<and> tx_send X bs t = Some (Ok u, t')"
  by (auto simp: send_message_def)

lemma read_message_Ok:
  "read_message X (hs, t) = Some (Ok dat, (hs', t')) \<longleftrightarrow>
     hs' = hs \<and> (\<exists>pkt. rx_next X t = Some (Some (Ok pkt), t') \<and> dat = data pkt)"
proof (cases "rx_next X t")
  case (Some it)
  then show ?thesis
  proof (cases "fst it")
    case item: (Some r)
    with Some show ?thesis by (cases it; cases r) (auto simp: read_message_def)
  qed (cases it, simp add: read_message_def)
qed (simp add: read_message_def)

lemmas handshake_calls_Ok = on_connection_Ok send_message_Ok read_message_Ok

lemma client_handshake_talks:
  assumes "MlsHandshake_client_handshake T J M X client_id vk (MlsHandshake_new conn ck, t) = Some (Ok ts, (hs, t'))"
  obtains conn' conn0 wait hello conn1 t1 pkt cst conn2 conn3 where
    "ClientHandshakeState_create_table conn = (Ok (), conn')" "ClientHandshakeState_delete J M conn' client_id = (Ok (), conn0)"
    "ClientHandshake_start T M conn0 ck vk client_id = (Ok (wait, hello), conn1)"
    "tx_send X hello t = Some (Ok (), t1)" "rx_next X t1 = Some (Some (Ok pkt), t')"
    "receive_server_hello T M wait conn1 (data pkt) = (Ok (cst, ts), conn2)"
    "ClientHandshakeState_store J cst conn2 = (Ok (), conn3)"
    "hs = \<lparr>leaf_signer = ck, connection = conn3, hs_state = ClientSide cst\<rparr>"
  using assms
  by (auto simp: MlsHandshake_client_handshake_def bindA_eq_Ok handshake_calls_Ok MlsHandshake_new_def)

lemma server_handshake_talks:
  assumes "MlsHandshake_server_handshake oc T M X (MlsHandshake_new conn sk, t) = Some (Ok (ts, ident), (hs, t'))"
  obtains pkt t1 sst answer conn1 where "rx_next X t = Some (Some (Ok pkt), t1)"
    "ServerHandshake_start oc T M conn sk (data pkt) = (Ok (sst, ts, ident, answer), conn1)"
    "tx_send X answer t1 = Some (Ok (), t')"
    "hs = \<lparr>leaf_signer = sk, connection = conn1, hs_state = ServerSide sst\<rparr>"
  using assms
  by (auto simp: MlsHandshake_server_handshake_def bindA_eq_Ok handshake_calls_Ok MlsHandshake_new_def)

end
