(* ===== verification/Pre_Handshake.thy ===== *)
theory Pre_Handshake
  imports Symbolic_Crypto
begin

text \<open>
  \<^verbatim>\<open>src/pre_handshake\<close>: an optional key agreement before the MLS handshake, and the derivation of
  the first traffic secrets from its result.  The Diffie-Hellman function and the random generator
  are third-party code: \<open>dh\<close> maps a private and a public key to the shared secret, \<open>public_of\<close> a
  private key to its public key, \<open>gen\<close> is what \<^verbatim>\<open>ChaCha20Rng::from_rng(OsRng)\<close> followed by
  \<^verbatim>\<open>random_from_rng\<close> yields.  A socket is what was read from it and what was written to it.
\<close>

definition KEY_SCHEDULE_HASH_FUNCTION :: HashType where "KEY_SCHEDULE_HASH_FUNCTION = Sha2_512"
definition AEAD_ALGORITHM :: AeadType where "AEAD_ALGORITHM = Aes256Gcm"

record HandshakeResult =
  shared_secret :: bytes
  session_id :: "bytes option"

text \<open>
  The two byte streams of a socket: the bytes still to be read, the bytes written, and the error
  that further operations meet, if any.  A read past the end of the stream is an error too.
\<close>

record socket =
  incoming :: bytes
  outgoing :: bytes
  socket_error :: "io_error option"

definition write_all :: "bytes \<Rightarrow> socket \<Rightarrow> (io_error, unit, socket) outcome" where
  "write_all bs s =
     (case socket_error s of
        Some e \<Rightarrow> (Err e, s)
      | None \<Rightarrow> (Ok (), s\<lparr>outgoing := outgoing s @ bs\<rparr>))"

definition read_exact :: "nat \<Rightarrow> socket \<Rightarrow> (io_error, bytes, socket) outcome" where
  "read_exact n s =
     (if n \<le> length (incoming s) then (Ok (take n (incoming s)), s\<lparr>incoming := drop n (incoming s)\<rparr>)
      else (Err (case socket_error s of Some e \<Rightarrow> e | None \<Rightarrow> IoOther ''early eof''), s\<lparr>incoming := []\<rparr>))"

section \<open>Pre-shared key\<close>

record Psk = key :: bytes

definition Psk_new :: "bytes \<Rightarrow> Psk" where
  "Psk_new k = \<lparr>key = k\<rparr>"

definition Psk_client_handshake :: "Psk \<Rightarrow> socket \<Rightarrow> ('e, HandshakeResult, socket) outcome" where
  "Psk_client_handshake self s = (Ok \<lparr>shared_secret = key self, session_id = None\<rparr>, s)"

definition Psk_server_handshake :: "Psk \<Rightarrow> socket \<Rightarrow> ('e, HandshakeResult, socket) outcome" where
  "Psk_server_handshake self s = (Ok \<lparr>shared_secret = key self, session_id = None\<rparr>, s)"

section \<open>X25519\<close>

definition X25519_PUBLIC_KEY_LENGTH :: nat where "X25519_PUBLIC_KEY_LENGTH = 32"

datatype X25519Error = X25519Io io_error | RandomError string

record x25519 =
  public_of :: "bytes \<Rightarrow> bytes"
  dh :: "bytes \<Rightarrow> bytes \<Rightarrow> bytes"

text \<open>What the agreement relies on: Diffie-Hellman commutes, and public keys have 32 bytes.\<close>

definition x25519_ok :: "x25519 \<Rightarrow> bool" where
  "x25519_ok D \<longleftrightarrow> (\<forall>a b. dh D a (public_of D b) = dh D b (public_of D a)) \<and>
     (\<forall>a. length (public_of D a) = X25519_PUBLIC_KEY_LENGTH)"

definition X25519_client_handshake ::
    "x25519 \<Rightarrow> (string, bytes) res \<Rightarrow> socket \<Rightarrow> (X25519Error, HandshakeResult, socket) outcome" where
  "X25519_client_handshake D gen s =
     bindS (map_err RandomError gen, s) (\<lambda>private_key s.
     bindS (case write_all (public_of D private_key) s of (r, s) \<Rightarrow> (map_err X25519Io r, s)) (\<lambda>_ s.
     bindS (case read_exact X25519_PUBLIC_KEY_LENGTH s of (r, s) \<Rightarrow> (map_err X25519Io r, s)) (\<lambda>server_pk s.
     (Ok \<lparr>shared_secret = dh D private_key server_pk, session_id = None\<rparr>, s))))"

definition X25519_server_handshake ::
    "x25519 \<Rightarrow> (string, bytes) res \<Rightarrow> socket \<Rightarrow> (X25519Error, HandshakeResult, socket) outcome" where
  "X25519_server_handshake D gen s =
     bindS (case read_exact X25519_PUBLIC_KEY_LENGTH s of (r, s) \<Rightarrow> (map_err X25519Io r, s)) (\<lambda>client_pk s.
     bindS (map_err RandomError gen, s) (\<lambda>private_key s.
     bindS (case write_all (public_of D private_key) s of (r, s) \<Rightarrow> (map_err X25519Io r, s)) (\<lambda>_ s.
     (Ok \<lparr>shared_secret = dh D private_key client_pk, session_id = None\<rparr>, s))))"

section \<open>Traffic secrets\<close>

definition derive_traffic_secrets :: "crypto \<Rightarrow> bytes \<Rightarrow> (CryptoError, TrafficSecrets) res" where
  "derive_traffic_secrets C base_secret =
     (let secret_len = hash_size C KEY_SCHEDULE_HASH_FUNCTION in
      res_bind (hkdf_extract C KEY_SCHEDULE_HASH_FUNCTION [] base_secret) (\<lambda>intermediate_secret.
      res_bind (hkdf_expand C KEY_SCHEDULE_HASH_FUNCTION intermediate_secret
                  (ascii ''X25519 MLS-TLS Pre-Handshake Client Secret'') secret_len) (\<lambda>client.
      res_bind (hkdf_expand C KEY_SCHEDULE_HASH_FUNCTION intermediate_secret
                  (ascii ''X25519 MLS-TLS Pre-Handshake Server Secret'') secret_len) (\<lambda>server.
      Ok \<lparr>client_secret = ClientSecret client, server_secret = ServerSecret server\<rparr>))))"

end
