(* ===== verification/Update_Policy.thy ===== *)
theory Update_Policy
  imports Channel
begin

text \<open>
  \<^verbatim>\<open>src/encryption_provider/update_policy.rs\<close>: when a key update is due.  Points in time are
  integers (nanoseconds since the epoch) and durations naturals (nanoseconds); the addition of
  the third-party crate \<^verbatim>\<open>chrono\<close>, which panics when the sum is not representable, is the
  parameter \<open>add_duration\<close> (\<open>None\<close> is the panic).
\<close>

type_synonym DateTime = int
type_synonym Duration = nat
type_synonym chrono_add = "DateTime \<Rightarrow> Duration \<Rightarrow> DateTime option"

text \<open>What the policy relies on: a sum that is representable is the sum.\<close>

definition chrono_exact :: "chrono_add \<Rightarrow> bool" where
  "chrono_exact add_duration \<longleftrightarrow> (\<forall>t d t'. add_duration t d = Some t' \<longrightarrow> t' = t + int d)"

section \<open>Types and operations\<close>

record TimeBasedUpdatePolicy =
  duration :: Duration
  last_update :: DateTime

record TrafficBasedUpdatePolicy =
  update_threshold :: u64
  bytes_transferred :: u64

record UpdatePolicy =
  time_based :: "TimeBasedUpdatePolicy option"
  traffic_based :: "TrafficBasedUpdatePolicy option"

text \<open>\<^verbatim>\<open>Utc::now()\<close> of the constructor is its argument \<open>now\<close>.\<close>

definition TimeBasedUpdatePolicy_new :: "DateTime \<Rightarrow> Duration \<Rightarrow> TimeBasedUpdatePolicy" where
  "TimeBasedUpdatePolicy_new now dur = \<lparr>duration = dur, last_update = now\<rparr>"

definition TimeBasedUpdatePolicy_update_is_due ::
    "chrono_add \<Rightarrow> TimeBasedUpdatePolicy \<Rightarrow> DateTime \<Rightarrow> ('e, bool) res" where
  "TimeBasedUpdatePolicy_update_is_due add_duration self now =
     (case add_duration (last_update self) (duration self) of
        None \<Rightarrow> Panic
      | Some due \<Rightarrow> Ok (now \<ge> due))"

definition TimeBasedUpdatePolicy_set_update_time ::
    "TimeBasedUpdatePolicy \<Rightarrow> DateTime \<Rightarrow> TimeBasedUpdatePolicy" where
  "TimeBasedUpdatePolicy_set_update_time self now = self\<lparr>last_update := now\<rparr>"

definition TrafficBasedUpdatePolicy_new :: "u64 \<Rightarrow> TrafficBasedUpdatePolicy" where
  "TrafficBasedUpdatePolicy_new threshold = \<lparr>update_threshold = threshold, bytes_transferred = 0\<rparr>"

definition TrafficBasedUpdatePolicy_update_is_due :: "TrafficBasedUpdatePolicy \<Rightarrow> bool" where
  "TrafficBasedUpdatePolicy_update_is_due self \<longleftrightarrow> bytes_transferred self \<ge> update_threshold self"

definition TrafficBasedUpdatePolicy_increment_bytes_transferred ::
    "bool \<Rightarrow> TrafficBasedUpdatePolicy \<Rightarrow> u64 \<Rightarrow> ('e, unit, TrafficBasedUpdatePolicy) outcome" where
  "TrafficBasedUpdatePolicy_increment_bytes_transferred oc self n =
     bindS (add_u64 oc (bytes_transferred self) n, self)
       (\<lambda>total self. (Ok (), self\<lparr>bytes_transferred := total\<rparr>))"

definition TrafficBasedUpdatePolicy_reset :: "TrafficBasedUpdatePolicy \<Rightarrow> TrafficBasedUpdatePolicy" where
  "TrafficBasedUpdatePolicy_reset self = self\<lparr>bytes_transferred := 0\<rparr>"

definition UpdatePolicy_new ::
    "TimeBasedUpdatePolicy option \<Rightarrow> TrafficBasedUpdatePolicy option \<Rightarrow> UpdatePolicy" where
  "UpdatePolicy_new time traffic = \<lparr>time_based = time, traffic_based = traffic\<rparr>"

definition UpdatePolicy_from_time_based :: "TimeBasedUpdatePolicy \<Rightarrow> UpdatePolicy" where
  "UpdatePolicy_from_time_based policy = \<lparr>time_based = Some policy, traffic_based = None\<rparr>"

definition UpdatePolicy_from_traffic_based :: "TrafficBasedUpdatePolicy \<Rightarrow> UpdatePolicy" where
  "UpdatePolicy_from_traffic_based policy = \<lparr>time_based = None, traffic_based = Some policy\<rparr>"

text \<open>Both halves are evaluated before they are combined.\<close>

definition UpdatePolicy_update_is_due :: "chrono_add \<Rightarrow> UpdatePolicy \<Rightarrow> DateTime \<Rightarrow> ('e, bool) res" where
  "UpdatePolicy_update_is_due add_duration self now =
     res_bind (case time_based self of
                 None \<Rightarrow> Ok False
               | Some policy \<Rightarrow> TimeBasedUpdatePolicy_update_is_due add_duration policy now)
       (\<lambda>time_based_is_due.
        let traffic_based_is_due =
          (case traffic_based self of
             None \<Rightarrow> False
           | Some policy \<Rightarrow> TrafficBasedUpdatePolicy_update_is_due policy)
        in Ok (time_based_is_due \<or> traffic_based_is_due))"

definition UpdatePolicy_reset :: "UpdatePolicy \<Rightarrow> DateTime \<Rightarrow> UpdatePolicy" where
  "UpdatePolicy_reset self now =
     self\<lparr>time_based := map_option (\<lambda>p. TimeBasedUpdatePolicy_set_update_time p now) (time_based self),
          traffic_based := map_option TrafficBasedUpdatePolicy_reset (traffic_based self)\<rparr>"

definition UpdatePolicy_increment_bytes_transferred ::
    "bool \<Rightarrow> UpdatePolicy \<Rightarrow> u64 \<Rightarrow> ('e, unit, UpdatePolicy) outcome" where
  "UpdatePolicy_increment_bytes_transferred oc self n =
     (case traffic_based self of
        None \<Rightarrow> (Ok (), self)
      | Some policy \<Rightarrow>
          (case TrafficBasedUpdatePolicy_increment_bytes_transferred oc policy n of
             (r, policy) \<Rightarrow> (r, self\<lparr>traffic_based := Some policy\<rparr>)))"

lemmas update_policy_defs =
  TimeBasedUpdatePolicy_update_is_due_def TimeBasedUpdatePolicy_set_update_time_def
  TrafficBasedUpdatePolicy_update_is_due_def TrafficBasedUpdatePolicy_increment_bytes_transferred_def
  TrafficBasedUpdatePolicy_reset_def UpdatePolicy_update_is_due_def UpdatePolicy_reset_def
  UpdatePolicy_increment_bytes_transferred_def

section \<open>Properties\<close>

text \<open>Counting a list of transfers.\<close>

abbreviation count_transfers :: "bool \<Rightarrow> UpdatePolicy \<Rightarrow> u64 list \<Rightarrow> ('e, unit list, UpdatePolicy) outcome" where
  "count_transfers oc p ns \<equiv> seal_all (UpdatePolicy_increment_bytes_transferred oc) p ns"

lemma increment_frame:
  assumes "UpdatePolicy_increment_bytes_transferred oc p n = ((Ok (), p') :: ('e, unit, UpdatePolicy) outcome)"
  shows "time_based p' = time_based p"
    "traffic_based p' =
       map_option (\<lambda>t. t\<lparr>bytes_transferred := bytes_transferred t + n\<rparr>) (traffic_based p)"
    "oc \<Longrightarrow> traffic_based p = Some t \<Longrightarrow> unat (bytes_transferred t) + unat n < 2 ^ 64"
  using assms
  by (auto simp: update_policy_defs bindS_eq_Ok add_u64_def split: option.splits prod.splits if_splits)

lemma count_transfers_frame:
  assumes "count_transfers oc p ns = ((Ok us, p') :: ('e, unit list, UpdatePolicy) outcome)"
    and "\<And>t. traffic_based p = Some t \<Longrightarrow>
           oc \<or> unat (bytes_transferred t) + sum_list (map unat ns) < 2 ^ 64"
  shows "time_based p' = time_based p \<and>
    (case traffic_based p of
       None \<Rightarrow> traffic_based p' = None
     | Some t \<Rightarrow> (\<exists>t'. traffic_based p' = Some t' \<and> update_threshold t' = update_threshold t \<and>
         unat (bytes_transferred t') = unat (bytes_transferred t) + sum_list (map unat ns)))"
  using assms
proof (induction ns arbitrary: p us)
  case Nil
  then show ?case by (cases "traffic_based p") auto
next
  case (Cons n ns)
  from Cons.prems(1) obtain p1 us' where
    1: "UpdatePolicy_increment_bytes_transferred oc p n = ((Ok (), p1) :: ('e, unit, UpdatePolicy) outcome)" and
    2: "count_transfers oc p1 ns = ((Ok us', p') :: ('e, unit list, UpdatePolicy) outcome)"
    by (auto simp: bindS_eq_Ok)
  note f = increment_frame [OF 1]
  show ?case
  proof (cases "traffic_based p")
    case None
    with f Cons.IH [OF 2] show ?thesis by simp
  next
    case (Some t)
    have lt: "unat (bytes_transferred t) + unat n < 2 ^ 64"
      using f(3) [of t] Some Cons.prems(2) [OF Some] by (cases oc) auto
    then have u: "unat (bytes_transferred t + n) = unat (bytes_transferred t) + unat n"
      by (rule unat_add_u64)
    from Cons.IH [OF 2] f(1,2) Some Cons.prems(2) [OF Some] u show ?thesis
      by (auto simp: add.assoc)
  qed
qed

text \<open>
  C29. When a key update is due: after a reset at time \<open>t0\<close> and any transfers since, the policy reports
  an update as due exactly when it has a time rule and the rule's duration has passed since
  \<open>t0\<close>, or it has a traffic rule and the bytes transferred since the reset reach its threshold.
  With overflow checks no bound on the traffic is needed; without them it must stay below
  \<open>2 ^ 64\<close> bytes.
\<close>

theorem update_due_iff_elapsed_or_transferred:
  assumes "chrono_exact add_duration"
    and "count_transfers oc (UpdatePolicy_reset p t0) ns = (Ok us, p')"
    and "oc \<or> sum_list (map unat ns) < 2 ^ 64"
    and "UpdatePolicy_update_is_due add_duration p' now = Ok due"
  shows "due \<longleftrightarrow>
    (\<exists>t. time_based p = Some t \<and> t0 + int (duration t) \<le> now) \<or>
    (\<exists>t. traffic_based p = Some t \<and> unat (update_threshold t) \<le> sum_list (map unat ns))"
proof -
  have "oc \<or> unat (bytes_transferred t) + sum_list (map unat ns) < 2 ^ 64"
    if "traffic_based (UpdatePolicy_reset p t0) = Some t" for t
    using that assms(3) by (auto simp: update_policy_defs)
  from count_transfers_frame [OF assms(2) this] assms(1,4) show ?thesis
    by (cases "time_based p"; cases "traffic_based p")
      (auto simp: update_policy_defs word_le_nat_alt chrono_exact_def split: option.splits)
qed

theorem update_due_iff_elapsed_or_transferred_witness:
  "\<exists>p'. count_transfers True (UpdatePolicy_reset \<lparr>time_based = Some \<lparr>duration = 10, last_update = 0\<rparr>,
        traffic_based = Some \<lparr>update_threshold = 80, bytes_transferred = 75\<rparr>\<rparr> 100) [50, 30]
      = ((Ok [(), ()] :: (unit, unit list) res), p') \<and>
    (UpdatePolicy_update_is_due (\<lambda>t d. Some (t + int d)) p' 105 :: (unit, bool) res) = Ok True \<and>
    \<not> (\<exists>t. Some \<lparr>duration = 10, last_update = 0\<rparr> = Some (t :: TimeBasedUpdatePolicy) \<and> 100 + int (duration t) \<le> 105)"
proof -
  let ?p = "\<lparr>time_based = Some \<lparr>duration = 10, last_update = 0\<rparr>,
        traffic_based = Some \<lparr>update_threshold = 80, bytes_transferred = 75\<rparr>\<rparr>"
  let ?p' = "\<lparr>time_based = Some \<lparr>duration = 10, last_update = 100\<rparr>,
        traffic_based = Some \<lparr>update_threshold = 80, bytes_transferred = 80\<rparr>\<rparr>"
  have c: "count_transfers True (UpdatePolicy_reset ?p 100) [50, 30] = ((Ok [(), ()] :: (unit, unit list) res), ?p')"
    by (simp add: update_policy_defs add_u64_def)
  obtain due where d: "(UpdatePolicy_update_is_due (\<lambda>t d. Some (t + int d)) ?p' 105 :: (unit, bool) res) = Ok due"
    by (simp add: update_policy_defs)
  have "due"
    using update_due_iff_elapsed_or_transferred [OF _ c _ d] by (simp add: chrono_exact_def)
  with c d show ?thesis by simp
qed

end
