(* ===== verification/Encryption_Provider.thy ===== *)
theory Encryption_Provider
  imports Mls_Handshake Pre_Handshake Update_Policy
begin

text \<open>
  \<^verbatim>\<open>src/encryption_provider/mod.rs\<close>: the object an application uses.  It runs the optional
  pre-handshake and the MLS handshake over a connection, then sends and receives application bytes,
  interleaving them with signaling messages and changing the record keys as they demand.  The code
  outside \<^verbatim>\<open>src/\<close> is the environment \<open>E\<close>: crypto provider, codec of the field types, JSON, OpenMLS,
  the framed halves of the TCP stream and date arithmetic.  \<^verbatim>\<open>IS_SERVER\<close>, a constant parameter of the
  type in the source, is an argument.
\<close>

record ('s, 'g, 'm, 'o, 'r, 'w) env =
  env_checks :: bool
  env_crypto :: crypto
  env_tls :: "'m tls_codec"
  env_json :: "'m json"
  env_mls :: "('s, 'g, 'm, 'o) openmls"
  env_reader :: "'r stream_next"
  env_writer :: "'w sink"
  env_chrono :: chrono_add

datatype EncryptionProviderError =
    ProviderIoError io_error
  | PreHandshakeError string
  | ProviderHandshakeError MlsHandshakeError
  | ProviderCodecError tls_error
  | ProviderUnexpectedMessage string
  | TlsTransportError TlsAeadSinkError
  | KeyDerivationError CryptoError

section \<open>Protected channels\<close>

text \<open>The framed halves of the socket.\<close>

type_synonym ('r, 'w) UnprotectedHandshakeState = "'r \<times> 'w"

text \<open>Reader and writer share one cipher behind a lock.\<close>

record ('r, 'w) ProtectedChannels =
  ch_cipher :: "TlsAeadCodec mutex"
  ch_reader :: 'r
  ch_writer :: "'w TlsAeadSink"

definition ProtectedChannels_new ::
    "crypto \<Rightarrow> bool \<Rightarrow> 'r \<Rightarrow> 'w \<Rightarrow> TrafficSecrets \<Rightarrow> (TlsAeadSinkError, ('r, 'w) ProtectedChannels) res" where
  "ProtectedChannels_new C is_server reader writer traffic_secrets =
     res_bind (map_err EncryptionFailed
       (TlsAeadCodec_new C is_server traffic_secrets [] KEY_SCHEDULE_HASH_FUNCTION AEAD_ALGORITHM)) (\<lambda>c.
     Ok \<lparr>ch_cipher = \<lparr>contents = c, poisoned = False\<rparr>, ch_reader = reader, ch_writer = TlsAeadSink_new writer\<rparr>)"

text \<open>The writer's update, then the reader's; both act on the shared cipher.\<close>

definition channels_update_secrets ::
    "bool \<Rightarrow> SecretUpdate \<Rightarrow> ('r, 'w) ProtectedChannels \<Rightarrow> (TlsAeadSinkError, unit, ('r, 'w) ProtectedChannels) outcome" where
  "channels_update_secrets is_server secret_update ch =
     bindS (case TlsAeadSink_update_traffic_secrets (ch_cipher ch) secret_update is_server of
              (r, m) \<Rightarrow> (r, ch\<lparr>ch_cipher := m\<rparr>)) (\<lambda>_ ch.
     case TlsAeadStream_update_traffic_secrets (ch_cipher ch) secret_update is_server of
       (r, m) \<Rightarrow> (r, ch\<lparr>ch_cipher := m\<rparr>))"

definition ProtectedChannels_update_cipher ::
    "bool \<Rightarrow> TrafficSecrets \<Rightarrow> ('r, 'w) ProtectedChannels \<Rightarrow> (TlsAeadSinkError, unit, ('r, 'w) ProtectedChannels) outcome" where
  "ProtectedChannels_update_cipher is_server traffic_secrets ch =
     channels_update_secrets is_server (Both traffic_secrets) ch"

text \<open>The poll functions of the two halves, on the channels.\<close>

definition channels_poll_next ::
    "('s, 'g, 'm, 'o, 'r, 'w) env \<Rightarrow> ('r, 'w) ProtectedChannels
       \<Rightarrow> (TlsAeadSinkError, TlsPacketIn) res option poll \<times> ('r, 'w) ProtectedChannels" where
  "channels_poll_next E ch =
     (case TlsAeadStream_poll_next (env_checks E) (env_reader E) (ch_cipher ch, ch_reader ch) of
        (p, (m, r)) \<Rightarrow> (p, ch\<lparr>ch_cipher := m, ch_reader := r\<rparr>))"

definition channels_start_send ::
    "('s, 'g, 'm, 'o, 'r, 'w) env \<Rightarrow> ('r, 'w) ProtectedChannels \<Rightarrow> bytes
       \<Rightarrow> (TlsAeadSinkError, unit, ('r, 'w) ProtectedChannels) outcome" where
  "channels_start_send E ch item =
     (case TlsAeadSink_start_send (env_checks E) (ch_cipher ch, ch_writer ch) item of
        (r, (m, w)) \<Rightarrow> (r, ch\<lparr>ch_cipher := m, ch_writer := w\<rparr>))"

abbreviation at_writer ::
    "('w TlsAeadSink \<Rightarrow> 'a poll \<times> 'w TlsAeadSink) \<Rightarrow> ('r, 'w) ProtectedChannels \<Rightarrow> 'a poll \<times> ('r, 'w) ProtectedChannels" where
  "at_writer p \<equiv> poll_at ch_writer (\<lambda>w ch. ch\<lparr>ch_writer := w\<rparr>) p"

section \<open>The handshake over unprotected and protected transports\<close>

definition unprotected_transport :: "('s, 'g, 'm, 'o, 'r, 'w) env \<Rightarrow> ('r \<times> 'w) transport" where
  "unprotected_transport E =
     \<lparr>tx_send = (\<lambda>bs. \<lambda>(r, w). map_option (\<lambda>(res, w). (map_err TransportIo res, (r, w)))
                  (sink_send (sink_poll_ready (env_writer E)) (sink_start_send (env_writer E))
                     (sink_poll_flush (env_writer E)) bs w)),
      rx_next = (\<lambda>(r, w). map_option (\<lambda>(item, r). (map_option (map_err TransportIo) item, (r, w)))
                  (await_poll (env_reader E) r))\<rparr>"

definition protected_transport :: "('s, 'g, 'm, 'o, 'r, 'w) env \<Rightarrow> ('r, 'w) ProtectedChannels transport" where
  "protected_transport E =
     \<lparr>tx_send = (\<lambda>bs ch. run_as TransportSink
                  (sink_send (at_writer (TlsAeadSink_poll_ready (env_writer E))) (channels_start_send E)
                     (at_writer (TlsAeadSink_poll_flush (env_writer E))) bs ch)),
      rx_next = (\<lambda>ch. map_option (\<lambda>(item, ch). (map_option (map_err TransportSink) item, ch))
                  (await_poll (channels_poll_next E) ch))\<rparr>"

type_synonym ('s, 'm, 'a) handshake_run = "(EncryptionProviderError, 'a, ('s, 'm) MlsHandshake) run"

definition UnprotectedHandshakeState_client_handshake ::
    "('s, 'g, 'm, 'o, 'r, 'w) env \<Rightarrow> Uuid \<Rightarrow> SignaturePublicKey \<Rightarrow> ('r, 'w) UnprotectedHandshakeState \<Rightarrow> ('s, 'm) MlsHandshake
       \<Rightarrow> ('s, 'm, ('r, 'w) ProtectedChannels) handshake_run" where
  "UnprotectedHandshakeState_client_handshake E client_id verifying_key self handshake =
     map_option (\<lambda>(r, (handshake, (reader, writer))).
        (res_bind (map_err ProviderHandshakeError r) (\<lambda>traffic_secrets.
           map_err TlsTransportError (ProtectedChannels_new (env_crypto E) False reader writer traffic_secrets)),
         handshake))
       (MlsHandshake_client_handshake (env_tls E) (env_json E) (env_mls E) (unprotected_transport E)
          client_id verifying_key (handshake, self))"

definition UnprotectedHandshakeState_server_handshake ::
    "('s, 'g, 'm, 'o, 'r, 'w) env \<Rightarrow> ('r, 'w) UnprotectedHandshakeState \<Rightarrow> ('s, 'm) MlsHandshake
       \<Rightarrow> ('s, 'm, ('r, 'w) ProtectedChannels \<times> ClientIdentity) handshake_run" where
  "UnprotectedHandshakeState_server_handshake E self handshake =
     map_option (\<lambda>(r, (handshake, (reader, writer))).
        (res_bind (map_err ProviderHandshakeError r) (\<lambda>(traffic_secrets, client_identity).
           res_bind (map_err TlsTransportError
                       (ProtectedChannels_new (env_crypto E) True reader writer traffic_secrets)) (\<lambda>ch.
           Ok (ch, client_identity))),
         handshake))
       (MlsHandshake_server_handshake (env_checks E) (env_tls E) (env_mls E) (unprotected_transport E)
          (handshake, self))"

definition ProtectedHandshakeState_client_handshake ::
    "('s, 'g, 'm, 'o, 'r, 'w) env \<Rightarrow> Uuid \<Rightarrow> SignaturePublicKey \<Rightarrow> ('r, 'w) ProtectedChannels \<Rightarrow> ('s, 'm) MlsHandshake
       \<Rightarrow> ('s, 'm, ('r, 'w) ProtectedChannels) handshake_run" where
  "ProtectedHandshakeState_client_handshake E client_id verifying_key self handshake =
     map_option (\<lambda>(r, (handshake, ch)).
        (res_bind (map_err ProviderHandshakeError r) (\<lambda>traffic_secrets.
           case ProtectedChannels_update_cipher False traffic_secrets ch of
             (r, ch) \<Rightarrow> res_bind (map_err TlsTransportError r) (\<lambda>_. Ok ch)),
         handshake))
       (MlsHandshake_client_handshake (env_tls E) (env_json E) (env_mls E) (protected_transport E)
          client_id verifying_key (handshake, self))"

definition ProtectedHandshakeState_server_handshake ::
    "('s, 'g, 'm, 'o, 'r, 'w) env \<Rightarrow> ('r, 'w) ProtectedChannels \<Rightarrow> ('s, 'm) MlsHandshake
       \<Rightarrow> ('s, 'm, ('r, 'w) ProtectedChannels \<times> ClientIdentity) handshake_run" where
  "ProtectedHandshakeState_server_handshake E self handshake =
     map_option (\<lambda>(r, (handshake, ch)).
        (res_bind (map_err ProviderHandshakeError r) (\<lambda>(traffic_secrets, client_identity).
           case ProtectedChannels_update_cipher True traffic_secrets ch of
             (r, ch) \<Rightarrow> res_bind (map_err TlsTransportError r) (\<lambda>_. Ok (ch, client_identity))),
         handshake))
       (MlsHandshake_server_handshake (env_checks E) (env_tls E) (env_mls E) (protected_transport E)
          (handshake, self))"

section \<open>The provider\<close>

record 'st EncryptionProvider =
  state :: 'st
  address :: string
  update_policy :: UpdatePolicy

record ('r, 'w) ProtectedHandshakeState =
  ph_channels :: "('r, 'w) ProtectedChannels"
  ph_session_id :: "Uuid option"

record ('s, 'm, 'r, 'w) EstablishedState =
  handshake :: "('s, 'm) MlsHandshake"
  channels :: "('r, 'w) ProtectedChannels"

type_synonym ('s, 'm, 'r, 'w) established = "('s, 'm, 'r, 'w) EstablishedState EncryptionProvider"

text \<open>
  Constructors.  \<open>peer_addr\<close> is what the socket's method returns; \<open>reader\<close> and \<open>writer\<close> are the framed
  halves of the socket; \<open>payload_result\<close> is what the pre-handshake, a type parameter of the source,
  returned for the role.
\<close>

definition EncryptionProvider_new_from_stream ::
    "(io_error, string) res \<Rightarrow> 'r \<times> 'w \<Rightarrow> UpdatePolicy
       \<Rightarrow> (EncryptionProviderError, ('r, 'w) UnprotectedHandshakeState EncryptionProvider) res" where
  "EncryptionProvider_new_from_stream peer_addr halves policy =
     res_bind (map_err ProviderIoError peer_addr) (\<lambda>addr.
     Ok \<lparr>state = halves, address = addr, update_policy = policy\<rparr>)"

definition EncryptionProvider_new_with_pre_handshake ::
    "crypto \<Rightarrow> bool \<Rightarrow> (io_error, string) res \<Rightarrow> 'r \<times> 'w \<Rightarrow> UpdatePolicy
       \<Rightarrow> (bool \<Rightarrow> (string, HandshakeResult) res)
       \<Rightarrow> (EncryptionProviderError, ('r, 'w) ProtectedHandshakeState EncryptionProvider) res" where
  "EncryptionProvider_new_with_pre_handshake C is_server peer_addr halves policy pre_handshake =
     res_bind (map_err ProviderIoError peer_addr) (\<lambda>addr.
     res_bind (map_err PreHandshakeError (pre_handshake is_server)) (\<lambda>result.
     res_bind (map_err KeyDerivationError (derive_traffic_secrets C (shared_secret result))) (\<lambda>traffic_secrets.
     res_bind (map_err TlsTransportError
                 (ProtectedChannels_new C is_server (fst halves) (snd halves) traffic_secrets)) (\<lambda>ch.
     Ok \<lparr>state = \<lparr>ph_channels = ch, ph_session_id = session_id result\<rparr>, address = addr,
          update_policy = policy\<rparr>))))"

text \<open>
  \<^verbatim>\<open>handshake\<close> of a provider in either handshake state: \<open>state_handshake\<close> is the state's own
  handshake.  The connection outlives a failed handshake, so it is returned in every case.
\<close>

definition EncryptionProvider_server_handshake ::
    "('st \<Rightarrow> ('s, 'm) MlsHandshake \<Rightarrow> ('s, 'm, ('r, 'w) ProtectedChannels \<times> ClientIdentity) handshake_run)
       \<Rightarrow> 'st EncryptionProvider \<Rightarrow> 's Connection \<Rightarrow> SignatureKeyPair
       \<Rightarrow> (EncryptionProviderError, ('s, 'm, 'r, 'w) established \<times> ClientIdentity, 's Connection) run" where
  "EncryptionProvider_server_handshake state_handshake self conn signer =
     map_option (\<lambda>(r, hs).
        (res_bind r (\<lambda>(ch, client_identity).
           Ok (\<lparr>state = \<lparr>handshake = hs, channels = ch\<rparr>, address = address self,
                update_policy = update_policy self\<rparr>, client_identity)), connection hs))
       (state_handshake (state self) (MlsHandshake_new conn signer))"

definition EncryptionProvider_client_handshake ::
    "('st \<Rightarrow> ('s, 'm) MlsHandshake \<Rightarrow> ('s, 'm, ('r, 'w) ProtectedChannels) handshake_run)
       \<Rightarrow> 'st EncryptionProvider \<Rightarrow> 's Connection \<Rightarrow> SignatureKeyPair
       \<Rightarrow> (EncryptionProviderError, ('s, 'm, 'r, 'w) established, 's Connection) run" where
  "EncryptionProvider_client_handshake state_handshake self conn signer =
     map_option (\<lambda>(r, hs).
        (res_bind r (\<lambda>ch.
           Ok \<lparr>state = \<lparr>handshake = hs, channels = ch\<rparr>, address = address self,
               update_policy = update_policy self\<rparr>), connection hs))
       (state_handshake (state self) (MlsHandshake_new conn signer))"

definition EncryptionProvider_initialize_storage ::
    "('s, 'g, 'm, 'o, 'r, 'w) env \<Rightarrow> 's Connection \<Rightarrow> (EncryptionProviderError, unit, 's Connection) outcome" where
  "EncryptionProvider_initialize_storage E conn =
     err_as ProviderHandshakeError (MlsHandshake_initialize_storage (env_mls E) conn)"

section \<open>Stream and sink of plaintexts\<close>

abbreviation prov_channels :: "('s, 'm, 'r, 'w) established \<Rightarrow> ('r, 'w) ProtectedChannels" where
  "prov_channels p \<equiv> channels (state p)"

abbreviation set_channels ::
    "('r, 'w) ProtectedChannels \<Rightarrow> ('s, 'm, 'r, 'w) established \<Rightarrow> ('s, 'm, 'r, 'w) established" where
  "set_channels ch p \<equiv> p\<lparr>state := (state p)\<lparr>channels := ch\<rparr>\<rparr>"

abbreviation set_handshake ::
    "('s, 'm) MlsHandshake \<Rightarrow> ('s, 'm, 'r, 'w) established \<Rightarrow> ('s, 'm, 'r, 'w) established" where
  "set_handshake hs p \<equiv> p\<lparr>state := (state p)\<lparr>handshake := hs\<rparr>\<rparr>"

text \<open>
  A record's plaintext is deserialised without insisting that nothing is left over.
\<close>

definition plaintext_of_packet ::
    "'m tls_codec \<Rightarrow> (TlsAeadSinkError, TlsPacketIn) res \<Rightarrow> (EncryptionProviderError, InnerPlaintext) res" where
  "plaintext_of_packet T item =
     res_bind (map_err TlsTransportError item) (\<lambda>packet.
     res_bind (map_err ProviderCodecError (InnerPlaintext_de T (data packet))) (\<lambda>(plaintext, _). Ok plaintext))"

definition EncryptionProvider_poll_next ::
    "('s, 'g, 'm, 'o, 'r, 'w) env \<Rightarrow> ('s, 'm, 'r, 'w) established
       \<Rightarrow> (EncryptionProviderError, InnerPlaintext) res option poll \<times> ('s, 'm, 'r, 'w) established" where
  "EncryptionProvider_poll_next E self =
     (case channels_poll_next E (prov_channels self) of
        (Pending, ch) \<Rightarrow> (Pending, set_channels ch self)
      | (Ready item, ch) \<Rightarrow> (Ready (map_option (plaintext_of_packet (env_tls E)) item), set_channels ch self))"

definition provider_poll ::
    "('w TlsAeadSink \<Rightarrow> (TlsAeadSinkError, unit) res poll \<times> 'w TlsAeadSink) \<Rightarrow> ('s, 'm, 'r, 'w) established
       \<Rightarrow> (EncryptionProviderError, unit) res poll \<times> ('s, 'm, 'r, 'w) established" where
  "provider_poll p self =
     (case at_writer p (prov_channels self) of
        (Pending, ch) \<Rightarrow> (Pending, set_channels ch self)
      | (Ready r, ch) \<Rightarrow> (Ready (map_err TlsTransportError r), set_channels ch self))"

definition EncryptionProvider_poll_ready ::
    "('s, 'g, 'm, 'o, 'r, 'w) env \<Rightarrow> ('s, 'm, 'r, 'w) established
       \<Rightarrow> (EncryptionProviderError, unit) res poll \<times> ('s, 'm, 'r, 'w) established" where
  "EncryptionProvider_poll_ready E = provider_poll (TlsAeadSink_poll_ready (env_writer E))"

definition EncryptionProvider_poll_flush ::
    "('s, 'g, 'm, 'o, 'r, 'w) env \<Rightarrow> ('s, 'm, 'r, 'w) established
       \<Rightarrow> (EncryptionProviderError, unit) res poll \<times> ('s, 'm, 'r, 'w) established" where
  "EncryptionProvider_poll_flush E = provider_poll (TlsAeadSink_poll_flush (env_writer E))"

definition EncryptionProvider_poll_close ::
    "('s, 'g, 'm, 'o, 'r, 'w) env \<Rightarrow> ('s, 'm, 'r, 'w) established
       \<Rightarrow> (EncryptionProviderError, unit) res poll \<times> ('s, 'm, 'r, 'w) established" where
  "EncryptionProvider_poll_close E = provider_poll (TlsAeadSink_poll_close (env_writer E))"

definition EncryptionProvider_start_send ::
    "('s, 'g, 'm, 'o, 'r, 'w) env \<Rightarrow> ('s, 'm, 'r, 'w) established \<Rightarrow> InnerPlaintext
       \<Rightarrow> (EncryptionProviderError, unit, ('s, 'm, 'r, 'w) established) outcome" where
  "EncryptionProvider_start_send E self item =
     bindS (map_err ProviderCodecError (InnerPlaintext_ser (env_tls E) item), self) (\<lambda>inner_plaintext_bytes self.
     case channels_start_send E (prov_channels self) inner_plaintext_bytes of
       (r, ch) \<Rightarrow> (map_err TlsTransportError r, set_channels ch self))"

section \<open>Sending and receiving\<close>

definition EncryptionProvider_send ::
    "('s, 'g, 'm, 'o, 'r, 'w) env \<Rightarrow> InnerPlaintext \<Rightarrow> ('s, 'm, 'r, 'w) established
       \<Rightarrow> (EncryptionProviderError, unit, ('s, 'm, 'r, 'w) established) run" where
  "EncryptionProvider_send E item self =
     sink_send (EncryptionProvider_poll_ready E) (EncryptionProvider_start_send E) (EncryptionProvider_poll_flush E)
       item self"

text \<open>\<^verbatim>\<open>self.next().await.transpose()\<close>, which is also \<^verbatim>\<open>read_message\<close>.\<close>

definition EncryptionProvider_read_message ::
    "('s, 'g, 'm, 'o, 'r, 'w) env \<Rightarrow> ('s, 'm, 'r, 'w) established
       \<Rightarrow> (EncryptionProviderError, InnerPlaintext option, ('s, 'm, 'r, 'w) established) run" where
  "EncryptionProvider_read_message E self =
     map_option (\<lambda>(item, self).
        (case item of None \<Rightarrow> Ok None | Some r \<Rightarrow> res_bind r (\<lambda>plaintext. Ok (Some plaintext)), self))
       (await_poll (EncryptionProvider_poll_next E) self)"

definition EncryptionProvider_update_cipher ::
    "bool \<Rightarrow> SecretUpdate \<Rightarrow> ('s, 'm, 'r, 'w) established
       \<Rightarrow> (EncryptionProviderError, unit, ('s, 'm, 'r, 'w) established) outcome" where
  "EncryptionProvider_update_cipher is_server secret_update self =
     (case channels_update_secrets is_server secret_update (prov_channels self) of
        (r, ch) \<Rightarrow> (map_err TlsTransportError r, set_channels ch self))"

text \<open>
  Handling a signaling message, the same in \<^verbatim>\<open>read_bytes_inner\<close> and in \<^verbatim>\<open>process_read_message\<close>: the
  answer goes out under the old keys, then the keys change.
\<close>

definition handle_signaling ::
    "('s, 'g, 'm, 'o, 'r, 'w) env \<Rightarrow> bool \<Rightarrow> bytes \<Rightarrow> ('s, 'm, 'r, 'w) established
       \<Rightarrow> (EncryptionProviderError, unit, ('s, 'm, 'r, 'w) established) run" where
  "handle_signaling E is_server signaling_message self =
     bindA (case MlsHandshake_process_signaling_message (env_checks E) (env_tls E) (env_json E) (env_mls E)
                   signaling_message (handshake (state self)) of
              (r, hs) \<Rightarrow> Some (map_err ProviderHandshakeError r, set_handshake hs self))
       (\<lambda>(secret_update, response) self.
     bindA (case response of
              None \<Rightarrow> Some (Ok (), self)
            | Some bs \<Rightarrow> EncryptionProvider_send E (Signaling bs) self) (\<lambda>_ self.
     case secret_update of
       None \<Rightarrow> Some (Ok (), self)
     | Some u \<Rightarrow> Some (EncryptionProvider_update_cipher is_server u self)))"

definition EncryptionProvider_process_read_message ::
    "('s, 'g, 'm, 'o, 'r, 'w) env \<Rightarrow> bool \<Rightarrow> InnerPlaintext \<Rightarrow> ('s, 'm, 'r, 'w) established
       \<Rightarrow> (EncryptionProviderError, bytes option, ('s, 'm, 'r, 'w) established) run" where
  "EncryptionProvider_process_read_message E is_server message self =
     (case message of
        Application b \<Rightarrow> Some (Ok (Some b), self)
      | Signaling signaling_message \<Rightarrow>
          bindA (handle_signaling E is_server signaling_message self) (\<lambda>_ self. Some (Ok None, self)))"

partial_function (option) read_loop ::
    "('s, 'g, 'm, 'o, 'r, 'w) env \<Rightarrow> bool \<Rightarrow> InnerPlaintext option \<Rightarrow> ('s, 'm, 'r, 'w) established
       \<Rightarrow> (EncryptionProviderError, bytes option, ('s, 'm, 'r, 'w) established) run" where
  "read_loop E is_server message self =
     (case message of
        None \<Rightarrow> Some (Ok None, self)
      | Some plaintext \<Rightarrow>
          (case plaintext of
             Application b \<Rightarrow> Some (Ok (Some b), self)
           | Signaling signaling_message \<Rightarrow>
               bindA (handle_signaling E is_server signaling_message self) (\<lambda>_ self.
               bindA (EncryptionProvider_read_message E self) (\<lambda>message self.
               read_loop E is_server message self))))"

declare read_loop.simps [code]

definition EncryptionProvider_read_bytes_inner ::
    "('s, 'g, 'm, 'o, 'r, 'w) env \<Rightarrow> bool \<Rightarrow> ('s, 'm, 'r, 'w) established
       \<Rightarrow> (EncryptionProviderError, bytes option, ('s, 'm, 'r, 'w) established) run" where
  "EncryptionProvider_read_bytes_inner E is_server self =
     bindA (EncryptionProvider_read_message E self) (\<lambda>message self. read_loop E is_server message self)"

definition EncryptionProvider_read_bytes_client ::
    "('s, 'g, 'm, 'o, 'r, 'w) env \<Rightarrow> ('s, 'm, 'r, 'w) established
       \<Rightarrow> (EncryptionProviderError, bytes, ('s, 'm, 'r, 'w) established) run" where
  "EncryptionProvider_read_bytes_client E self =
     bindA (EncryptionProvider_read_bytes_inner E False self) (\<lambda>found self.
     case found of
       Some b \<Rightarrow> Some (Ok b, self)
     | None \<Rightarrow> Some (Err (ProviderUnexpectedMessage ''Expected IpPacket, server terminated connection''), self))"

definition EncryptionProvider_read_bytes_server ::
    "('s, 'g, 'm, 'o, 'r, 'w) env \<Rightarrow> ('s, 'm, 'r, 'w) established
       \<Rightarrow> (EncryptionProviderError, bytes option, ('s, 'm, 'r, 'w) established) run" where
  "EncryptionProvider_read_bytes_server E self = EncryptionProvider_read_bytes_inner E True self"

text \<open>
  The update that precedes a send when the policy says so.  A handshake that still waits for an
  answer is not an error: the update is tried again with the next bytes.
\<close>

definition send_due_update ::
    "('s, 'g, 'm, 'o, 'r, 'w) env \<Rightarrow> bool \<Rightarrow> DateTime \<Rightarrow> ('s, 'm, 'r, 'w) established
       \<Rightarrow> (EncryptionProviderError, unit, ('s, 'm, 'r, 'w) established) run" where
  "send_due_update E is_server now self =
     (case MlsHandshake_update_handshake (env_tls E) (env_json E) (env_mls E) (handshake (state self)) of
        (r, hs) \<Rightarrow>
          let self = set_handshake hs self in
          (case r of
             Ok (secret_update, message) \<Rightarrow>
               bindA (EncryptionProvider_send E (Signaling message) self) (\<lambda>_ self.
               bindA (case secret_update of
                        None \<Rightarrow> Some (Ok (), self)
                      | Some u \<Rightarrow> Some (EncryptionProvider_update_cipher is_server u self)) (\<lambda>_ self.
               Some (Ok (), self\<lparr>update_policy := UpdatePolicy_reset (update_policy self) now\<rparr>)))
           | Err (MlsHandshakeErr WaitingForResponse) \<Rightarrow> Some (Ok (), self)
           | Err e \<Rightarrow> Some (Err (ProviderHandshakeError e), self)
           | Panic \<Rightarrow> Some (Panic, self)))"

text \<open>
  \<^verbatim>\<open>send_bytes\<close>: the bytes are counted whether or not the send succeeded.
\<close>

definition EncryptionProvider_send_bytes ::
    "('s, 'g, 'm, 'o, 'r, 'w) env \<Rightarrow> bool \<Rightarrow> bytes \<Rightarrow> DateTime \<Rightarrow> ('s, 'm, 'r, 'w) established
       \<Rightarrow> (EncryptionProviderError, unit, ('s, 'm, 'r, 'w) established) run" where
  "EncryptionProvider_send_bytes E is_server bs now self =
     bindA (Some (UpdatePolicy_update_is_due (env_chrono E) (update_policy self) now, self)) (\<lambda>due self.
     bindA (if due then send_due_update E is_server now self else Some (Ok (), self)) (\<lambda>_ self.
     Option.bind (EncryptionProvider_send E (Application bs) self) (\<lambda>(send_result, self).
     if send_result = Panic then Some (Panic, self)
     else
       (case UpdatePolicy_increment_bytes_transferred (env_checks E) (update_policy self) (of_nat (length bs)) of
          (r, policy) \<Rightarrow> Some (res_bind r (\<lambda>_. send_result), self\<lparr>update_policy := policy\<rparr>)))))"

definition EncryptionProvider_shutdown ::
    "('s, 'g, 'm, 'o, 'r, 'w) env \<Rightarrow> ('s, 'm, 'r, 'w) established
       \<Rightarrow> (EncryptionProviderError, unit, ('s, 'm, 'r, 'w) established) run" where
  "EncryptionProvider_shutdown E self = await_poll (EncryptionProvider_poll_close E) self"

definition EncryptionProvider_get_address :: "'st EncryptionProvider \<Rightarrow> string" where
  "EncryptionProvider_get_address self = address self"

definition EncryptionProvider_delete ::
    "('s, 'g, 'm, 'o, 'r, 'w) env \<Rightarrow> ('s, 'm, 'r, 'w) established
       \<Rightarrow> (EncryptionProviderError, unit, ('s, 'm, 'r, 'w) established) outcome" where
  "EncryptionProvider_delete E self =
     (case MlsHandshake_delete (env_json E) (env_mls E) (handshake (state self)) of
        (r, hs) \<Rightarrow> (map_err ProviderHandshakeError r, set_handshake hs self))"

definition EncryptionProvider_epoch :: "('s, 'm, 'r, 'w) established \<Rightarrow> u64" where
  "EncryptionProvider_epoch self = MlsHandshake_epoch (handshake (state self))"

end
