(* ===== verification/Symbolic_Mls.thy ===== *)
theory Symbolic_Mls
  imports Mls_Handshake
begin

text \<open>
  A small executable MLS that meets the laws the handshake relies on; it stands in for OpenMLS where
  a property is applied at a concrete input.  A group is its id, the member's leaf, the epoch, the
  epoch secret and the secret of a pending commit; a message has six fields of fixed width, so that
  it is serialised in thirteen bytes.  Nothing is secret here.
\<close>

record sym_group =
  sg_id :: u8
  sg_me :: u8
  sg_epoch :: u64
  sg_secret :: u8
  sg_pending :: "u8 option"

text \<open>Kind (0 key package, 1 welcome, 2 commit), group, author, epoch, secret, next secret.\<close>

datatype sym_message = SymMessage u8 u8 u8 u64 u8 u8

type_synonym sym_storage = "(u8 \<times> sym_group) list \<times> u8"
type_synonym sym_state = "u64 \<times> u8"

definition sym_put :: "sym_group \<Rightarrow> sym_storage \<Rightarrow> sym_storage" where
  "sym_put g s = ((sg_id g, g) # fst s, snd s)"

fun sym_load :: "sym_storage \<Rightarrow> GroupId \<Rightarrow> (mls_error, sym_group option) res" where
  "sym_load s [b] = Ok (map_of (fst s) b)"
| "sym_load s _ = Ok None"

definition sym_next_secret :: "sym_group \<Rightarrow> u8" where
  "sym_next_secret g = sg_secret g + sg_me g + 1"

definition sym_self_update ::
    "sym_group \<Rightarrow> SignatureKeyPair \<Rightarrow> Capabilities \<Rightarrow> sym_storage
       \<Rightarrow> (mls_error, sym_message \<times> sym_group, sym_storage) outcome" where
  "sym_self_update g k caps s =
     (if sg_pending g \<noteq> None then (Err ''pending commit'', s)
      else let g' = g\<lparr>sg_pending := Some (sym_next_secret g)\<rparr>
           in (Ok (SymMessage 2 (sg_id g) (sg_me g) (sg_epoch g) (sg_secret g) (sym_next_secret g), g'), sym_put g' s))"

definition sym_merge_pending :: "sym_group \<Rightarrow> sym_storage \<Rightarrow> (mls_error, sym_group, sym_storage) outcome" where
  "sym_merge_pending g s =
     (case sg_pending g of
        None \<Rightarrow> (Ok g, s)
      | Some n \<Rightarrow> let g' = g\<lparr>sg_epoch := sg_epoch g + 1, sg_secret := n, sg_pending := None\<rparr> in (Ok g', sym_put g' s))"

definition sym_clear_pending :: "sym_group \<Rightarrow> sym_storage \<Rightarrow> (mls_error, sym_group, sym_storage) outcome" where
  "sym_clear_pending g s = (let g' = g\<lparr>sg_pending := None\<rparr> in (Ok g', sym_put g' s))"

fun sym_process ::
    "sym_group \<Rightarrow> sym_message \<Rightarrow> sym_storage
       \<Rightarrow> (mls_error, sym_message ProcessedMessage \<times> sym_group, sym_storage) outcome" where
  "sym_process g (SymMessage kind gid by ep old new) s =
     (if kind = 2 \<and> gid = sg_id g \<and> ep = sg_epoch g \<and> old = sg_secret g \<and> by \<noteq> sg_me g
      then (Ok (\<lparr>pm_sender = Member, pm_credential = Basic [by],
                 pm_content = StagedCommitMessage (SymMessage kind gid by ep old new)\<rparr>, g), s)
      else (Err ''wrong epoch'', s))"

fun sym_merge_staged :: "sym_group \<Rightarrow> sym_message \<Rightarrow> sym_storage \<Rightarrow> (mls_error, sym_group, sym_storage) outcome" where
  "sym_merge_staged g (SymMessage kind gid by ep old new) s =
     (let g' = g\<lparr>sg_epoch := ep + 1, sg_secret := new, sg_pending := None\<rparr> in (Ok g', sym_put g' s))"

definition sym_delete :: "sym_group \<Rightarrow> sym_storage \<Rightarrow> (sql_error, unit, sym_storage) outcome" where
  "sym_delete g s = (Ok (), (filter (\<lambda>(b, _). b \<noteq> sg_id g) (fst s), snd s))"

fun sym_extract :: "sym_message \<Rightarrow> sym_message MlsMessageBodyIn" where
  "sym_extract (SymMessage kind gid by ep old new) =
     (let m = SymMessage kind gid by ep old new in
      if kind = 0 then BodyKeyPackage m else if kind = 1 then BodyWelcome m
      else if kind = 2 then BodyPrivateMessage m else BodyOther)"

definition sym_export :: "sym_state \<Rightarrow> string \<Rightarrow> bytes \<Rightarrow> nat \<Rightarrow> (mls_error, bytes) res" where
  "sym_export e label ctx len = Ok [snd e, sym_checksum (ascii label)]"

text \<open>A group's creator is leaf 0; key packages carry a one-byte identity.\<close>

definition sym_group_build ::
    "GroupId \<Rightarrow> Capabilities \<Rightarrow> Ciphersuite \<Rightarrow> SignatureKeyPair \<Rightarrow> CredentialWithKey \<Rightarrow> sym_storage
       \<Rightarrow> (mls_error, sym_group, sym_storage) outcome" where
  "sym_group_build gid caps cs k cwk s =
     (case gid of
        [b] \<Rightarrow> let g = \<lparr>sg_id = b, sg_me = 0, sg_epoch = 0, sg_secret = 10, sg_pending = None\<rparr> in (Ok g, sym_put g s)
      | _ \<Rightarrow> (Err ''group id'', s))"

definition sym_key_package_build ::
    "Ciphersuite \<Rightarrow> Capabilities \<Rightarrow> SignatureKeyPair \<Rightarrow> CredentialWithKey \<Rightarrow> sym_storage
       \<Rightarrow> (mls_error, sym_message, sym_storage) outcome" where
  "sym_key_package_build cs caps k cwk s =
     (case credential cwk of
        Basic [b] \<Rightarrow> (Ok (SymMessage 0 b 0 0 0 0), s)
      | _ \<Rightarrow> (Err ''identity'', s))"

definition sym_add_members ::
    "sym_group \<Rightarrow> SignatureKeyPair \<Rightarrow> sym_message list \<Rightarrow> sym_storage
       \<Rightarrow> (mls_error, sym_message \<times> sym_group, sym_storage) outcome" where
  "sym_add_members g k kps s =
     (case signer_public k of
        [key] \<Rightarrow> let g' = g\<lparr>sg_pending := Some (sym_next_secret g)\<rparr>
                 in (Ok (SymMessage 1 (sg_id g) key (sg_epoch g + 1) (sym_next_secret g) 0, g'), sym_put g' s)
      | _ \<Rightarrow> (Err ''signature key'', s))"

fun sym_into_group :: "sym_message \<Rightarrow> sym_storage \<Rightarrow> (mls_error, sym_group, sym_storage) outcome" where
  "sym_into_group (SymMessage kind gid key ep sec new) s =
     (let g = \<lparr>sg_id = gid, sg_me = 1, sg_epoch = ep, sg_secret = sec, sg_pending = None\<rparr> in (Ok g, sym_put g s))"

definition sym_mls :: "(sym_storage, sym_group, sym_message, sym_message) openmls" where
  "sym_mls = \<lparr>mls_initialize = (\<lambda>s. (Ok (), s)), mls_new_uuid = (\<lambda>s. ([snd s], (fst s, snd s + 1))),
     mls_load = sym_load, mls_group_id = (\<lambda>g. [sg_id g]), mls_epoch = sg_epoch,
     mls_has_pending_commit = (\<lambda>g. sg_pending g \<noteq> None), mls_hash_length = (\<lambda>_. 64),
     mls_export_secret = (\<lambda>g. sym_export (sg_epoch g, sg_secret g)),
     mls_self_update = sym_self_update, mls_merge_pending_commit = sym_merge_pending,
     mls_clear_pending_commit = sym_clear_pending, mls_process_message = sym_process,
     mls_merge_staged_commit = sym_merge_staged, mls_delete = sym_delete, mls_extract = sym_extract,
     mls_message_group_id = (\<lambda>m. case m of SymMessage _ gid _ _ _ _ \<Rightarrow> [gid]),
     mls_message_epoch = (\<lambda>m. case m of SymMessage _ _ _ ep _ _ \<Rightarrow> ep),
     mls_path_credential = (\<lambda>m. case m of SymMessage _ _ by _ _ _ \<Rightarrow> Some (Basic [by])),
     mls_queued_proposals = (\<lambda>_. 0), mls_key_package_validate = (\<lambda>m. Ok m),
     mls_key_package_credential = (\<lambda>m. case m of SymMessage _ b _ _ _ _ \<Rightarrow> Basic [b]),
     mls_key_package_build = sym_key_package_build, mls_group_build = sym_group_build,
     mls_add_members = sym_add_members, mls_stage_welcome = (\<lambda>m s. (Ok m, s)),
     mls_welcome_sender_key = (\<lambda>m. case m of SymMessage _ _ key _ _ _ \<Rightarrow> Ok [key]),
     mls_into_group = sym_into_group\<rparr>"

definition sym_view :: "(sym_group, sym_message, sym_message, sym_state) mls_view" where
  "sym_view = \<lparr>view_me = (\<lambda>g. unat (sg_me g)), view_state = (\<lambda>g. (sg_epoch g, sg_secret g)),
     view_pending = (\<lambda>g. map_option (\<lambda>n. (sg_epoch g + 1, n)) (sg_pending g)),
     view_commit = (\<lambda>m. case m of SymMessage kind gid by ep old new \<Rightarrow>
        if kind = 2 then Some ([gid], unat by, (ep, old), (ep + 1, new)) else None),
     view_staged = (\<lambda>m. case m of SymMessage kind gid by ep old new \<Rightarrow> Some (ep + 1, new)),
     view_welcome = (\<lambda>m. case m of SymMessage kind gid key ep sec new \<Rightarrow>
        if kind = 1 then Some ([gid], (ep, sec), [key]) else None),
     view_staged_welcome = (\<lambda>m. case m of SymMessage kind gid key ep sec new \<Rightarrow> Some ([gid], (ep, sec), [key])),
     view_epoch = fst, view_hash_length = (\<lambda>_. 64), view_export = sym_export\<rparr>"

text \<open>The messages' codec: thirteen bytes.\<close>

fun sym_message_bytes :: "sym_message \<Rightarrow> bytes" where
  "sym_message_bytes (SymMessage kind gid by ep old new) = [kind, gid, by, old, new] @ u64_to_be_bytes ep"

definition sym_message_of_bytes :: "bytes \<Rightarrow> sym_message" where
  "sym_message_of_bytes bs =
     SymMessage (bs ! 0) (bs ! 1) (bs ! 2) (of_nat (be_value (drop 5 bs))) (bs ! 3) (bs ! 4)"

definition sym_tls :: "sym_message tls_codec" where
  "sym_tls = std_codec (fixed_field 13 sym_message_bytes sym_message_of_bytes)"

section \<open>It meets the laws\<close>

lemma sym_group_at:
  "group_at sym_mls sym_view s g gid me e pend \<longleftrightarrow>
   gid = [sg_id g] \<and> map_of (fst s) (sg_id g) = Some g \<and> me = unat (sg_me g) \<and>
   e = (sg_epoch g, sg_secret g) \<and> pend = map_option (\<lambda>n. (sg_epoch g + 1, n)) (sg_pending g)"
  by (auto simp: group_at_def sym_mls_def sym_view_def)

lemma sym_put_lookup [simp]: "map_of (fst (sym_put g s)) b = (if b = sg_id g then Some g else map_of (fst s) b)"
  by (simp add: sym_put_def)

lemma sym_mls_reads: "mls_reads sym_mls sym_view"
  by (auto simp: mls_reads_def sym_mls_def sym_view_def split: sym_message.splits if_splits)

lemma sym_mls_commits: "mls_commits sym_mls sym_view"
  unfolding mls_commits_def sym_group_at
  by (auto simp: sym_mls_def sym_view_def sym_self_update_def sym_merge_pending_def sym_clear_pending_def Let_def
      sym_put_def split: if_splits option.splits)

lemma sym_mls_receives: "mls_receives sym_mls sym_view"
  unfolding mls_receives_def sym_group_at
  by (auto simp: sym_mls_def sym_view_def Let_def sym_put_def split: if_splits sym_message.splits)

lemma sym_mls_laws: "mls_laws sym_mls sym_view"
  by (simp add: mls_laws_def sym_mls_reads sym_mls_commits sym_mls_receives)

lemma sym_mls_total: "mls_total sym_mls sym_view"
  unfolding mls_total_def sym_group_at
  by (auto simp: sym_mls_def sym_view_def sym_self_update_def sym_merge_pending_def sym_clear_pending_def Let_def
      sym_export_def split: if_splits option.splits sym_message.splits)

lemma sym_mls_joins: "mls_joins sym_mls sym_view"
  unfolding mls_joins_def sym_group_at
  by (auto simp: sym_mls_def sym_view_def sym_group_build_def sym_add_members_def Let_def sym_put_def
      split: if_splits option.splits sym_message.splits list.splits)

lemma sym_mls_key_packages: "mls_key_packages sym_mls"
  by (auto simp: mls_key_packages_def sym_mls_def sym_key_package_build_def Let_def
      split: if_splits sym_message.splits Credential.splits list.splits)

lemma sym_message_roundtrip: "sym_message_of_bytes (sym_message_bytes m) = m"
  by (cases m) (simp add: sym_message_of_bytes_def)

lemma sym_tls_laws: "tls_laws sym_tls"
  unfolding sym_tls_def
proof (rule std_codec_laws, rule fixed_field_ok)
  show "length (sym_message_bytes m) = 13" for m by (cases m) simp
  show "sym_message_of_bytes (sym_message_bytes m) = m" for m by (rule sym_message_roundtrip)
qed

lemma sym_signaling_total: "signaling_total sym_tls"
  unfolding signaling_total_def
proof
  fix msg
  show "is_ok (SignalingMessage_ser sym_tls msg)"
    by (cases msg) (auto simp: SignalingMessage_ser_def sym_tls_def std_codec_def fixed_field_def ser_seq_def
        ConnectionUpdate_ser_def EpochKeyUpdate_ser_def KeyUpdate_ser_def Boolean_ser_def)
qed

end
