(* ===== verification/Key_Sync_Spec.thy ===== *)
theory Key_Sync_Spec
  imports Main
begin

text \<open>
  The abstract key-update protocol: a client and a server that move through epoch states \<open>'e\<close>,
  exchange updates and key confirmations over two ordered channels, and may both start an update at
  the same time.  Each message carries the epoch state whose keys protect it.  The handlers of
  \<^verbatim>\<open>state_machine/client.rs\<close> and \<^verbatim>\<open>server.rs\<close> are shown to refine it in \<open>Key_Sync\<close>.  The invariant is
  that the protocol is always in one of four phases; in each, the message in front of a channel is
  protected by the keys its receiver holds, and the receiver accepts it.
\<close>

section \<open>The protocol\<close>

datatype 'e amsg = AApp | AUpdate 'e 'e | AKey 'e

text \<open>
  A configuration: is the client waiting, its group state (whose keys it sends under), the state
  whose keys it receives under, the server's group state (whose keys it sends and receives
  under), the server's pending commit, the messages to the server, the messages to the client.
\<close>

datatype 'e config =
  Config bool 'e 'e 'e "'e option" "('e \<times> 'e amsg) list" "('e \<times> 'e amsg) list"

inductive spec_step :: "'e config \<Rightarrow> 'e config \<Rightarrow> bool" where
  client_send: "spec_step (Config w c r s p qs qc) (Config w c r s p (qs @ [(c, AApp)]) qc)"
| server_send: "spec_step (Config w c r s p qs qc) (Config w c r s p qs (qc @ [(s, AApp)]))"
| client_update: "spec_step (Config False c r s p qs qc) (Config True e r s p (qs @ [(c, AUpdate c e)]) qc)"
| server_update: "spec_step (Config w c r s None qs qc) (Config w c r s (Some e) qs (qc @ [(s, AUpdate s e)]))"
| client_app: "spec_step (Config w c r s p qs ((t, AApp) # qc)) (Config w c r s p qs qc)"
| client_ignore: "spec_step (Config True c r s p qs ((t, AUpdate x y) # qc)) (Config True c r s p qs qc)"
| client_follow:
    "spec_step (Config False c r s p qs ((t, AUpdate c y) # qc)) (Config True y r s p (qs @ [(c, AKey y)]) qc)"
| client_key: "spec_step (Config True c r s p qs ((t, AKey c) # qc)) (Config False c c s p qs qc)"
| server_app: "spec_step (Config w c r s p ((t, AApp) # qs) qc) (Config w c r s p qs qc)"
| server_follow:
    "spec_step (Config w c r s p ((t, AUpdate s y) # qs) qc) (Config w c r y None qs (qc @ [(s, AKey y)]))"
| server_key:
    "spec_step (Config w c r s (Some z) ((t, AKey z) # qs) qc) (Config w c r z None qs (qc @ [(s, AKey z)]))"

section \<open>The phases\<close>

text \<open>A stretch of application messages under one key, with at most one update of its sender in it.\<close>

definition apps :: "'e \<Rightarrow> ('e \<times> 'e amsg) list \<Rightarrow> bool" where
  "apps k q \<longleftrightarrow> set q \<subseteq> {(k, AApp)}"

fun segment :: "'e \<Rightarrow> 'e option \<Rightarrow> ('e \<times> 'e amsg) list \<Rightarrow> bool" where
  "segment k so [] \<longleftrightarrow> so = None"
| "segment k so (m # q) \<longleftrightarrow>
     m = (k, AApp) \<and> segment k so q \<or>
     (case so of None \<Rightarrow> False | Some z \<Rightarrow> m = (k, AUpdate k z) \<and> apps k q)"

lemma apps_simps [simp]:
  "apps k []"
  "apps k (m # q) \<longleftrightarrow> m = (k, AApp) \<and> apps k q"
  "apps k (a @ b) \<longleftrightarrow> apps k a \<and> apps k b"
  by (auto simp: apps_def)

lemma segment_None [simp]: "segment k None q \<longleftrightarrow> apps k q"
  by (induction q) auto

lemma segment_Cons:
  "segment k so (m # q) \<longleftrightarrow>
   m = (k, AApp) \<and> segment k so q \<or> (\<exists>z. so = Some z \<and> m = (k, AUpdate k z) \<and> apps k q)"
  by (auto split: option.splits)

lemma segment_snoc_app: "segment k so q \<Longrightarrow> segment k so (q @ [(k, AApp)])"
  by (induction q) (auto simp: segment_Cons simp del: segment.simps(2))

lemma segment_snoc_update: "apps k q \<Longrightarrow> segment k (Some z) (q @ [(k, AUpdate k z)])"
  by (induction q) auto

declare segment.simps(2) [simp del]

inductive in_phase :: "'e config \<Rightarrow> bool" where
  idle: "apps c qs \<Longrightarrow> segment c p qc \<Longrightarrow> in_phase (Config False c c c p qs qc)"
| client_ahead:
    "apps s a \<Longrightarrow> apps c b \<Longrightarrow> segment s p' qc \<Longrightarrow> p' = None \<or> p' = p \<Longrightarrow>
     in_phase (Config True c s s p (a @ (s, AUpdate s c) # b) qc)"
| client_followed:
    "apps s a \<Longrightarrow> apps c b \<Longrightarrow> apps s qc \<Longrightarrow> in_phase (Config True c s s (Some c) (a @ (s, AKey c) # b) qc)"
| server_answered:
    "apps c qs \<Longrightarrow> segment r p' a \<Longrightarrow> segment c p b \<Longrightarrow>
     in_phase (Config True c r c p qs (a @ (r, AKey c) # b))"

inductive_cases in_phaseE: "in_phase (Config w c r s p qs qc)"

lemma in_phase_cases:
  assumes "in_phase (Config w c r s p qs qc)"
  obtains (idle) "\<not> w" "r = c" "s = c" "apps c qs" "segment c p qc"
  | (client_ahead) a b p' where "w" "r = s" "qs = a @ (s, AUpdate s c) # b" "apps s a" "apps c b"
      "segment s p' qc" "p' = None \<or> p' = p"
  | (client_followed) a b where "w" "r = s" "p = Some c" "qs = a @ (s, AKey c) # b" "apps s a" "apps c b"
      "apps s qc"
  | (server_answered) a b p' where "w" "s = c" "qc = a @ (r, AKey c) # b" "apps c qs" "segment r p' a"
      "segment c p b"
  using assms by (rule in_phaseE) auto

lemma in_phaseI:
  "apps c qs \<Longrightarrow> segment c p qc \<Longrightarrow> in_phase (Config False c c c p qs qc)"
  "qs = a @ (s, AUpdate s c) # b \<Longrightarrow> apps s a \<Longrightarrow> apps c b \<Longrightarrow> segment s p qc \<Longrightarrow>
   in_phase (Config True c s s p qs qc)"
  "qs = a @ (s, AUpdate s c) # b \<Longrightarrow> apps s a \<Longrightarrow> apps c b \<Longrightarrow> apps s qc \<Longrightarrow>
   in_phase (Config True c s s p qs qc)"
  "qs = a @ (s, AKey c) # b \<Longrightarrow> apps s a \<Longrightarrow> apps c b \<Longrightarrow> apps s qc \<Longrightarrow>
   in_phase (Config True c s s (Some c) qs qc)"
  "qc = a @ (r, AKey c) # b \<Longrightarrow> apps c qs \<Longrightarrow> segment r p' a \<Longrightarrow> segment c p b \<Longrightarrow>
   in_phase (Config True c r c p qs qc)"
  using in_phase.client_ahead [where p' = None] by (auto intro: in_phase.intros)

text \<open>What the phases say of the front of each channel.\<close>

lemma in_phase_to_client:
  assumes "in_phase (Config w c r s p qs ((t, m) # qc))"
  shows "t = r" and "m = AUpdate x y \<Longrightarrow> \<not> w \<Longrightarrow> x = c" and "m = AKey x \<Longrightarrow> w \<and> x = c"
  using assms by (auto elim!: in_phase_cases simp: segment_Cons Cons_eq_append_conv)

lemma in_phase_to_server:
  assumes "in_phase (Config w c r s p ((t, m) # qs) qc)"
  shows "t = s" and "m = AUpdate x y \<Longrightarrow> x = s" and "m = AKey x \<Longrightarrow> p = Some x"
  using assms by (auto elim!: in_phase_cases simp: Cons_eq_append_conv)

text \<open>Quiescence: with nothing in flight, nobody waits and both sides hold the same keys.\<close>

lemma in_phase_quiescent:
  assumes "in_phase (Config w c r s p [] [])"
  shows "\<not> w \<and> c = s \<and> r = s \<and> p = None"
  using assms by (auto elim!: in_phase_cases)

section \<open>Preservation\<close>

lemma in_phase_client_send:
  assumes "in_phase (Config w c r s p qs qc)"
  shows "in_phase (Config w c r s p (qs @ [(c, AApp)]) qc)"
  using assms
proof (cases rule: in_phase_cases)
  case (client_ahead a b p')
  with in_phaseI(2,3) [of "qs @ [(c, AApp)]" a s c "b @ [(c, AApp)]"] show ?thesis by auto
next
  case (client_followed a b)
  with in_phaseI(4) [of "qs @ [(c, AApp)]" a s c "b @ [(c, AApp)]"] show ?thesis by auto
qed (auto intro: in_phaseI)

lemma in_phase_server_send:
  assumes "in_phase (Config w c r s p qs qc)"
  shows "in_phase (Config w c r s p qs (qc @ [(s, AApp)]))"
  using assms
proof (cases rule: in_phase_cases)
  case (client_ahead a b p')
  with in_phaseI(2,3) [of qs a s c b] show ?thesis by (auto simp: segment_snoc_app)
next
  case (server_answered a b p')
  with in_phaseI(5) [of "qc @ [(s, AApp)]" a r c "b @ [(c, AApp)]"] show ?thesis by (simp add: segment_snoc_app)
qed (auto intro: in_phaseI segment_snoc_app)

lemma in_phase_server_update:
  assumes "in_phase (Config w c r s None qs qc)"
  shows "in_phase (Config w c r s (Some e) qs (qc @ [(s, AUpdate s e)]))"
  using assms
proof (cases rule: in_phase_cases)
  case (client_ahead a b p')
  with in_phaseI(2) [of qs a s c b "Some e"] show ?thesis by (auto simp: segment_snoc_update)
next
  case (server_answered a b p')
  with in_phaseI(5) [of "qc @ [(s, AUpdate s e)]" a r c "b @ [(c, AUpdate c e)]"] show ?thesis
    by (simp add: segment_snoc_update)
qed (auto intro: in_phaseI segment_snoc_update)

lemma in_phase_client_update:
  assumes "in_phase (Config False c r s p qs qc)"
  shows "in_phase (Config True e r s p (qs @ [(c, AUpdate c e)]) qc)"
  using assms in_phaseI(2) [of "qs @ [(c, AUpdate c e)]" qs c e "[]"] by (auto elim!: in_phase_cases)

lemma in_phase_client_drop:
  assumes "in_phase (Config w c r s p qs ((t, m) # qc))" and "m = AApp \<or> m = AUpdate x y \<and> w"
  shows "in_phase (Config w c r s p qs qc)"
  using assms(1)
proof (cases rule: in_phase_cases)
  case (client_ahead a b p')
  with assms(2) in_phaseI(2,3) [of qs a s c b] show ?thesis by (auto simp: segment_Cons)
next
  case (server_answered a b p')
  with assms(2) obtain a' where a: "a = (t, m) # a'" by (auto simp: Cons_eq_append_conv)
  with assms(2) server_answered(5) have "segment r p' a' \<or> segment r None a'" by (auto simp: segment_Cons)
  then obtain so where "segment r so a'" by blast
  with server_answered a in_phaseI(5) [of qc a' r c b] show ?thesis by auto
qed (use assms(2) in \<open>auto simp: segment_Cons intro: in_phaseI\<close>)

lemma in_phase_client_follow:
  assumes "in_phase (Config False c r s p qs ((t, AUpdate x y) # qc))"
  shows "in_phase (Config True y r s p (qs @ [(c, AKey y)]) qc)"
  using assms in_phaseI(4) [of "qs @ [(c, AKey y)]" qs c y "[]" qc]
  by (auto elim!: in_phase_cases simp: segment_Cons)

lemma in_phase_client_key:
  assumes "in_phase (Config w c r s p qs ((t, AKey x) # qc))"
  shows "in_phase (Config False c c s p qs qc)"
  using assms by (auto elim!: in_phase_cases simp: segment_Cons Cons_eq_append_conv intro: in_phaseI)

lemma in_phase_server_drop:
  assumes "in_phase (Config w c r s p ((t, AApp) # qs) qc)"
  shows "in_phase (Config w c r s p qs qc)"
  using assms
proof (cases rule: in_phase_cases)
  case (client_ahead a b p')
  then obtain a' where "a = (t, AApp) # a'" by (auto simp: Cons_eq_append_conv)
  with client_ahead in_phaseI(2,3) [of qs a' s c b] show ?thesis by auto
next
  case (client_followed a b)
  then obtain a' where "a = (t, AApp) # a'" by (auto simp: Cons_eq_append_conv)
  with client_followed in_phaseI(4) [of qs a' s c b] show ?thesis by auto
qed (auto intro: in_phaseI)

lemma in_phase_server_switch:
  assumes "in_phase (Config w c r s p ((t, m) # qs) qc)" and "m = AUpdate x y \<or> m = AKey y"
  shows "in_phase (Config w c r y None qs (qc @ [(s, AKey y)]))"
  using assms(1)
proof (cases rule: in_phase_cases)
  case (client_ahead a b p')
  with assms(2) in_phaseI(5) [of "qc @ [(s, AKey y)]" qc s c "[]" qs p' None] show ?thesis
    by (auto simp: Cons_eq_append_conv)
next
  case (client_followed a b)
  with assms(2) in_phaseI(5) [of "qc @ [(s, AKey y)]" qc s c "[]" qs None None] show ?thesis
    by (auto simp: Cons_eq_append_conv)
qed (use assms(2) in auto)

lemma in_phase_step: "spec_step a b \<Longrightarrow> in_phase a \<Longrightarrow> in_phase b"
  by (induction rule: spec_step.induct)
    (blast intro: in_phase_client_send in_phase_server_send in_phase_client_update in_phase_server_update
      in_phase_client_drop in_phase_client_follow in_phase_client_key in_phase_server_drop
      in_phase_server_switch)+

section \<open>Draining the channels\<close>

text \<open>
  Receiving a message uses up work even where it sends an answer: an update of the server is
  answered by a confirmation, which is answered by a confirmation, which is not answered.
\<close>

fun work_at_server :: "'e amsg \<Rightarrow> nat" where
  "work_at_server AApp = 1" | "work_at_server (AUpdate x y) = 3" | "work_at_server (AKey x) = 3"

fun work_at_client :: "'e amsg \<Rightarrow> nat" where
  "work_at_client AApp = 1" | "work_at_client (AUpdate x y) = 5" | "work_at_client (AKey x) = 1"

fun work :: "'e config \<Rightarrow> nat" where
  "work (Config w c r s p qs qc) =
     sum_list (map (work_at_server \<circ> snd) qs) + sum_list (map (work_at_client \<circ> snd) qc)"

end
