(* ===== verification/Refinement.thy ===== *)
theory Refinement
  imports Main
begin

text \<open>
  Invariant-based refinement of step relations, proved once: if the abstract machine keeps an
  invariant and every concrete step from a related state is matched by an abstract one, then every
  concrete state reached from a related one is related to a reachable abstract state that meets the
  invariant.  \<open>Key_Sync\<close> interprets it with the handshake handlers below and the key-update protocol
  above, \<open>Network_Refinement\<close> with two providers below and the system of \<open>Key_Sync\<close> above.
\<close>

locale refinement =
  fixes cstep :: "'c \<Rightarrow> 'c \<Rightarrow> bool"
    and astep :: "'a \<Rightarrow> 'a \<Rightarrow> bool"
    and rel :: "'c \<Rightarrow> 'a \<Rightarrow> bool"
    and inv :: "'a \<Rightarrow> bool"
  assumes inv_step: "astep a a' \<Longrightarrow> inv a \<Longrightarrow> inv a'"
    and simulation: "rel c a \<Longrightarrow> inv a \<Longrightarrow> cstep c c' \<Longrightarrow> \<exists>a'. astep a a' \<and> rel c' a'"
begin

lemma runs_refine:
  assumes "cstep\<^sup>*\<^sup>* c c'" "rel c a" "inv a"
  shows "\<exists>a'. astep\<^sup>*\<^sup>* a a' \<and> rel c' a' \<and> inv a'"
  using assms
proof (induction rule: rtranclp_induct)
  case base
  then show ?case by blast
next
  case (step d d')
  then obtain b where b: "astep\<^sup>*\<^sup>* a b" "rel d b" "inv b" by blast
  with simulation [OF b(2,3) step.hyps(2)] obtain b' where "astep b b'" "rel d' b'" by blast
  with b inv_step show ?case by (meson rtranclp.rtrancl_into_rtrancl)
qed

end

end
