(* ===== verification/Key_Sync.thy ===== *)
theory Key_Sync
  imports Symbolic_Mls Key_Sync_Spec Refinement
begin

text \<open>
  Two handshake objects, one of each role, exchanging signaling and application messages over two
  ordered channels: the system the providers of \<^verbatim>\<open>src/encryption_provider/mod.rs\<close> form.  Each end
  keeps the traffic secrets its record keys are derived from; a message is put on the channel with
  the secret that protects it.  The order of effects is the provider's: an answer goes out under the
  old secrets, then they change (\<^verbatim>\<open>read_bytes_inner\<close>, \<^verbatim>\<open>process_read_message\<close>), and so does an update
  (\<^verbatim>\<open>send_bytes\<close>).  The system is shown to refine the protocol of \<open>Key_Sync_Spec\<close>.
\<close>

section \<open>The system\<close>

record ('s, 'm) endpoint =
  ep_handshake :: "('s, 'm) MlsHandshake"
  ep_secrets :: TrafficSecrets

text \<open>The secret that protects what the client, respectively the server, sends.\<close>

definition secret_of :: "bool \<Rightarrow> TrafficSecrets \<Rightarrow> bytes" where
  "secret_of is_server ts =
     (if is_server then server_secret_bytes (server_secret ts) else client_secret_bytes (client_secret ts))"

definition adopt :: "SecretUpdate option \<Rightarrow> TrafficSecrets \<Rightarrow> TrafficSecrets" where
  "adopt u ts = (case u of None \<Rightarrow> ts | Some u \<Rightarrow> TrafficSecrets_update ts u)"

type_synonym wire = "(bytes \<times> InnerPlaintext) list"

definition reply :: "bool \<Rightarrow> TrafficSecrets \<Rightarrow> bytes option \<Rightarrow> wire" where
  "reply is_server ts resp = (case resp of None \<Rightarrow> [] | Some bs \<Rightarrow> [(secret_of is_server ts, Signaling bs)])"

datatype ('s, 'm) system = System (system_client: "('s, 'm) endpoint") "('s, 'm) endpoint" wire wire

text \<open>
  The steps of the ends.  A step is a call that succeeds; a refused update (\<^verbatim>\<open>WaitingForResponse\<close>)
  changes nothing.
\<close>

definition endpoint_update ::
    "'m tls_codec \<Rightarrow> 'm json \<Rightarrow> ('s, 'g, 'm, 'o) openmls \<Rightarrow> bool \<Rightarrow> ('s, 'm) endpoint
       \<Rightarrow> (MlsHandshakeError, wire, ('s, 'm) endpoint) outcome" where
  "endpoint_update T J M is_server c =
     (case MlsHandshake_update_handshake T J M (ep_handshake c) of
        (r, hs) \<Rightarrow> bindS (r, c\<lparr>ep_handshake := hs\<rparr>) (\<lambda>(u, bs) c.
          (Ok (reply is_server (ep_secrets c) (Some bs)), c\<lparr>ep_secrets := adopt u (ep_secrets c)\<rparr>)))"

definition endpoint_signal ::
    "bool \<Rightarrow> 'm tls_codec \<Rightarrow> 'm json \<Rightarrow> ('s, 'g, 'm, 'o) openmls \<Rightarrow> bool \<Rightarrow> bytes \<Rightarrow> ('s, 'm) endpoint
       \<Rightarrow> (MlsHandshakeError, wire, ('s, 'm) endpoint) outcome" where
  "endpoint_signal oc T J M is_server bs c =
     (case MlsHandshake_process_signaling_message oc T J M bs (ep_handshake c) of
        (r, hs) \<Rightarrow> bindS (r, c\<lparr>ep_handshake := hs\<rparr>) (\<lambda>(u, resp) c.
          (Ok (reply is_server (ep_secrets c) resp), c\<lparr>ep_secrets := adopt u (ep_secrets c)\<rparr>)))"

inductive sys_step ::
    "bool \<Rightarrow> 'm tls_codec \<Rightarrow> 'm json \<Rightarrow> ('s, 'g, 'm, 'o) openmls \<Rightarrow> ('s, 'm) system \<Rightarrow> ('s, 'm) system \<Rightarrow> bool"
  for oc T J M where
  client_send: "sys_step oc T J M (System c s qs qc)
     (System c s (qs @ [(secret_of False (ep_secrets c), Application b)]) qc)"
| server_send: "sys_step oc T J M (System c s qs qc)
     (System c s qs (qc @ [(secret_of True (ep_secrets s), Application b)]))"
| client_update: "endpoint_update T J M False c = (Ok out, c') \<Longrightarrow>
     sys_step oc T J M (System c s qs qc) (System c' s (qs @ out) qc)"
| server_update: "endpoint_update T J M True s = (Ok out, s') \<Longrightarrow>
     sys_step oc T J M (System c s qs qc) (System c s' qs (qc @ out))"
| client_app: "sys_step oc T J M (System c s qs ((k, Application b) # qc)) (System c s qs qc)"
| server_app: "sys_step oc T J M (System c s ((k, Application b) # qs) qc) (System c s qs qc)"
| client_signal: "endpoint_signal oc T J M False bs c = (Ok out, c') \<Longrightarrow>
     sys_step oc T J M (System c s qs ((k, Signaling bs) # qc)) (System c' s (qs @ out) qc)"
| server_signal: "endpoint_signal oc T J M True bs s = (Ok out, s') \<Longrightarrow>
     sys_step oc T J M (System c s ((k, Signaling bs) # qs) qc) (System c s' qs (qc @ out))"

section \<open>The refinement relation\<close>

text \<open>The server made the group: it is member 0, the client member 1.\<close>

abbreviation "server_leaf \<equiv> (0 :: nat)"
abbreviation "client_leaf \<equiv> (1 :: nat)"

text \<open>What a waiting client knows: the epoch follows the one it reads under, and its own commit leads there.\<close>

definition waits_rel :: "('g, 'm, 'o, 'e) mls_view \<Rightarrow> GroupId \<Rightarrow> 'm ClientHandshakeState \<Rightarrow> 'e \<Rightarrow> 'e \<Rightarrow> bool" where
  "waits_rel V gid st e r \<longleftrightarrow> view_epoch V e = view_epoch V r + 1 \<and>
     (\<forall>p. own_pending_update st = Some p \<longrightarrow>
        view_commit V (pu_mls_message p) = Some (gid, client_leaf, r, e) \<and> exported V e = Ok (pu_traffic_secrets p))"

definition client_rel ::
    "('s, 'g, 'm, 'o) openmls \<Rightarrow> ('g, 'm, 'o, 'e) mls_view \<Rightarrow> GroupId \<Rightarrow> ('s, 'm) endpoint \<Rightarrow> bool \<Rightarrow> 'e \<Rightarrow> 'e \<Rightarrow> bool" where
  "client_rel M V gid c w e r \<longleftrightarrow>
     (\<exists>st ts tr. hs_state (ep_handshake c) = ClientSide st \<and>
        client_session st = \<lparr>group_id = gid, epoch = view_epoch V e\<rparr> \<and>
        member_at M V (connection (ep_handshake c)) gid client_leaf e None \<and>
        exported V e = Ok ts \<and> exported V r = Ok tr \<and>
        ep_secrets c = \<lparr>client_secret = client_secret ts, server_secret = server_secret tr\<rparr> \<and>
        (if w then awaited_secret st = Some (server_secret ts) \<and> waits_rel V gid st e r
         else client_internal st = ClientRunning \<and> r = e))"

definition server_rel ::
    "('s, 'g, 'm, 'o) openmls \<Rightarrow> ('g, 'm, 'o, 'e) mls_view \<Rightarrow> GroupId \<Rightarrow> ('s, 'm) endpoint \<Rightarrow> 'e \<Rightarrow> 'e option \<Rightarrow> bool" where
  "server_rel M V gid s e p \<longleftrightarrow>
     (\<exists>st. hs_state (ep_handshake s) = ServerSide st \<and>
        server_session st = \<lparr>group_id = gid, epoch = view_epoch V e\<rparr> \<and>
        member_at M V (connection (ep_handshake s)) gid server_leaf e p \<and>
        exported V e = Ok (ep_secrets s) \<and>
        server_internal st = (if p = None then ServerRunning else WaitingForUpdate))"

fun content_rel ::
    "'m tls_codec \<Rightarrow> ('g, 'm, 'o, 'e) mls_view \<Rightarrow> GroupId \<Rightarrow> nat \<Rightarrow> InnerPlaintext \<Rightarrow> 'e amsg \<Rightarrow> bool" where
  "content_rel T V gid by plain AApp \<longleftrightarrow> (\<exists>b. plain = Application b)"
| "content_rel T V gid by plain (AUpdate x y) \<longleftrightarrow>
     (\<exists>bs m. plain = Signaling bs \<and> reads_update T bs m \<and> view_commit V m = Some (gid, by, x, y))"
| "content_rel T V gid by plain (AKey y) \<longleftrightarrow> (\<exists>bs. plain = Signaling bs \<and> reads_key T bs (view_epoch V y))"

definition msg_rel ::
    "'m tls_codec \<Rightarrow> ('g, 'm, 'o, 'e) mls_view \<Rightarrow> GroupId \<Rightarrow> bool \<Rightarrow> bytes \<times> InnerPlaintext \<Rightarrow> 'e \<times> 'e amsg \<Rightarrow> bool" where
  "msg_rel T V gid from_server wire_msg abstract_msg \<longleftrightarrow>
     (\<exists>ts. exported V (fst abstract_msg) = Ok ts \<and> fst wire_msg = secret_of from_server ts) \<and>
     content_rel T V gid (if from_server then server_leaf else client_leaf) (snd wire_msg) (snd abstract_msg)"

text \<open>A client that waits without a commit of its own follows the server's.\<close>

definition client_update_of :: "('s, 'm) endpoint \<Rightarrow> 'm PendingUpdate option" where
  "client_update_of c = (case hs_state (ep_handshake c) of ClientSide st \<Rightarrow> own_pending_update st | _ \<Rightarrow> None)"

definition follows_server :: "('s, 'm) endpoint \<Rightarrow> bool \<Rightarrow> 'e \<Rightarrow> 'e \<Rightarrow> 'e option \<Rightarrow> bool" where
  "follows_server c w e se p \<longleftrightarrow> (w \<and> client_update_of c = None \<longrightarrow> p = Some e \<or> se = e)"

lemma follows_server_simps [simp]:
  "follows_server c False e se p" "follows_server c w e e p" "follows_server c w e se (Some e)"
  by (simp_all add: follows_server_def)

fun sync_rel ::
    "'m tls_codec \<Rightarrow> ('s, 'g, 'm, 'o) openmls \<Rightarrow> ('g, 'm, 'o, 'e) mls_view \<Rightarrow> GroupId
       \<Rightarrow> ('s, 'm) system \<Rightarrow> 'e config \<Rightarrow> bool" where
  "sync_rel T M V gid (System c s qs qc) (Config w e r se p aqs aqc) \<longleftrightarrow>
     tls_laws T \<and> mls_laws M V \<and> client_rel M V gid c w e r \<and> server_rel M V gid s se p \<and>
     follows_server c w e se p \<and> list_all2 (msg_rel T V gid False) qs aqs \<and> list_all2 (msg_rel T V gid True) qc aqc"

section \<open>The steps of the client\<close>

lemma client_update_rel:
  assumes "tls_laws T" "mls_laws M V" "client_rel M V gid c w e r"
    and "endpoint_update T J M False c = (Ok out, c')"
  shows "\<not> w \<and> (\<exists>e'. client_rel M V gid c' True e' r \<and> client_update_of c' \<noteq> None \<and>
    list_all2 (msg_rel T V gid False) out [(e, AUpdate e e')])"
proof -
  obtain st ts tr where st: "hs_state (ep_handshake c) = ClientSide st"
    "client_session st = \<lparr>group_id = gid, epoch = view_epoch V e\<rparr>"
    "member_at M V (connection (ep_handshake c)) gid client_leaf e None"
    "exported V e = Ok ts" "exported V r = Ok tr"
    "ep_secrets c = \<lparr>client_secret = client_secret ts, server_secret = server_secret tr\<rparr>"
    and w: "if w then awaited_secret st = Some (server_secret ts) \<and> waits_rel V gid st e r
      else client_internal st = ClientRunning \<and> r = e"
    using assms(3) unfolding client_rel_def by blast
  from assms(4) st(1) obtain secret bs st' conn' where
    u: "ClientHandshakeState_update T J M (leaf_signer (ep_handshake c)) False (st, connection (ep_handshake c))
          = (Ok (secret, bs), (st', conn'))" and
    out: "out = [(secret_of False (ep_secrets c), Signaling bs)]" and
    c': "c' = c\<lparr>ep_handshake := (ep_handshake c)\<lparr>hs_state := ClientSide st', connection := conn'\<rparr>,
                ep_secrets := (ep_secrets c)\<lparr>client_secret := secret\<rparr>\<rparr>"
    by (auto simp: endpoint_update_def MlsHandshake_update_handshake_def bindS_eq_Ok reply_def adopt_def
        split: prod.splits)
  have "member_at M V (connection (ep_handshake c)) (group_id (client_session st)) client_leaf e None"
    using st(2,3) by simp
  from client_update_effect [OF assms(1,2) this u] obtain e' ts' m where
    eff: "client_internal st = ClientRunning" "exported V e' = Ok ts'" "secret = client_secret ts'"
      "view_commit V m = Some (gid, client_leaf, e, e')" "reads_update T bs m"
      "member_at M V conn' gid client_leaf e' None"
      "st' = st\<lparr>client_session := \<lparr>group_id = gid, epoch = view_epoch V e'\<rparr>,
               client_internal := WaitingForEpochKeyUpdate \<lparr>pu_mls_message = m, pu_traffic_secrets = ts'\<rparr>\<rparr>"
    using st(2) by auto
  have "\<not> w" "r = e" using w eff(1) by (auto simp: awaited_secret_def split: if_splits)
  moreover have "client_rel M V gid c' True e' r"
    using eff st c' \<open>r = e\<close> mls_commit_message(1) [OF assms(2) eff(4)]
    by (auto simp: client_rel_def awaited_secret_def waits_rel_def own_pending_update_def)
  moreover have "client_update_of c' \<noteq> None"
    using eff c' by (auto simp: client_update_of_def own_pending_update_def)
  moreover have "list_all2 (msg_rel T V gid False) out [(e, AUpdate e e')]"
    using eff st out by (auto simp: msg_rel_def secret_of_def)
  ultimately show ?thesis by blast
qed

text \<open>The received message determines the step.\<close>

lemma client_signal_cases:
  assumes "endpoint_signal oc T J M False bs c = (Ok out, c')" "hs_state (ep_handshake c) = ClientSide st"
  obtains u resp st' conn' where
    "ClientHandshakeState_receive_signaling_message oc T J M (leaf_signer (ep_handshake c)) bs
       (st, connection (ep_handshake c)) = (Ok (u, resp), (st', conn'))"
    "out = reply False (ep_secrets c) resp"
    "c' = c\<lparr>ep_handshake := (ep_handshake c)\<lparr>hs_state := ClientSide st', connection := conn'\<rparr>,
           ep_secrets := adopt u (ep_secrets c)\<rparr>"
  using assms
  by (auto simp: endpoint_signal_def MlsHandshake_process_signaling_message_def bindS_eq_Ok split: prod.splits)

lemma client_ignore_rel:
  assumes "client_rel M V gid c True e r" "reads_update T bs m"
    and "endpoint_signal oc T J M False bs c = (Ok out, c')"
  shows "c' = c \<and> out = []"
proof -
  obtain st where st: "hs_state (ep_handshake c) = ClientSide st" "client_internal st \<noteq> ClientRunning"
    using assms(1) by (auto simp: client_rel_def dest: awaited_secret_waits)
  from assms(3) st(1) show ?thesis
    by (rule client_signal_cases)
      (auto simp: client_ignores_update [OF assms(2) st(2)] st(1) [symmetric] reply_def adopt_def)
qed

lemma client_follow_rel:
  assumes "tls_laws T" "mls_laws M V" "client_rel M V gid c False e r" "reads_update T bs m"
    and "view_commit V m = Some (gid, server_leaf, e, e')"
    and "endpoint_signal oc T J M False bs c = (Ok out, c')"
  shows "client_rel M V gid c' True e' r \<and> list_all2 (msg_rel T V gid False) out [(e, AKey e')]"
proof -
  obtain st ts tr where st: "hs_state (ep_handshake c) = ClientSide st"
    "member_at M V (connection (ep_handshake c)) gid client_leaf e None"
    "exported V e = Ok ts" "exported V r = Ok tr"
    "ep_secrets c = \<lparr>client_secret = client_secret ts, server_secret = server_secret tr\<rparr>"
    "client_internal st = ClientRunning" "r = e"
    using assms(3) unfolding client_rel_def by auto
  from assms(6) st(1) show ?thesis
  proof (rule client_signal_cases)
    fix u resp st' conn'
    assume step: "ClientHandshakeState_receive_signaling_message oc T J M (leaf_signer (ep_handshake c)) bs
        (st, connection (ep_handshake c)) = (Ok (u, resp), (st', conn'))"
      and out: "out = reply False (ep_secrets c) resp"
      and c': "c' = c\<lparr>ep_handshake := (ep_handshake c)\<lparr>hs_state := ClientSide st', connection := conn'\<rparr>,
           ep_secrets := adopt u (ep_secrets c)\<rparr>"
    from client_receive_update_effect [OF assms(1,2) st(2) assms(5) _ assms(4) st(6) step] obtain ts' rb where
      eff: "exported V e' = Ok ts'" "u = Some (ClientSecretUpdate (client_secret ts'))" "resp = Some rb"
        "reads_key T rb (view_epoch V e')" "member_at M V conn' gid client_leaf e' None"
        "st' = st\<lparr>client_session := \<lparr>group_id = gid, epoch = view_epoch V e'\<rparr>,
                 client_internal := WaitingForEpochKeyUpdateReturn (server_secret ts')\<rparr>"
      by auto
    then show ?thesis
      using st c' out mls_commit_message(1) [OF assms(2,5)]
      by (auto simp: client_rel_def waits_rel_def awaited_secret_def own_pending_update_def adopt_def reply_def
          msg_rel_def secret_of_def)
  qed
qed

lemma client_key_rel:
  assumes "mls_laws M V" "client_rel M V gid c True e r" "reads_key T bs (view_epoch V e)"
    and "endpoint_signal oc T J M False bs c = (Ok out, c')"
  shows "client_rel M V gid c' False e e \<and> out = []"
proof -
  obtain st ts tr where st: "hs_state (ep_handshake c) = ClientSide st"
    "client_session st = \<lparr>group_id = gid, epoch = view_epoch V e\<rparr>"
    "member_at M V (connection (ep_handshake c)) gid client_leaf e None"
    "exported V e = Ok ts"
    "ep_secrets c = \<lparr>client_secret = client_secret ts, server_secret = server_secret tr\<rparr>"
    "awaited_secret st = Some (server_secret ts)" "exported V r = Ok tr"
    using assms(2) unfolding client_rel_def by auto
  from assms(4) st(1) show ?thesis
  proof (rule client_signal_cases)
    fix u resp st' conn'
    assume step: "ClientHandshakeState_receive_signaling_message oc T J M (leaf_signer (ep_handshake c)) bs
        (st, connection (ep_handshake c)) = (Ok (u, resp), (st', conn'))"
      and out: "out = reply False (ep_secrets c) resp"
      and c': "c' = c\<lparr>ep_handshake := (ep_handshake c)\<lparr>hs_state := ClientSide st', connection := conn'\<rparr>,
           ep_secrets := adopt u (ep_secrets c)\<rparr>"
    have "member_at M V (connection (ep_handshake c)) (group_id (client_session st)) client_leaf e None"
      using st(2,3) by simp
    from client_receive_key_effect [OF assms(1) this assms(3) st(6) step] show ?thesis
      using st c' out by (auto simp: client_rel_def adopt_def reply_def)
  qed
qed

section \<open>The steps of the server\<close>

lemma server_update_rel:
  assumes "tls_laws T" "mls_laws M V" "server_rel M V gid s e p"
    and "endpoint_update T J M True s = (Ok out, s')"
  shows "p = None \<and> (\<exists>e'. server_rel M V gid s' e (Some e') \<and> list_all2 (msg_rel T V gid True) out [(e, AUpdate e e')])"
proof -
  obtain st where st: "hs_state (ep_handshake s) = ServerSide st"
    "server_session st = \<lparr>group_id = gid, epoch = view_epoch V e\<rparr>"
    "member_at M V (connection (ep_handshake s)) gid server_leaf e p" "exported V e = Ok (ep_secrets s)"
    "server_internal st = (if p = None then ServerRunning else WaitingForUpdate)"
    using assms(3) unfolding server_rel_def by blast
  from assms(4) st(1) obtain bs st' conn' where
    u: "ServerHandshakeState_update T M (leaf_signer (ep_handshake s)) False (st, connection (ep_handshake s))
          = (Ok bs, (st', conn'))" and
    out: "out = [(secret_of True (ep_secrets s), Signaling bs)]" and
    s': "s' = s\<lparr>ep_handshake := (ep_handshake s)\<lparr>hs_state := ServerSide st', connection := conn'\<rparr>\<rparr>"
    by (auto simp: endpoint_update_def MlsHandshake_update_handshake_def bindS_eq_Ok reply_def adopt_def
        split: prod.splits)
  have p: "p = None"
    using u st(5) by (auto simp: ServerHandshakeState_update_def ServerHandshakeState_is_waiting_for_response_def
        split: if_splits)
  then have "member_at M V (connection (ep_handshake s)) (group_id (server_session st)) server_leaf e None"
    using st(2,3) by simp
  from server_update_effect [OF assms(1,2) this u] obtain e' m where
    "view_commit V m = Some (gid, server_leaf, e, e')" "reads_update T bs m"
      "member_at M V conn' gid server_leaf e (Some e')" "st' = st\<lparr>server_internal := WaitingForUpdate\<rparr>"
    using st(2) by auto
  with st s' out p show ?thesis
    by (auto simp: server_rel_def msg_rel_def intro!: exI [of _ e'])
qed

lemma server_signal_cases:
  assumes "endpoint_signal oc T J M True bs s = (Ok out, s')" "hs_state (ep_handshake s) = ServerSide st"
  obtains ts resp st' conn' where
    "ServerHandshakeState_receive_signaling_message oc T M (leaf_signer (ep_handshake s)) bs
       (st, connection (ep_handshake s)) = (Ok (ts, resp), (st', conn'))"
    "out = reply True (ep_secrets s) resp"
    "s' = s\<lparr>ep_handshake := (ep_handshake s)\<lparr>hs_state := ServerSide st', connection := conn'\<rparr>,
           ep_secrets := ts\<rparr>"
  using assms
  by (auto simp: endpoint_signal_def MlsHandshake_process_signaling_message_def bindS_eq_Ok adopt_def
      split: prod.splits)

lemma server_follow_rel:
  assumes "tls_laws T" "mls_laws M V" "server_rel M V gid s e p" "reads_update T bs m"
    and "view_commit V m = Some (gid, client_leaf, e, e')"
    and "endpoint_signal oc T J M True bs s = (Ok out, s')"
  shows "server_rel M V gid s' e' None \<and> list_all2 (msg_rel T V gid True) out [(e, AKey e')]"
proof -
  obtain st where st: "hs_state (ep_handshake s) = ServerSide st"
    "member_at M V (connection (ep_handshake s)) gid server_leaf e p" "exported V e = Ok (ep_secrets s)"
    using assms(3) unfolding server_rel_def by blast
  from assms(6) st(1) show ?thesis
  proof (rule server_signal_cases)
    fix ts resp st' conn'
    assume step: "ServerHandshakeState_receive_signaling_message oc T M (leaf_signer (ep_handshake s)) bs
        (st, connection (ep_handshake s)) = (Ok (ts, resp), (st', conn'))"
      and out: "out = reply True (ep_secrets s) resp"
      and s': "s' = s\<lparr>ep_handshake := (ep_handshake s)\<lparr>hs_state := ServerSide st', connection := conn'\<rparr>,
           ep_secrets := ts\<rparr>"
    have "\<exists>rb. exported V e' = Ok ts \<and> resp = Some rb \<and> reads_key T rb (view_epoch V e') \<and>
      member_at M V conn' gid server_leaf e' None \<and>
      st' = st\<lparr>server_session := \<lparr>group_id = gid, epoch = view_epoch V e'\<rparr>, server_internal := ServerRunning\<rparr>"
      by (rule server_receive_update_effect [OF assms(1,2) st(2) assms(5) _ _ assms(4) step]) simp_all
    then show ?thesis using st s' out by (auto simp: server_rel_def reply_def msg_rel_def)
  qed
qed

lemma server_key_rel:
  assumes "tls_laws T" "mls_laws M V" "server_rel M V gid s e (Some e')" "reads_key T bs (view_epoch V e')"
    and "endpoint_signal oc T J M True bs s = (Ok out, s')"
  shows "server_rel M V gid s' e' None \<and> list_all2 (msg_rel T V gid True) out [(e, AKey e')]"
proof -
  obtain st where st: "hs_state (ep_handshake s) = ServerSide st"
    "server_session st = \<lparr>group_id = gid, epoch = view_epoch V e\<rparr>"
    "member_at M V (connection (ep_handshake s)) gid server_leaf e (Some e')" "exported V e = Ok (ep_secrets s)"
    using assms(3) unfolding server_rel_def by blast
  from assms(5) st(1) show ?thesis
  proof (rule server_signal_cases)
    fix ts resp st' conn'
    assume step: "ServerHandshakeState_receive_signaling_message oc T M (leaf_signer (ep_handshake s)) bs
        (st, connection (ep_handshake s)) = (Ok (ts, resp), (st', conn'))"
      and out: "out = reply True (ep_secrets s) resp"
      and s': "s' = s\<lparr>ep_handshake := (ep_handshake s)\<lparr>hs_state := ServerSide st', connection := conn'\<rparr>,
           ep_secrets := ts\<rparr>"
    have "member_at M V (connection (ep_handshake s)) (group_id (server_session st)) server_leaf e (Some e')"
      using st(2,3) by simp
    from server_receive_key_effect [OF assms(1,2) this assms(4) step] show ?thesis
      using st s' out by (auto simp: server_rel_def reply_def msg_rel_def)
  qed
qed

section \<open>The refinement\<close>

lemma content_rel_cases:
  "content_rel T V gid by (Application b) m \<Longrightarrow> m = AApp"
  "content_rel T V gid by (Signaling bs) m \<Longrightarrow>
     (\<exists>x y mc. m = AUpdate x y \<and> reads_update T bs mc \<and> view_commit V mc = Some (gid, by, x, y)) \<or>
     (\<exists>y. m = AKey y \<and> reads_key T bs (view_epoch V y))"
  by (cases m; auto)+

lemma list_all2_snoc: "list_all2 P xs ys \<Longrightarrow> list_all2 P out [y] \<Longrightarrow> list_all2 P (xs @ out) (ys @ [y])"
  by (rule list_all2_appendI)

lemma client_signal_simulated:
  assumes "sync_rel T M V gid (System c s qs ((k, Signaling bs) # qc)) a" "in_phase a"
    and "endpoint_signal oc T J M False bs c = (Ok out, c')"
  shows "\<exists>a'. spec_step a a' \<and> work a' < work a \<and> sync_rel T M V gid (System c' s (qs @ out) qc) a'"
proof -
  obtain w e r se p aqs t m aqc where a: "a = Config w e r se p aqs ((t, m) # aqc)"
    and rel: "tls_laws T" "mls_laws M V" "client_rel M V gid c w e r" "server_rel M V gid s se p"
      "list_all2 (msg_rel T V gid False) qs aqs" "list_all2 (msg_rel T V gid True) qc aqc"
      "content_rel T V gid server_leaf (Signaling bs) m" "follows_server c w e se p"
    using assms(1) by (cases a) (auto simp: list_all2_Cons1 msg_rel_def)
  note front = in_phase_to_client [OF assms(2) [unfolded a]]
  from content_rel_cases(2) [OF rel(7)] show ?thesis
  proof (elim disjE exE conjE)
    fix x y mc
    assume m: "m = AUpdate x y" "reads_update T bs mc" "view_commit V mc = Some (gid, server_leaf, x, y)"
    show ?thesis
    proof (cases w)
      case True
      then have "client_rel M V gid c True e r" using rel(3) by simp
      from client_ignore_rel [OF this m(2) assms(3)] have "c' = c" "out = []" by auto
      with True rel a m(1) show ?thesis
        by (intro exI [of _ "Config True e r se p aqs aqc"]) (auto intro: spec_step.client_ignore)
    next
      case False
      with front(2) m(1) have "x = e" by simp
      with client_follow_rel [OF rel(1,2) _ m(2) _ assms(3)] rel(3) m(3) False
      have "client_rel M V gid c' True y r" "list_all2 (msg_rel T V gid False) out [(e, AKey y)]" by auto
      moreover have "p = Some y" using assms(2) a m(1) False by (auto elim!: in_phase_cases simp: segment_Cons)
      ultimately show ?thesis using rel a m(1) False \<open>x = e\<close>
        by (intro exI [of _ "Config True y r se p (aqs @ [(e, AKey y)]) aqc"])
          (auto intro: spec_step.client_follow list_all2_snoc)
    qed
  next
    fix y
    assume m: "m = AKey y" "reads_key T bs (view_epoch V y)"
    with front(3) have "w" "y = e" by auto
    with client_key_rel [OF rel(2) _ _ assms(3)] rel(3) m(2)
    have "client_rel M V gid c' False e e" "out = []" by auto
    with rel a m(1) \<open>w\<close> \<open>y = e\<close> show ?thesis
      by (intro exI [of _ "Config False e e se p aqs aqc"]) (auto intro: spec_step.client_key)
  qed
qed

lemma server_signal_simulated:
  assumes "sync_rel T M V gid (System c s ((k, Signaling bs) # qs) qc) a" "in_phase a"
    and "endpoint_signal oc T J M True bs s = (Ok out, s')"
  shows "\<exists>a'. spec_step a a' \<and> work a' < work a \<and> sync_rel T M V gid (System c s' qs (qc @ out)) a'"
proof -
  obtain w e r se p aqs t m aqc where a: "a = Config w e r se p ((t, m) # aqs) aqc"
    and rel: "tls_laws T" "mls_laws M V" "client_rel M V gid c w e r" "server_rel M V gid s se p"
      "list_all2 (msg_rel T V gid False) qs aqs" "list_all2 (msg_rel T V gid True) qc aqc"
      "content_rel T V gid client_leaf (Signaling bs) m"
    using assms(1) by (cases a) (auto simp: list_all2_Cons1 msg_rel_def)
  note front = in_phase_to_server [OF assms(2) [unfolded a]]
  from content_rel_cases(2) [OF rel(7)] show ?thesis
  proof (elim disjE exE conjE)
    fix x y mc
    assume m: "m = AUpdate x y" "reads_update T bs mc" "view_commit V mc = Some (gid, client_leaf, x, y)"
    with front(2) have "x = se" by simp
    with server_follow_rel [OF rel(1,2,4) m(2) _ assms(3)] m(3)
    have "server_rel M V gid s' y None" "list_all2 (msg_rel T V gid True) out [(se, AKey y)]" by auto
    moreover have "y = e" using assms(2) a m(1) by (auto elim!: in_phase_cases simp: Cons_eq_append_conv)
    ultimately show ?thesis using rel a m(1) \<open>x = se\<close>
      by (intro exI [of _ "Config w e r y None aqs (aqc @ [(se, AKey y)])"])
        (auto intro: spec_step.server_follow list_all2_snoc)
  next
    fix y
    assume m: "m = AKey y" "reads_key T bs (view_epoch V y)"
    with front(3) have p: "p = Some y" by simp
    with server_key_rel [OF rel(1,2) _ m(2) assms(3)] rel(4)
    have "server_rel M V gid s' y None" "list_all2 (msg_rel T V gid True) out [(se, AKey y)]" by auto
    moreover have "y = e" using assms(2) a m(1) by (auto elim!: in_phase_cases simp: Cons_eq_append_conv)
    ultimately show ?thesis using rel a m(1) p
      by (intro exI [of _ "Config w e r y None aqs (aqc @ [(se, AKey y)])"])
        (auto intro: spec_step.server_key list_all2_snoc)
  qed
qed

lemma endpoint_secrets:
  "client_rel M V gid c w e r \<Longrightarrow> \<exists>ts. exported V e = Ok ts \<and> secret_of False (ep_secrets c) = secret_of False ts"
  "client_rel M V gid c w e r \<Longrightarrow> \<exists>tr. exported V r = Ok tr \<and> secret_of True (ep_secrets c) = secret_of True tr"
  "server_rel M V gid s se p \<Longrightarrow> exported V se = Ok (ep_secrets s)"
  by (auto simp: client_rel_def server_rel_def secret_of_def)

lemma send_simulated:
  assumes "sync_rel T M V gid (System c s qs qc) a"
  shows "\<exists>a'. spec_step a a' \<and>
      sync_rel T M V gid (System c s (qs @ [(secret_of False (ep_secrets c), Application b)]) qc) a'"
    and "\<exists>a'. spec_step a a' \<and>
      sync_rel T M V gid (System c s qs (qc @ [(secret_of True (ep_secrets s), Application b)])) a'"
proof -
  obtain w e r se p aqs aqc where a: "a = Config w e r se p aqs aqc" by (cases a)
  with assms have "client_rel M V gid c w e r" "server_rel M V gid s se p" by auto
  note secrets = endpoint_secrets(1) [OF this(1)] endpoint_secrets(3) [OF this(2)]
  show "\<exists>a'. spec_step a a' \<and>
      sync_rel T M V gid (System c s (qs @ [(secret_of False (ep_secrets c), Application b)]) qc) a'"
    using assms a secrets
    by (intro exI [of _ "Config w e r se p (aqs @ [(e, AApp)]) aqc"])
      (auto intro!: spec_step.client_send list_all2_appendI simp: msg_rel_def)
  show "\<exists>a'. spec_step a a' \<and>
      sync_rel T M V gid (System c s qs (qc @ [(secret_of True (ep_secrets s), Application b)])) a'"
    using assms a secrets
    by (intro exI [of _ "Config w e r se p aqs (aqc @ [(se, AApp)])"])
      (auto intro!: spec_step.server_send list_all2_appendI simp: msg_rel_def)
qed

lemma client_update_simulated:
  assumes "sync_rel T M V gid (System c s qs qc) a" "endpoint_update T J M False c = (Ok out, c')"
  shows "\<exists>a'. spec_step a a' \<and> sync_rel T M V gid (System c' s (qs @ out) qc) a'"
proof -
  obtain w e r se p aqs aqc where a: "a = Config w e r se p aqs aqc" by (cases a)
  with assms(1) have rel: "tls_laws T" "mls_laws M V" "client_rel M V gid c w e r" by auto
  from client_update_rel [OF rel assms(2)] obtain e' where "\<not> w" "client_rel M V gid c' True e' r"
    "client_update_of c' \<noteq> None" "list_all2 (msg_rel T V gid False) out [(e, AUpdate e e')]" by blast
  with assms(1) a show ?thesis
    by (intro exI [of _ "Config True e' r se p (aqs @ [(e, AUpdate e e')]) aqc"])
      (auto intro: spec_step.client_update list_all2_snoc simp: follows_server_def)
qed

lemma server_update_simulated:
  assumes "sync_rel T M V gid (System c s qs qc) a" "endpoint_update T J M True s = (Ok out, s')"
  shows "\<exists>a'. spec_step a a' \<and> sync_rel T M V gid (System c s' qs (qc @ out)) a'"
proof -
  obtain w e r se p aqs aqc where a: "a = Config w e r se p aqs aqc" by (cases a)
  with assms(1) have rel: "tls_laws T" "mls_laws M V" "server_rel M V gid s se p" by auto
  from server_update_rel [OF rel assms(2)] obtain e' where "p = None" "server_rel M V gid s' se (Some e')"
    "list_all2 (msg_rel T V gid True) out [(se, AUpdate se e')]" by blast
  with assms(1) a show ?thesis
    by (intro exI [of _ "Config w e r se (Some e') aqs (aqc @ [(se, AUpdate se e')])"])
      (auto intro: spec_step.server_update list_all2_snoc simp: follows_server_def)
qed

lemma app_simulated:
  assumes "sync_rel T M V gid (System c s qs qc) a"
  shows "qc = (k, Application b) # qc' \<Longrightarrow>
      \<exists>a'. spec_step a a' \<and> work a' < work a \<and> sync_rel T M V gid (System c s qs qc') a'"
    and "qs = (k, Application b) # qs' \<Longrightarrow>
      \<exists>a'. spec_step a a' \<and> work a' < work a \<and> sync_rel T M V gid (System c s qs' qc) a'"
  using assms
  by (cases a; fastforce simp: list_all2_Cons1 msg_rel_def dest!: content_rel_cases(1)
      intro: spec_step.client_app spec_step.server_app)+

interpretation key_sync: refinement "sys_step oc T J M" spec_step "sync_rel T M V gid" in_phase
  for oc T J M V gid
proof unfold_locales
  show "spec_step a a' \<Longrightarrow> in_phase a \<Longrightarrow> in_phase a'" for a a' by (rule in_phase_step)
next
  fix c a c'
  assume "sync_rel T M V gid c a" "in_phase a" "sys_step oc T J M c c'"
  from this(3,1,2) show "\<exists>a'. spec_step a a' \<and> sync_rel T M V gid c' a'"
  proof (induction rule: sys_step.induct)
    case (client_send c s qs qc b)
    then show ?case using send_simulated(1) by blast
  next
    case (server_send c s qs qc b)
    then show ?case using send_simulated(2) by blast
  next
    case (client_update c out c' s qs qc)
    then show ?case using client_update_simulated by blast
  next
    case (server_update s out s' c qs qc)
    then show ?case using server_update_simulated by blast
  next
    case (client_app c s qs k b qc)
    then show ?case using app_simulated(1) by blast
  next
    case (server_app c s k b qs qc)
    then show ?case using app_simulated(2) by blast
  next
    case (client_signal bs c out c' s qs k qc)
    then show ?case using client_signal_simulated by blast
  next
    case (server_signal bs s out s' c k qs qc)
    then show ?case using server_signal_simulated by blast
  qed
qed

section \<open>Messages in flight are accepted\<close>

text \<open>Nothing outside the protocol fails: serialisation, MLS, epoch numbers and, for the client, the database.\<close>

definition nothing_fails ::
    "bool \<Rightarrow> 'm tls_codec \<Rightarrow> ('s, 'g, 'm, 'o) openmls \<Rightarrow> ('g, 'm, 'o, 'e) mls_view \<Rightarrow> bool" where
  "nothing_fails oc T M V \<longleftrightarrow>
     signaling_total T \<and> mls_total M V \<and> (\<forall>e. epoch_in_range oc (view_epoch V e))"

abbreviation client_db_works :: "'m json \<Rightarrow> ('s, 'm) endpoint \<Rightarrow> bool" where
  "client_db_works J c \<equiv> db_works J (connection (ep_handshake c))"

lemma client_signal_accepted:
  assumes "sync_rel T M V gid (System c s qs ((k, Signaling bs) # qc)) a" "in_phase a"
    and "nothing_fails oc T M V" "client_db_works J c"
  shows "\<exists>out c'. endpoint_signal oc T J M False bs c = (Ok out, c') \<and> client_db_works J c'"
proof -
  let ?conn = "connection (ep_handshake c)" and ?k = "leaf_signer (ep_handshake c)"
  obtain w e r se p aqs t m aqc where a: "a = Config w e r se p aqs ((t, m) # aqc)"
    and laws: "tls_laws T" "mls_laws M V" and crel: "client_rel M V gid c w e r"
    and msg: "content_rel T V gid server_leaf (Signaling bs) m"
    using assms(1) by (cases a) (auto simp: list_all2_Cons1 msg_rel_def)
  note front = in_phase_to_client [OF assms(2) [unfolded a]]
  note total = assms(3) [unfolded nothing_fails_def]
  from crel obtain st and ts :: TrafficSecrets where st: "hs_state (ep_handshake c) = ClientSide st"
    "group_id (client_session st) = gid" "member_at M V ?conn gid client_leaf e None"
    "if w then awaited_secret st = Some (server_secret ts) else client_internal st = ClientRunning"
    by (cases w) (auto simp: client_rel_def)
  have member: "member_at M V ?conn (group_id (client_session st)) client_leaf e None" using st(2,3) by simp
  have "\<exists>u resp st' conn'. ClientHandshakeState_receive_signaling_message oc T J M ?k bs (st, ?conn) =
      (Ok (u, resp), (st', conn')) \<and> db_works J conn'"
    using content_rel_cases(2) [OF msg]
  proof (elim disjE exE conjE)
    fix x y mc
    assume m: "m = AUpdate x y" "reads_update T bs mc" "view_commit V mc = Some (gid, server_leaf, x, y)"
    show ?thesis
    proof (cases w)
      case True
      then have "client_internal st \<noteq> ClientRunning" using st(4) awaited_secret_waits by auto
      with assms(4) show ?thesis by (simp add: client_ignores_update [OF m(2)])
    next
      case False
      with front(2) m(1) have "x = e" by simp
      with m(3) have commit: "view_commit V mc = Some (gid, server_leaf, e, y)" by simp
      show ?thesis
        by (rule client_receive_update_total [OF _ laws(2) _ st(3) commit _ m(2)])
          (use total False st(4) assms(4) in auto)
    qed
  next
    fix y
    assume m: "m = AKey y" "reads_key T bs (view_epoch V y)"
    with front(3) have "w" "y = e" by auto
    with m(2) st(4) show ?thesis
      using client_receive_key_total [OF laws(2) member _ _ assms(4)] by auto
  qed
  then show ?thesis
    using st(1)
    by (auto simp: endpoint_signal_def MlsHandshake_process_signaling_message_def split: prod.splits)
qed

lemma server_signal_accepted:
  assumes "sync_rel T M V gid (System c s ((k, Signaling bs) # qs) qc) a" "in_phase a"
    and "nothing_fails oc T M V"
  shows "\<exists>out s'. endpoint_signal oc T J M True bs s = (Ok out, s')"
proof -
  let ?conn = "connection (ep_handshake s)" and ?k = "leaf_signer (ep_handshake s)"
  obtain w e r se p aqs t m aqc where a: "a = Config w e r se p ((t, m) # aqs) aqc"
    and laws: "tls_laws T" "mls_laws M V" and srel: "server_rel M V gid s se p"
    and msg: "content_rel T V gid client_leaf (Signaling bs) m"
    using assms(1) by (cases a) (auto simp: list_all2_Cons1 msg_rel_def)
  note front = in_phase_to_server [OF assms(2) [unfolded a]]
  note total = assms(3) [unfolded nothing_fails_def]
  from srel obtain st where st: "hs_state (ep_handshake s) = ServerSide st"
    "group_id (server_session st) = gid" "member_at M V ?conn gid server_leaf se p"
    "server_internal st = (if p = None then ServerRunning else WaitingForUpdate)"
    by (auto simp: server_rel_def)
  have "\<exists>r st'. ServerHandshakeState_receive_signaling_message oc T M ?k bs (st, ?conn) = (Ok r, st')"
    using content_rel_cases(2) [OF msg]
  proof (elim disjE exE conjE)
    fix x y mc
    assume m: "m = AUpdate x y" "reads_update T bs mc" "view_commit V mc = Some (gid, client_leaf, x, y)"
    with front(2) have commit: "view_commit V mc = Some (gid, client_leaf, se, y)" by simp
    show ?thesis
      by (rule server_receive_update_total [OF _ laws(2) _ st(3) commit _ m(2)]) (use total in auto)
  next
    fix y
    assume m: "m = AKey y" "reads_key T bs (view_epoch V y)"
    with front(3) have p: "p = Some y" by simp
    then have member: "member_at M V ?conn (group_id (server_session st)) server_leaf se (Some y)"
      using st(2,3) by simp
    show ?thesis
      by (rule server_receive_key_total [OF _ laws(2) _ member m(2)]) (use total p st(4) in auto)
  qed
  then show ?thesis
    using st(1)
    by (fastforce simp: endpoint_signal_def MlsHandshake_process_signaling_message_def)
qed

text \<open>Delivering what is in flight, in any order of the two channels, comes to an end.\<close>

lemma drain:
  assumes "sync_rel T M V gid (System c s qs qc) a" "in_phase a" "nothing_fails oc T M V" "client_db_works J c"
  shows "\<exists>c' s'. (sys_step oc T J M)\<^sup>*\<^sup>* (System c s qs qc) (System c' s' [] [])"
  using assms
proof (induction a arbitrary: c s qs qc rule: measure_induct_rule [of work])
  case (less a)
  have go_on: "\<exists>c' s'. (sys_step oc T J M)\<^sup>*\<^sup>* (System c s qs qc) (System c' s' [] [])"
    if "sys_step oc T J M (System c s qs qc) (System c1 s1 qs1 qc1)" "spec_step a a1" "work a1 < work a"
      "sync_rel T M V gid (System c1 s1 qs1 qc1) a1" "client_db_works J c1" for c1 s1 qs1 qc1 a1
  proof -
    have "in_phase a1" using in_phase_step that(2) less.prems(2) by blast
    from less.IH [OF that(3,4) this less.prems(3) that(5)] that(1) show ?thesis
      by (meson converse_rtranclp_into_rtranclp)
  qed
  show ?case
  proof (cases qc)
    case (Cons km qc1)
    show ?thesis
    proof (cases "snd km")
      case (Application b)
      with Cons have qc: "qc = (fst km, Application b) # qc1" by (metis prod.collapse)
      with app_simulated(1) [OF less.prems(1) qc] go_on [OF _ _ _ _ less.prems(4)] sys_step.client_app
      show ?thesis by blast
    next
      case (Signaling bs)
      with Cons have qc: "qc = (fst km, Signaling bs) # qc1" by (metis prod.collapse)
      from client_signal_accepted [OF less.prems(1) [unfolded qc] less.prems(2-4)] obtain out c1 where
        step: "endpoint_signal oc T J M False bs c = (Ok out, c1)" and db: "client_db_works J c1" by blast
      from client_signal_simulated [OF less.prems(1) [unfolded qc] less.prems(2) step] go_on [OF _ _ _ _ db]
        sys_step.client_signal [OF step, where k = "fst km" and qc = qc1] qc
      show ?thesis by blast
    qed
  next
    case Nil
    show ?thesis
    proof (cases qs)
      case (Cons km qs1)
      show ?thesis
      proof (cases "snd km")
        case (Application b)
        with Cons have qs: "qs = (fst km, Application b) # qs1" by (metis prod.collapse)
        with app_simulated(2) [OF less.prems(1) qs] go_on [OF _ _ _ _ less.prems(4)] sys_step.server_app
        show ?thesis by blast
      next
        case (Signaling bs)
        with Cons have qs: "qs = (fst km, Signaling bs) # qs1" by (metis prod.collapse)
        from server_signal_accepted [OF less.prems(1) [unfolded qs] less.prems(2,3)] obtain out s1 where
          step: "endpoint_signal oc T J M True bs s = (Ok out, s1)" by blast
        from server_signal_simulated [OF less.prems(1) [unfolded qs] less.prems(2) step]
          go_on [OF _ _ _ _ less.prems(4)] sys_step.server_signal [OF step, where k = "fst km" and qs = qs1] qs
        show ?thesis by blast
      qed
    qed (use Nil in blast)
  qed
qed

section \<open>Established sessions\<close>

text \<open>
  Two ends that have completed the handshake: both hold the group in the same epoch state, nobody
  waits, and the secrets in use are those of that state.
\<close>

definition established ::
    "'m tls_codec \<Rightarrow> ('s, 'g, 'm, 'o) openmls \<Rightarrow> ('g, 'm, 'o, 'e) mls_view \<Rightarrow> GroupId \<Rightarrow> 'e
       \<Rightarrow> ('s, 'm) endpoint \<Rightarrow> ('s, 'm) endpoint \<Rightarrow> bool" where
  "established T M V gid e c s \<longleftrightarrow>
     tls_laws T \<and> mls_laws M V \<and> client_rel M V gid c False e e \<and> server_rel M V gid s e None"

lemma established_reaches:
  assumes "established T M V gid e c s" "(sys_step oc T J M)\<^sup>*\<^sup>* (System c s [] []) sys"
  shows "\<exists>a. sync_rel T M V gid sys a \<and> in_phase a"
proof -
  have "sync_rel T M V gid (System c s [] []) (Config False e e e None [] [])"
    using assms(1) by (simp add: established_def)
  moreover have "in_phase (Config False e e e None [] [])" by (rule in_phase.idle) simp_all
  ultimately show ?thesis using key_sync.runs_refine [OF assms(2)] by blast
qed

lemma sync_rel_front:
  assumes "sync_rel T M V gid (System c s qs qc) a" "in_phase a"
  shows "qs \<noteq> [] \<Longrightarrow> fst (hd qs) = secret_of False (ep_secrets s)"
    and "qc \<noteq> [] \<Longrightarrow> fst (hd qc) = secret_of True (ep_secrets c)"
proof -
  obtain w e r se p aqs aqc where a: "a = Config w e r se p aqs aqc" by (cases a)
  with assms(1) have rel: "client_rel M V gid c w e r" "server_rel M V gid s se p"
    "list_all2 (msg_rel T V gid False) qs aqs" "list_all2 (msg_rel T V gid True) qc aqc" by auto
  show "fst (hd qs) = secret_of False (ep_secrets s)" if "qs \<noteq> []"
  proof -
    from that rel(3) obtain t m aqs1 where "aqs = (t, m) # aqs1" "msg_rel T V gid False (hd qs) (t, m)"
      by (cases qs) (auto simp: list_all2_Cons1)
    with in_phase_to_server(1) assms(2) a endpoint_secrets(3) [OF rel(2)] show ?thesis
      by (fastforce simp: msg_rel_def)
  qed
  show "fst (hd qc) = secret_of True (ep_secrets c)" if "qc \<noteq> []"
  proof -
    from that rel(4) obtain t m aqc1 where "aqc = (t, m) # aqc1" "msg_rel T V gid True (hd qc) (t, m)"
      by (cases qc) (auto simp: list_all2_Cons1)
    with in_phase_to_client(1) assms(2) a endpoint_secrets(2) [OF rel(1)] show ?thesis
      by (fastforce simp: msg_rel_def)
  qed
qed

lemma quiescent_established:
  assumes "sync_rel T M V gid (System c s [] []) a" "in_phase a"
  shows "\<exists>e. established T M V gid e c s"
proof -
  obtain w e r se p aqs aqc where a: "a = Config w e r se p aqs aqc" by (cases a)
  with assms have "in_phase (Config w e r se p [] [])" by auto
  from in_phase_quiescent [OF this] assms(1) a show ?thesis by (auto simp: established_def)
qed

lemma established_agree:
  assumes "established T M V gid e c s"
  shows "ep_secrets c = ep_secrets s" "MlsHandshake_epoch (ep_handshake c) = view_epoch V e"
    "MlsHandshake_epoch (ep_handshake s) = view_epoch V e"
  using assms
  by (auto simp: established_def client_rel_def server_rel_def ClientHandshakeState_epoch_def
      ServerHandshakeState_epoch_def)

lemma client_update_works:
  assumes "sync_rel T M V gid (System c s qs qc) a" "client_db_works J c"
    and "endpoint_update T J M False c = (Ok out, c')"
  shows "client_db_works J c'"
proof -
  obtain w e r se p aqs aqc where a: "a = Config w e r se p aqs aqc" by (cases a)
  from assms(1) a obtain st where laws: "mls_laws M V" and st: "hs_state (ep_handshake c) = ClientSide st"
    and member: "member_at M V (connection (ep_handshake c)) (group_id (client_session st)) client_leaf e None"
    by (auto simp: client_rel_def)
  from assms(3) st obtain secret bs st' conn' where
    "ClientHandshakeState_update T J M (leaf_signer (ep_handshake c)) False (st, connection (ep_handshake c))
       = (Ok (secret, bs), (st', conn'))" "connection (ep_handshake c') = conn'"
    by (auto simp: endpoint_update_def MlsHandshake_update_handshake_def bindS_eq_Ok split: prod.splits)
  with client_update_keeps_db [OF laws member assms(2)] show ?thesis by simp
qed

lemma established_run_works:
  assumes "established T M V gid e c s" "nothing_fails oc T M V" "client_db_works J c"
    and "(sys_step oc T J M)\<^sup>*\<^sup>* (System c s [] []) (System c' s' qs qc)"
  shows "client_db_works J c'"
proof -
  have "client_db_works J (system_client sys)" if "(sys_step oc T J M)\<^sup>*\<^sup>* (System c s [] []) sys" for sys
    using that
  proof (induction rule: rtranclp_induct)
    case base
    then show ?case using assms(3) by simp
  next
    case (step x y)
    obtain a where a: "sync_rel T M V gid x a" "in_phase a"
      using established_reaches [OF assms(1) step.hyps(1)] by blast
    from step.hyps(2) a step.IH show ?case
    proof (induction rule: sys_step.induct)
      case (client_update c out c' s qs qc)
      then show ?case using client_update_works by fastforce
    next
      case (client_signal bs c out c' s qs k qc)
      then show ?case
        using client_signal_accepted [OF client_signal.prems(1,2) assms(2), of J] by simp
    qed simp_all
  qed
  from this [OF assms(4)] show ?thesis by simp
qed

section \<open>An established pair over the symbolic MLS\<close>

definition sym_json :: "'m json" where
  "sym_json = \<lparr>json_to_vec = (\<lambda>_. Ok []), json_from_slice = (\<lambda>_. Err ''not stored'')\<rparr>"

definition sym_signer :: SignatureKeyPair where
  "sym_signer = \<lparr>signer_public = [42], signer_private = [43]\<rparr>"

definition sym_connection :: "u8 \<Rightarrow> sym_storage Connection" where
  "sym_connection leaf = \<lparr>mls_storage = ([(1, \<lparr>sg_id = 1, sg_me = leaf, sg_epoch = 1, sg_secret = 11,
     sg_pending = None\<rparr>)], 2), handshake_states = Some [], faults = []\<rparr>"

definition sym_epoch_secrets :: TrafficSecrets where
  "sym_epoch_secrets =
     \<lparr>client_secret = ClientSecret [11, sym_checksum (ascii (export_label CLIENT_TRAFFIC_SECRET_LABEL))],
      server_secret = ServerSecret [11, sym_checksum (ascii (export_label SERVER_TRAFFIC_SECRET_LABEL))]\<rparr>"

definition sym_client :: "(sym_storage, sym_message) endpoint" where
  "sym_client = \<lparr>ep_handshake = \<lparr>leaf_signer = sym_signer, connection = sym_connection 1,
     hs_state = ClientSide \<lparr>profile_id = [7], client_session = \<lparr>group_id = [1], epoch = 1\<rparr>,
       client_internal = ClientRunning\<rparr>\<rparr>, ep_secrets = sym_epoch_secrets\<rparr>"

definition sym_server :: "(sym_storage, sym_message) endpoint" where
  "sym_server = \<lparr>ep_handshake = \<lparr>leaf_signer = sym_signer, connection = sym_connection 0,
     hs_state = ServerSide \<lparr>server_session = \<lparr>group_id = [1], epoch = 1\<rparr>,
       server_internal = ServerRunning\<rparr>\<rparr>, ep_secrets = sym_epoch_secrets\<rparr>"

lemma sym_exported: "exported sym_view (1, 11) = Ok sym_epoch_secrets"
  by (simp add: exported_def sym_view_def sym_export_def sym_epoch_secrets_def)

lemma sym_member_at: "member_at sym_mls sym_view (sym_connection leaf) [1] (unat leaf) (1, 11) None"
  unfolding member_at_def sym_group_at
  by (rule exI [of _ "\<lparr>sg_id = 1, sg_me = leaf, sg_epoch = 1, sg_secret = 11, sg_pending = None\<rparr>"])
    (simp add: sym_connection_def)

lemma sym_established: "established sym_tls sym_mls sym_view [1] (1, 11) sym_client sym_server"
  using sym_member_at [of 0] sym_member_at [of 1]
  by (simp add: established_def sym_tls_laws sym_mls_laws client_rel_def server_rel_def sym_client_def
      sym_server_def sym_exported) (simp add: sym_view_def)

lemma sym_nothing_fails: "nothing_fails False sym_tls sym_mls sym_view"
  by (simp add: nothing_fails_def sym_signaling_total sym_mls_total epoch_in_range_def)

lemma sym_client_db_works: "client_db_works sym_json sym_client"
  by (simp add: db_works_def sym_client_def sym_connection_def sym_json_def)

lemma sym_updates:
  "is_ok (fst (endpoint_update sym_tls sym_json sym_mls False sym_client))"
  "is_ok (fst (endpoint_update sym_tls sym_json sym_mls True sym_server))"
  by code_simp+

text \<open>Both sides start an update before either has heard from the other.\<close>

lemma endpoint_update_sends:
  "endpoint_update T J M b c = (Ok out, c') \<Longrightarrow> \<exists>bs. out = [(secret_of b (ep_secrets c), Signaling bs)]"
  by (auto simp: endpoint_update_def bindS_eq_Ok reply_def split: prod.splits)

lemma sym_crossing_updates:
  "\<exists>c s k bs k' bs'. (sys_step False sym_tls sym_json sym_mls)\<^sup>*\<^sup>* (System sym_client sym_server [] [])
     (System c s [(k, Signaling bs)] [(k', Signaling bs')])"
proof -
  obtain out c where c: "endpoint_update sym_tls sym_json sym_mls False sym_client = (Ok out, c)"
    using sym_updates(1) by (auto simp: is_ok_iff) (metis prod.collapse)
  obtain out' s where s: "endpoint_update sym_tls sym_json sym_mls True sym_server = (Ok out', s)"
    using sym_updates(2) by (auto simp: is_ok_iff) (metis prod.collapse)
  have "(sys_step False sym_tls sym_json sym_mls)\<^sup>*\<^sup>* (System sym_client sym_server [] []) (System c s out out')"
    using sys_step.client_update [OF c, of False sym_server "[]" "[]"]
      sys_step.server_update [OF s, of False c out "[]"]
    by (auto intro: rtranclp.rtrancl_into_rtrancl)
  with endpoint_update_sends [OF c] endpoint_update_sends [OF s] show ?thesis by blast
qed

section \<open>Properties\<close>

text \<open>
  C3. Keys stay synchronised.  From two ends that completed the handshake, in every interleaving of
  application messages, updates started by either side (also by both at once) and deliveries, the
  message in front of each channel is protected by the secret its receiver holds at that moment, so
  that its record can be decrypted; and whenever nothing is in flight, both ends hold the same
  traffic secrets and the same epoch.
\<close>
theorem keys_stay_synchronised:
  assumes "established T M V gid e c s"
    and "(sys_step oc T J M)\<^sup>*\<^sup>* (System c s [] []) (System c' s' qs qc)"
  shows "(qs \<noteq> [] \<longrightarrow> fst (hd qs) = secret_of False (ep_secrets s')) \<and>
    (qc \<noteq> [] \<longrightarrow> fst (hd qc) = secret_of True (ep_secrets c')) \<and>
    (qs = [] \<and> qc = [] \<longrightarrow> ep_secrets c' = ep_secrets s' \<and>
       MlsHandshake_epoch (ep_handshake c') = MlsHandshake_epoch (ep_handshake s'))"
proof -
  obtain a where a: "sync_rel T M V gid (System c' s' qs qc) a" "in_phase a"
    using established_reaches [OF assms] by blast
  show ?thesis
  proof (intro conjI impI)
    assume "qs = [] \<and> qc = []"
    with a obtain e' where "established T M V gid e' c' s'" using quiescent_established by blast
    from established_agree [OF this] show "ep_secrets c' = ep_secrets s'"
      "MlsHandshake_epoch (ep_handshake c') = MlsHandshake_epoch (ep_handshake s')" by simp_all
  qed (use sync_rel_front [OF a] in simp_all)
qed

theorem keys_stay_synchronised_witness:
  "\<exists>c s k bs k' bs'. (sys_step False sym_tls sym_json sym_mls)\<^sup>*\<^sup>* (System sym_client sym_server [] [])
     (System c s [(k, Signaling bs)] [(k', Signaling bs')]) \<and>
   k = secret_of False (ep_secrets s) \<and> k' = secret_of True (ep_secrets c)"
proof -
  obtain c s k bs k' bs' where
    run: "(sys_step False sym_tls sym_json sym_mls)\<^sup>*\<^sup>* (System sym_client sym_server [] [])
     (System c s [(k, Signaling bs)] [(k', Signaling bs')])"
    using sym_crossing_updates by blast
  from keys_stay_synchronised [OF sym_established run] have
    "k = secret_of False (ep_secrets s)" "k' = secret_of True (ep_secrets c)" by simp_all
  with run show ?thesis by blast
qed

text \<open>
  C13. The protocol never rejects an honest message: in every reachable situation, whichever side
  started an update and however the two crossed, a signaling message that arrives is processed
  without an error or a panic, as long as nothing outside the protocol fails.
\<close>
theorem honest_signaling_is_accepted:
  assumes "established T M V gid e c s" "nothing_fails oc T M V" "client_db_works J c"
    and "(sys_step oc T J M)\<^sup>*\<^sup>* (System c s [] []) (System c' s' qs qc)"
  shows "(\<forall>k bs rest. qc = (k, Signaling bs) # rest \<longrightarrow>
      is_ok (fst (MlsHandshake_process_signaling_message oc T J M bs (ep_handshake c')))) \<and>
    (\<forall>k bs rest. qs = (k, Signaling bs) # rest \<longrightarrow>
      is_ok (fst (MlsHandshake_process_signaling_message oc T J M bs (ep_handshake s'))))"
proof -
  have ok: "is_ok (fst (MlsHandshake_process_signaling_message oc T J M bs (ep_handshake x)))"
    if "endpoint_signal oc T J M b bs x = (Ok out, x')" for b bs x out x'
    using that by (auto simp: endpoint_signal_def bindS_eq_Ok split: prod.splits)
  obtain a where a: "sync_rel T M V gid (System c' s' qs qc) a" "in_phase a"
    using established_reaches [OF assms(1,4)] by blast
  note db = established_run_works [OF assms]
  show ?thesis
    using client_signal_accepted [OF _ a(2) assms(2) db] server_signal_accepted [OF _ a(2) assms(2)] a(1) ok
    by blast
qed

theorem honest_signaling_is_accepted_witness:
  "\<exists>c s k bs k' bs'. (sys_step False sym_tls sym_json sym_mls)\<^sup>*\<^sup>* (System sym_client sym_server [] [])
     (System c s [(k, Signaling bs)] [(k', Signaling bs')]) \<and>
   is_ok (fst (MlsHandshake_process_signaling_message False sym_tls sym_json sym_mls bs' (ep_handshake c))) \<and>
   is_ok (fst (MlsHandshake_process_signaling_message False sym_tls sym_json sym_mls bs (ep_handshake s)))"
proof -
  obtain c s k bs k' bs' where
    run: "(sys_step False sym_tls sym_json sym_mls)\<^sup>*\<^sup>* (System sym_client sym_server [] [])
     (System c s [(k, Signaling bs)] [(k', Signaling bs')])"
    using sym_crossing_updates by blast
  from honest_signaling_is_accepted [OF sym_established sym_nothing_fails sym_client_db_works run]
  have ok: "is_ok (fst (MlsHandshake_process_signaling_message False sym_tls sym_json sym_mls bs' (ep_handshake c)))"
    "is_ok (fst (MlsHandshake_process_signaling_message False sym_tls sym_json sym_mls bs (ep_handshake s)))"
    by simp_all
  show ?thesis by (intro exI) (rule conjI [OF run conjI [OF ok]])
qed



end
