(* ===== verification/Provider_Steps.thy ===== *)
theory Provider_Steps
  imports Encryption_Provider Key_Sync
begin

text \<open>
  What the calls of an established \<^verbatim>\<open>EncryptionProvider\<close> do, over any transport with a log: sending a
  plaintext, changing the keys, handling a signaling message, the update that precedes a send,
  \<^verbatim>\<open>send_bytes\<close>, and reading a record.  Each successful call is related to the step of an end of the
  system of \<open>Key_Sync\<close>, and to the records it puts on the transport.
\<close>

section \<open>Sending\<close>

abbreviation codec_of :: "('s, 'm, 'r, 'w) established \<Rightarrow> TlsAeadCodec" where
  "codec_of p \<equiv> contents (ch_cipher (prov_channels p))"

abbreviation writer_of :: "('s, 'm, 'r, 'w) established \<Rightarrow> 'w TlsAeadSink" where
  "writer_of p \<equiv> ch_writer (prov_channels p)"

definition writes :: "('s, 'm, 'r, 'i \<times> bytes list) established \<Rightarrow> ('s, 'm, 'r, 'i \<times> bytes list) established \<Rightarrow> bool" where
  "writes p q \<longleftrightarrow> (\<exists>k. q = set_channels ((prov_channels p)\<lparr>ch_writer := k\<rparr>) p \<and>
     delivered k @ buffer k = delivered (writer_of p) @ buffer (writer_of p))"

lemma writes_refl: "writes p p"
  unfolding writes_def by (rule exI [of _ "writer_of p"]) simp

lemma writes_trans: "writes p q \<Longrightarrow> writes q r \<Longrightarrow> writes p r"
  by (auto simp: writes_def)

lemma provider_poll_writes:
  assumes "provider_poll g p = (r, p')" "r = Pending \<or> r = Ready (Ok ())"
    and "\<And>k q k'. g k = (q, k') \<Longrightarrow> accounted (delivered k @ buffer k) q k'"
  shows "writes p p' \<and> (r = Ready (Ok ()) \<longrightarrow> buffer (writer_of p') = [])"
proof -
  obtain q k where q: "g (writer_of p) = (q, k)" by fastforce
  note acc = assms(3) [OF q]
  from assms(1,2) q have "p' = set_channels ((prov_channels p)\<lparr>ch_writer := k\<rparr>) p"
    "q = Pending \<and> r = Pending \<or> q = Ready (Ok ()) \<and> r = Ready (Ok ())"
    by (auto simp: provider_poll_def poll_at_def split: poll.splits)
  with acc accounted_ok [OF acc] show ?thesis by (auto simp: writes_def accounted_def)
qed


lemma await_provider_poll:
  assumes "await_poll (provider_poll g) p = Some (Ok (), p')"
    and "\<And>k q k'. g k = (q, k') \<Longrightarrow> accounted (delivered k @ buffer k) q k'"
  shows "writes p p' \<and> buffer (writer_of p') = []"
proof -
  have "\<exists>s. writes p s \<and> provider_poll g s = (Ready (Ok ()), p')"
    by (rule await_poll_until [OF assms(1)])
      (use provider_poll_writes [OF _ _ assms(2)] writes_refl in \<open>blast intro: writes_trans\<close>)+
  then obtain s where "writes p s" "provider_poll g s = (Ready (Ok ()), p')" by blast
  with provider_poll_writes [OF this(2) _ assms(2)] show ?thesis by (blast intro: writes_trans)
qed

text \<open>
  Sending one plaintext: it is serialised, encrypted under the codec's current keys and handed to
  the transport behind everything sent before.
\<close>

lemma provider_send_effect:
  assumes "env_writer E = recording S" "EncryptionProvider_send E item p = Some (Ok (), p')"
  shows "\<exists>bs cts c ch. InnerPlaintext_ser (env_tls E) item = Ok bs \<and>
    encrypt_message (env_checks E) (codec_of p) bs = (Ok cts, c) \<and> \<not> poisoned (ch_cipher (prov_channels p)) \<and>
    delivered (ch_writer ch) = delivered (writer_of p) @ buffer (writer_of p) @ cts \<and> buffer (ch_writer ch) = [] \<and>
    ch_cipher ch = \<lparr>contents = c, poisoned = False\<rparr> \<and> ch_reader ch = ch_reader (prov_channels p) \<and>
    p' = set_channels ch p"
proof -
  from assms obtain p1 p2 where
    1: "await_poll (provider_poll (TlsAeadSink_poll_ready (recording S))) p = Some (Ok (), p1)" and
    2: "EncryptionProvider_start_send E p1 item = (Ok (), p2)" and
    3: "await_poll (provider_poll (TlsAeadSink_poll_flush (recording S))) p2 = Some (Ok (), p')"
    by (auto simp: EncryptionProvider_send_def sink_send_def bindA_eq_Ok EncryptionProvider_poll_ready_def
        EncryptionProvider_poll_flush_def)
  have w1: "writes p p1 \<and> buffer (writer_of p1) = []"
    by (rule await_provider_poll [OF 1]) (rule poll_ready_accounted(1))
  have w3: "writes p2 p' \<and> buffer (writer_of p') = []"
    by (rule await_provider_poll [OF 3]) (rule poll_ready_accounted(2))
  from 2 obtain bs m w where
    ser: "InnerPlaintext_ser (env_tls E) item = Ok bs" and
    start: "TlsAeadSink_start_send (env_checks E) (ch_cipher (prov_channels p1), writer_of p1) bs = (Ok (), (m, w))" and
    p2: "p2 = set_channels ((prov_channels p1)\<lparr>ch_cipher := m, ch_writer := w\<rparr>) p1"
    by (auto simp: EncryptionProvider_start_send_def channels_start_send_def bindS_eq_Ok split: prod.splits)
  from start_send_Ok [OF start] obtain cts where
    enc: "encrypt_message (env_checks E) (codec_of p1) bs = (Ok cts, contents m)"
      "w = (writer_of p1)\<lparr>buffer := buffer (writer_of p1) @ cts\<rparr>" by blast
  from start have m: "\<not> poisoned (ch_cipher (prov_channels p1))" "m = \<lparr>contents = contents m, poisoned = False\<rparr>"
    by (auto simp: TlsAeadSink_start_send_def with_lock_def split: if_splits prod.splits)
  from w1 obtain k where k: "p1 = set_channels ((prov_channels p)\<lparr>ch_writer := k\<rparr>) p"
      "delivered k @ buffer k = delivered (writer_of p) @ buffer (writer_of p)" "buffer k = []"
    by (auto simp: writes_def)
  from w3 obtain k' where k': "p' = set_channels ((prov_channels p2)\<lparr>ch_writer := k'\<rparr>) p2"
      "delivered k' @ buffer k' = delivered (writer_of p2) @ buffer (writer_of p2)" "buffer k' = []"
    by (auto simp: writes_def)
  let ?ch = "(prov_channels p)\<lparr>ch_cipher := m, ch_writer := k'\<rparr>"
  show ?thesis
    using ser enc m k k' p2
    by (intro exI [of _ bs] exI [of _ cts] exI [of _ "contents m"] exI [of _ ?ch]) simp
qed


section \<open>Keys\<close>

text \<open>A provider is at an end of the system of \<open>Key_Sync\<close>: the same handshake, record keys from its secrets.\<close>

definition provides :: "bool \<Rightarrow> ('s, 'm, 'r, 'w) established \<Rightarrow> ('s, 'm) endpoint \<Rightarrow> bool" where
  "provides is_server p ep \<longleftrightarrow>
     ep_handshake ep = handshake (state p) \<and> keyed (ep_secrets ep) is_server (codec_of p)"

definition seal_message ::
    "bool \<Rightarrow> 'm tls_codec \<Rightarrow> TlsAeadCodec \<Rightarrow> InnerPlaintext \<Rightarrow> (EncryptionProviderError, bytes list, TlsAeadCodec) outcome" where
  "seal_message oc T c item =
     bindS (map_err ProviderCodecError (InnerPlaintext_ser T item), c) (\<lambda>bs c.
     case encrypt_message oc c bs of (r, c) \<Rightarrow> (map_err (\<lambda>e. TlsTransportError (EncryptionFailed e)) r, c))"

lemma seal_message_Ok_iff:
  "seal_message oc T c item = (Ok cts, c') \<longleftrightarrow>
   (\<exists>bs. InnerPlaintext_ser T item = Ok bs \<and> encrypt_message oc c bs = (Ok cts, c'))"
proof -
  have "(case encrypt_message oc c bs of (r, c) \<Rightarrow> (map_err (\<lambda>e. TlsTransportError (EncryptionFailed e)) r, c))
      = (Ok cts, c') \<longleftrightarrow> encrypt_message oc c bs = (Ok cts, c')" for bs
    by (cases "encrypt_message oc c bs") auto
  then show ?thesis by (simp add: seal_message_def bindS_eq_Ok)
qed

lemma seal_message_frame:
  "seal_message oc T c item = (Ok cts, c') \<Longrightarrow> c' = c\<lparr>send_seq := send_seq c + of_nat (length cts)\<rparr>"
  using seal_all_frame seal_all_length
  by (fastforce simp: seal_message_Ok_iff encrypt_message_Ok_iff)

lemma keyed_send_seq [simp]: "keyed ts b (c\<lparr>send_seq := n\<rparr>) = keyed ts b c"
  "keyed ts b (c\<lparr>recv_seq := n\<rparr>) = keyed ts b c"
  by (simp_all add: keyed_def)

lemma provider_sends:
  assumes "env_writer E = recording S" "EncryptionProvider_send E item p = Some (Ok (), p')"
  shows "\<exists>cts c ch. seal_message (env_checks E) (env_tls E) (codec_of p) item = (Ok cts, c) \<and>
    delivered (ch_writer ch) = delivered (writer_of p) @ buffer (writer_of p) @ cts \<and> buffer (ch_writer ch) = [] \<and>
    ch_cipher ch = \<lparr>contents = c, poisoned = False\<rparr> \<and> ch_reader ch = ch_reader (prov_channels p) \<and>
    p' = set_channels ch p"
  using provider_send_effect [OF assms] unfolding seal_message_Ok_iff by blast

lemma channels_update_secrets_effect:
  assumes "channels_update_secrets is_server u ch = (Ok (), ch')"
  shows "\<exists>c. TlsAeadCodec_update_traffic_secrets (contents (ch_cipher ch)) u is_server = (Ok (), c) \<and>
    ch' = ch\<lparr>ch_cipher := \<lparr>contents = c, poisoned = False\<rparr>\<rparr>"
proof -
  from assms obtain m m' where
    1: "TlsAeadSink_update_traffic_secrets (ch_cipher ch) u is_server = (Ok (), m)" and
    2: "TlsAeadStream_update_traffic_secrets m u is_server = (Ok (), m')" and
    p': "ch' = ch\<lparr>ch_cipher := m'\<rparr>"
    by (auto simp: channels_update_secrets_def bindS_eq_Ok split: prod.splits)
  from 1 obtain c where c: "TlsAeadCodec_update_traffic_secrets (contents (ch_cipher ch)) u is_server = (Ok (), c)"
    "m = \<lparr>contents = c, poisoned = False\<rparr>"
    by (auto simp: TlsAeadSink_update_traffic_secrets_def with_lock_def split: if_splits prod.splits)
  from 2 c update_traffic_secrets_again [OF c(1)] have "m' = m"
    by (auto simp: TlsAeadStream_update_traffic_secrets_def with_lock_def split: if_splits prod.splits)
  with c p' show ?thesis by auto
qed

lemma provider_update_cipher_effect:
  assumes "EncryptionProvider_update_cipher is_server u p = (Ok (), p')"
  shows "\<exists>c. TlsAeadCodec_update_traffic_secrets (codec_of p) u is_server = (Ok (), c) \<and>
    p' = set_channels ((prov_channels p)\<lparr>ch_cipher := \<lparr>contents = c, poisoned = False\<rparr>\<rparr>) p"
proof -
  from assms obtain ch where "channels_update_secrets is_server u (prov_channels p) = (Ok (), ch)" "p' = set_channels ch p"
    by (auto simp: EncryptionProvider_update_cipher_def split: prod.splits)
  with channels_update_secrets_effect [OF this(1)] show ?thesis by blast
qed

definition adopts :: "bool \<Rightarrow> SecretUpdate option \<Rightarrow> TlsAeadCodec \<Rightarrow> TlsAeadCodec \<Rightarrow> bool" where
  "adopts is_server u c c' \<longleftrightarrow>
     (case u of None \<Rightarrow> c' = c
      | Some u \<Rightarrow> TlsAeadCodec_update_traffic_secrets c u is_server = (Ok (), c'))"

lemma adopts_keyed: "adopts b u c c' \<Longrightarrow> keyed ts b c \<Longrightarrow> keyed (adopt u ts) b c'"
  by (auto simp: adopts_def adopt_def update_traffic_secrets_keyed split: option.splits)

lemma adopts_frame:
  "adopts b u c c' \<Longrightarrow> send_seq c' = send_seq c \<and> recv_seq c' = recv_seq c \<and> cipher c' = cipher c \<and>
     hash c' = hash c \<and> max_frame_size c' = max_frame_size c \<and> crypto_provider c' = crypto_provider c"
  by (auto simp: adopts_def update_traffic_secrets_frame split: option.splits)

lemma option_update_cipher:
  assumes "(case u of None \<Rightarrow> Some (Ok (), p) | Some u \<Rightarrow> Some (EncryptionProvider_update_cipher b u p)) = Some (Ok (), p')"
  shows "\<exists>c m. adopts b u (codec_of p) c \<and> contents m = c \<and>
    (poisoned m \<longrightarrow> poisoned (ch_cipher (prov_channels p))) \<and> p' = set_channels ((prov_channels p)\<lparr>ch_cipher := m\<rparr>) p"
proof (cases u)
  case None
  with assms show ?thesis by (auto simp: adopts_def intro!: exI [of _ "ch_cipher (prov_channels p)"])
next
  case (Some u')
  with assms provider_update_cipher_effect [of b u' p p'] obtain c where
    "TlsAeadCodec_update_traffic_secrets (codec_of p) u' b = (Ok (), c)"
    "p' = set_channels ((prov_channels p)\<lparr>ch_cipher := \<lparr>contents = c, poisoned = False\<rparr>\<rparr>) p" by auto
  with Some show ?thesis
    by (intro exI [of _ c] exI [of _ "\<lparr>contents = c, poisoned = False\<rparr>"]) (simp add: adopts_def)
qed

section \<open>Sending, then changing the keys\<close>

text \<open>
  What both a signaling message and a due update end with: the messages of \<open>out\<close> are sealed by the
  codec as it was, in order, then the codec adopts the new secrets.
\<close>

definition responds ::
    "('s, 'g, 'm, 'o, 'r, 'i \<times> bytes list) env \<Rightarrow> bool \<Rightarrow> wire \<Rightarrow> ('s, 'm, 'r, 'i \<times> bytes list) established
       \<Rightarrow> ('s, 'm, 'r, 'i \<times> bytes list) established \<Rightarrow> bool" where
  "responds E b out p p' \<longleftrightarrow> (\<exists>ctss c1 u.
     seal_all (seal_message (env_checks E) (env_tls E)) (codec_of p) (map snd out) = (Ok ctss, c1) \<and>
     adopts b u c1 (codec_of p') \<and> ch_reader (prov_channels p') = ch_reader (prov_channels p) \<and>
     delivered (writer_of p') = delivered (writer_of p) @ concat ctss \<and> buffer (writer_of p') = [] \<and>
     (poisoned (ch_cipher (prov_channels p')) \<longrightarrow> poisoned (ch_cipher (prov_channels p))))"

lemma responds_nothing: "buffer (writer_of p) = [] \<Longrightarrow> responds E b [] p p"
  unfolding responds_def
  by (intro exI [of _ "[]"] exI [of _ "codec_of p"] exI [of _ None]) (simp add: adopts_def)

lemma send_then_adopt:
  assumes "env_writer E = recording S" "keyed ts b (codec_of p)" "buffer (writer_of p) = []"
    and "(case resp of None \<Rightarrow> Some (Ok (), p) | Some bs \<Rightarrow> EncryptionProvider_send E (Signaling bs) p) = Some (Ok (), p1)"
    and "(case u of None \<Rightarrow> Some (Ok (), p1) | Some u \<Rightarrow> Some (EncryptionProvider_update_cipher b u p1)) = Some (Ok (), p')"
  shows "responds E b (reply b ts resp) p p' \<and> keyed (adopt u ts) b (codec_of p') \<and>
    (\<exists>ch. p' = set_channels ch p)"
proof -
  have "\<exists>ctss c1 ch. seal_all (seal_message (env_checks E) (env_tls E)) (codec_of p) (map snd (reply b ts resp)) = (Ok ctss, c1) \<and>
    contents (ch_cipher ch) = c1 \<and> keyed ts b c1 \<and> ch_reader ch = ch_reader (prov_channels p) \<and>
    delivered (ch_writer ch) = delivered (writer_of p) @ concat ctss \<and> buffer (ch_writer ch) = [] \<and>
    (poisoned (ch_cipher ch) \<longrightarrow> poisoned (ch_cipher (prov_channels p))) \<and> p1 = set_channels ch p"
  proof (cases resp)
    case None
    with assms(2-4) show ?thesis by (auto simp: reply_def intro!: exI [of _ "prov_channels p"])
  next
    case (Some rb)
    with assms(4) provider_sends [OF assms(1), of "Signaling rb" p p1] obtain cts c ch where
      s: "seal_message (env_checks E) (env_tls E) (codec_of p) (Signaling rb) = (Ok cts, c)"
      "delivered (ch_writer ch) = delivered (writer_of p) @ buffer (writer_of p) @ cts" "buffer (ch_writer ch) = []"
      "ch_cipher ch = \<lparr>contents = c, poisoned = False\<rparr>" "ch_reader ch = ch_reader (prov_channels p)"
      "p1 = set_channels ch p" by auto
    with Some assms(2,3) seal_message_frame [OF s(1)] show ?thesis
      by (intro exI [of _ "[cts]"] exI [of _ c] exI [of _ ch]) (simp add: reply_def)
  qed
  then obtain ctss c1 ch where
    s: "seal_all (seal_message (env_checks E) (env_tls E)) (codec_of p) (map snd (reply b ts resp)) = (Ok ctss, c1)"
    "contents (ch_cipher ch) = c1" "keyed ts b c1" "ch_reader ch = ch_reader (prov_channels p)"
    "delivered (ch_writer ch) = delivered (writer_of p) @ concat ctss" "buffer (ch_writer ch) = []"
    "poisoned (ch_cipher ch) \<longrightarrow> poisoned (ch_cipher (prov_channels p))" "p1 = set_channels ch p" by blast
  from option_update_cipher [OF assms(5)] s obtain m where
    m: "adopts b u c1 (contents m)" "poisoned m \<longrightarrow> poisoned (ch_cipher ch)" "p' = set_channels (ch\<lparr>ch_cipher := m\<rparr>) p"
    by auto
  from s(1,4-7) m have "responds E b (reply b ts resp) p p'"
    unfolding responds_def by (intro exI [of _ ctss] exI [of _ c1] exI [of _ u]) simp
  with m adopts_keyed [OF m(1) s(3)] show ?thesis by auto
qed

text \<open>A signaling message, as a step of the end that the provider is at.\<close>

lemma handle_signaling_effect:
  assumes "env_writer E = recording S" "provides b p ep" "buffer (writer_of p) = []"
    and "handle_signaling E b bs p = Some (Ok (), p')"
  shows "\<exists>out ep'. endpoint_signal (env_checks E) (env_tls E) (env_json E) (env_mls E) b bs ep = (Ok out, ep') \<and>
    provides b p' ep' \<and> responds E b out p p' \<and> update_policy p' = update_policy p"
proof -
  obtain r hs where sig: "MlsHandshake_process_signaling_message (env_checks E) (env_tls E) (env_json E) (env_mls E)
      bs (handshake (state p)) = (r, hs)" by fastforce
  let ?p = "set_handshake hs p"
  from assms(4) sig obtain u resp p1 where r: "r = Ok (u, resp)" and
    1: "(case resp of None \<Rightarrow> Some (Ok (), ?p) | Some bs \<Rightarrow> EncryptionProvider_send E (Signaling bs) ?p) = Some (Ok (), p1)"
      "(case u of None \<Rightarrow> Some (Ok (), p1) | Some u \<Rightarrow> Some (EncryptionProvider_update_cipher b u p1)) = Some (Ok (), p')"
    by (auto simp: handle_signaling_def bindA_eq_Ok split: prod.splits)
  from assms(2,3) have k: "keyed (ep_secrets ep) b (codec_of ?p)" "buffer (writer_of ?p) = []"
    by (simp_all add: provides_def)
  from send_then_adopt [OF assms(1) k 1] have
    a: "responds E b (reply b (ep_secrets ep) resp) p p'" "keyed (adopt u (ep_secrets ep)) b (codec_of p')"
      "handshake (state p') = hs" "update_policy p' = update_policy p"
    by (auto simp: responds_def)
  let ?ep' = "ep\<lparr>ep_handshake := hs, ep_secrets := adopt u (ep_secrets ep)\<rparr>"
  have "endpoint_signal (env_checks E) (env_tls E) (env_json E) (env_mls E) b bs ep =
      (Ok (reply b (ep_secrets ep) resp), ?ep')"
    using sig r assms(2) by (simp add: endpoint_signal_def provides_def)
  with a show ?thesis by (auto simp: provides_def)
qed

lemma session_calls_do_not_wait:
  "MlsSession_update M self conn k \<noteq> (Err WaitingForResponse, conn')"
  "MlsSession_merge_update M self conn \<noteq> (Err WaitingForResponse, st')"
  "signaling_bytes T msg \<noteq> Err WaitingForResponse"
  "client_store_update J st \<noteq> (Err WaitingForResponse, st'')"
  by (auto simp: MlsSession_update_def MlsSession_merge_update_def load_group_def with_provider_def bindS_eq_Err
      export_traffic_secrets_def signaling_bytes_def client_store_update_def res_bind_eq_Err
      split: prod.splits option.splits)

lemma waiting_update_unchanged:
  assumes "MlsHandshake_update_handshake T J M self = (Err (MlsHandshakeErr WaitingForResponse), self')"
  shows "self' = self"
proof (cases "hs_state self")
  case (ClientSide st)
  obtain r st' conn where u: "ClientHandshakeState_update T J M (leaf_signer self) False (st, connection self) =
      (r, (st', conn))" by (metis prod.exhaust)
  with assms ClientSide have r: "r = Err WaitingForResponse" and self': "self' = self\<lparr>hs_state := ClientSide st', connection := conn\<rparr>"
    by (auto simp: MlsHandshake_update_handshake_def res_bind_eq_Err)
  from u r have "(st', conn) = (st, connection self)"
    by (auto simp: session_calls_do_not_wait ClientHandshakeState_update_def bindS_eq_Err client_mls_update_def client_merge_update_def Let_def
        split: if_splits prod.splits)
  with self' ClientSide show ?thesis by simp
next
  case (ServerSide st)
  obtain r st' conn where u: "ServerHandshakeState_update T M (leaf_signer self) False (st, connection self) =
      (r, (st', conn))" by (metis prod.exhaust)
  with assms ServerSide have r: "r = Err WaitingForResponse" and self': "self' = self\<lparr>hs_state := ServerSide st', connection := conn\<rparr>"
    by (auto simp: MlsHandshake_update_handshake_def res_bind_eq_Err)
  from u r have "(st', conn) = (st, connection self)"
    by (auto simp: session_calls_do_not_wait ServerHandshakeState_update_def bindS_eq_Err server_mls_update_def Let_def
        split: if_splits prod.splits)
  with self' ServerSide show ?thesis by simp
qed (use assms in \<open>auto simp: MlsHandshake_update_handshake_def\<close>)

text \<open>A due update, which is a step of the end or refused because the end still waits.\<close>

lemma send_due_update_effect:
  assumes "env_writer E = recording S" "provides b p ep" "buffer (writer_of p) = []"
    and "send_due_update E b now p = Some (Ok (), p')"
  shows "\<exists>out ep'. provides b p' ep' \<and> responds E b out p p' \<and>
    (endpoint_update (env_tls E) (env_json E) (env_mls E) b ep = (Ok out, ep') \<and>
       update_policy p' = UpdatePolicy_reset (update_policy p) now \<or>
     endpoint_update (env_tls E) (env_json E) (env_mls E) b ep = (Err (MlsHandshakeErr WaitingForResponse), ep) \<and>
       out = [] \<and> ep' = ep \<and> update_policy p' = update_policy p)"
proof -
  obtain r hs where upd: "MlsHandshake_update_handshake (env_tls E) (env_json E) (env_mls E) (handshake (state p)) = (r, hs)"
    by fastforce
  let ?p = "set_handshake hs p"
  from assms(4) upd consider
      (started) u msg p1 p2 where "r = Ok (u, msg)" "EncryptionProvider_send E (Signaling msg) ?p = Some (Ok (), p1)"
        "(case u of None \<Rightarrow> Some (Ok (), p1) | Some u \<Rightarrow> Some (EncryptionProvider_update_cipher b u p1)) = Some (Ok (), p2)"
        "p' = p2\<lparr>update_policy := UpdatePolicy_reset (update_policy p2) now\<rparr>"
    | (waiting) "r = Err (MlsHandshakeErr WaitingForResponse)" "p' = ?p"
    by (auto simp: send_due_update_def bindA_eq_Ok Let_def split: res.splits MlsHandshakeError.splits HandshakeError.splits)
  then show ?thesis
  proof cases
    case started
    from assms(2,3) have k: "keyed (ep_secrets ep) b (codec_of ?p)" "buffer (writer_of ?p) = []"
      by (simp_all add: provides_def)
    from started(2) have s: "(case Some msg of None \<Rightarrow> Some (Ok (), ?p)
        | Some bs \<Rightarrow> EncryptionProvider_send E (Signaling bs) ?p) = Some (Ok (), p1)" by simp
    from send_then_adopt [OF assms(1) k s started(3)] started(4) have
      a: "responds E b (reply b (ep_secrets ep) (Some msg)) p p'" "keyed (adopt u (ep_secrets ep)) b (codec_of p')"
        "handshake (state p') = hs" "update_policy p' = UpdatePolicy_reset (update_policy p) now"
      by (auto simp: responds_def)
    let ?ep' = "ep\<lparr>ep_handshake := hs, ep_secrets := adopt u (ep_secrets ep)\<rparr>"
    have "endpoint_update (env_tls E) (env_json E) (env_mls E) b ep =
        (Ok (reply b (ep_secrets ep) (Some msg)), ?ep')"
      using upd started(1) assms(2) by (simp add: endpoint_update_def provides_def)
    with a show ?thesis by (auto simp: provides_def)
  next
    case waiting
    with waiting_update_unchanged upd have hs: "hs = handshake (state p)" by metis
    with waiting have p': "p' = p" by simp
    have "endpoint_update (env_tls E) (env_json E) (env_mls E) b ep = (Err (MlsHandshakeErr WaitingForResponse), ep)"
      using upd waiting(1) assms(2) hs by (simp add: endpoint_update_def provides_def)
    moreover note responds_nothing [OF assms(3)]
    ultimately show ?thesis using assms(2) p' by auto
  qed
qed


lemma send_adds_message:
  assumes "env_writer E = recording S" "provides b p ep" "buffer (writer_of p) = []"
    and "EncryptionProvider_send E m p = Some (Ok (), p')"
  shows "responds E b [(secret_of b (ep_secrets ep), m)] p p' \<and> provides b p' ep \<and> update_policy p' = update_policy p"
proof -
  from provider_sends [OF assms(1,4)] obtain cts c ch where
    s: "seal_message (env_checks E) (env_tls E) (codec_of p) m = (Ok cts, c)"
      "delivered (ch_writer ch) = delivered (writer_of p) @ buffer (writer_of p) @ cts" "buffer (ch_writer ch) = []"
      "ch_cipher ch = \<lparr>contents = c, poisoned = False\<rparr>" "ch_reader ch = ch_reader (prov_channels p)"
      "p' = set_channels ch p" by blast
  with assms(3) have "responds E b [(secret_of b (ep_secrets ep), m)] p p'"
    unfolding responds_def by (intro exI [of _ "[cts]"] exI [of _ c] exI [of _ None]) (auto simp: adopts_def)
  moreover have "provides b p' ep"
    using s assms(2) seal_message_frame [OF s(1)] by (auto simp: provides_def)
  ultimately show ?thesis using s(6) by simp
qed

text \<open>Sending application bytes: an update first if one is due, then the bytes under the keys that hold then.\<close>

lemma send_bytes_effect:
  assumes "env_writer E = recording S" "provides b p ep" "buffer (writer_of p) = []"
    and "EncryptionProvider_send_bytes E b bs now p = Some (Ok (), p')"
  shows "\<exists>due out ep' p1. UpdatePolicy_update_is_due (env_chrono E) (update_policy p) now = (Ok due :: (EncryptionProviderError, bool) res) \<and>
    provides b p1 ep' \<and> provides b p' ep' \<and> responds E b out p p1 \<and>
    responds E b [(secret_of b (ep_secrets ep'), Application bs)] p1 p' \<and>
    (due \<and> endpoint_update (env_tls E) (env_json E) (env_mls E) b ep = (Ok out, ep') \<and>
       update_policy p1 = UpdatePolicy_reset (update_policy p) now \<or>
     (\<not> due \<or> endpoint_update (env_tls E) (env_json E) (env_mls E) b ep = (Err (MlsHandshakeErr WaitingForResponse), ep)) \<and>
       out = [] \<and> ep' = ep \<and> update_policy p1 = update_policy p) \<and>
    UpdatePolicy_increment_bytes_transferred (env_checks E) (update_policy p1) (of_nat (length bs)) =
      ((Ok () :: (EncryptionProviderError, unit) res), update_policy p')"
proof -
  from assms(4) obtain due p1 where
    due: "UpdatePolicy_update_is_due (env_chrono E) (update_policy p) now = (Ok due :: (EncryptionProviderError, bool) res)" and
    1: "(if due then send_due_update E b now p else Some (Ok (), p)) = Some (Ok (), p1)" and
    rest: "Option.bind (EncryptionProvider_send E (Application bs) p1) (\<lambda>(send_result, self).
       if send_result = Panic then Some (Panic, self)
       else case UpdatePolicy_increment_bytes_transferred (env_checks E) (update_policy self) (of_nat (length bs)) of
          (r, policy) \<Rightarrow> Some (res_bind r (\<lambda>_. send_result), self\<lparr>update_policy := policy\<rparr>)) = Some (Ok (), p')"
    by (auto simp: EncryptionProvider_send_bytes_def bindA_eq_Ok split del: if_split)
  have "\<exists>out ep'. provides b p1 ep' \<and> responds E b out p p1 \<and>
    (due \<and> endpoint_update (env_tls E) (env_json E) (env_mls E) b ep = (Ok out, ep') \<and>
       update_policy p1 = UpdatePolicy_reset (update_policy p) now \<or>
     (\<not> due \<or> endpoint_update (env_tls E) (env_json E) (env_mls E) b ep = (Err (MlsHandshakeErr WaitingForResponse), ep)) \<and>
       out = [] \<and> ep' = ep \<and> update_policy p1 = update_policy p)"
  proof (cases due)
    case True
    with 1 send_due_update_effect [OF assms(1-3), of now p1] show ?thesis by auto
  next
    case False
    with 1 responds_nothing [OF assms(3)] assms(2) show ?thesis by auto
  qed
  then obtain out ep' where o: "provides b p1 ep'" "responds E b out p p1" and
    u: "due \<and> endpoint_update (env_tls E) (env_json E) (env_mls E) b ep = (Ok out, ep') \<and>
       update_policy p1 = UpdatePolicy_reset (update_policy p) now \<or>
     (\<not> due \<or> endpoint_update (env_tls E) (env_json E) (env_mls E) b ep = (Err (MlsHandshakeErr WaitingForResponse), ep)) \<and>
       out = [] \<and> ep' = ep \<and> update_policy p1 = update_policy p" by blast
  have buf: "buffer (writer_of p1) = []" using o(2) by (auto simp: responds_def)
  from rest obtain p2 where p2: "EncryptionProvider_send E (Application bs) p1 = Some (Ok (), p2)"
    by (auto simp: bind_eq_Some_conv case_prod_unfold split: if_splits)
  note a = send_adds_message [OF assms(1) o(1) buf p2]
  with rest p2 obtain policy where
    p': "p' = p2\<lparr>update_policy := policy\<rparr>" and
    count: "UpdatePolicy_increment_bytes_transferred (env_checks E) (update_policy p1) (of_nat (length bs)) =
      ((Ok () :: (EncryptionProviderError, unit) res), policy)"
    by (auto simp: case_prod_unfold prod_eq_iff)
  from a p' have "responds E b [(secret_of b (ep_secrets ep'), Application bs)] p1 p'" "provides b p' ep'"
    by (simp_all add: responds_def provides_def)
  with due o u count p' show ?thesis
    by (intro exI [of _ due] exI [of _ out] exI [of _ ep'] exI [of _ p1]) simp
qed

section \<open>Receiving\<close>

text \<open>The framed half of a socket: the packets that have arrived; nothing to read is not ready.\<close>

fun arrived :: "TlsPacketIn list stream_next" where
  "arrived [] = (Pending, [])"
| "arrived (pkt # pkts) = (Ready (Some (Ok pkt)), pkts)"

text \<open>Two codecs of opposite roles that hold the same secret in the direction from \<open>b\<close>.\<close>

definition same_suite :: "TlsAeadCodec \<Rightarrow> TlsAeadCodec \<Rightarrow> bool" where
  "same_suite c r \<longleftrightarrow> crypto_provider r = crypto_provider c \<and> cipher r = cipher c \<and> hash r = hash c"

lemma keyed_directional:
  assumes "keyed ts b c" "keyed ts' (\<not> b) r" "secret_of b ts = secret_of b ts'" "same_suite c r"
  shows "recv_key r = send_key c \<and> recv_iv r = send_iv c"
proof (cases b)
  case True
  then have "server_secret ts = server_secret ts'"
    using assms(3) by (cases "server_secret ts"; cases "server_secret ts'") (simp add: secret_of_def)
  with True assms show ?thesis by (simp add: keyed_def same_suite_def)
next
  case False
  then have "client_secret ts = client_secret ts'"
    using assms(3) by (cases "client_secret ts"; cases "client_secret ts'") (simp add: secret_of_def)
  with False assms show ?thesis by (simp add: keyed_def same_suite_def)
qed

lemma read_message_sealed:
  assumes "tls_laws (env_tls E)" "env_reader E = arrived" "linked c (codec_of q)"
    and "seal_message (env_checks E) (env_tls E) c m = (Ok [ct], c')"
    and "ch_reader (prov_channels q) = packet ct # pkts" "\<not> poisoned (ch_cipher (prov_channels q))"
  shows "\<exists>r. EncryptionProvider_read_message E q = Some (Ok (Some m),
      set_channels ((prov_channels q)\<lparr>ch_cipher := \<lparr>contents = r, poisoned = False\<rparr>, ch_reader := pkts\<rparr>) q) \<and>
    linked c' r \<and> r = (codec_of q)\<lparr>recv_seq := recv_seq (codec_of q) + 1\<rparr>"
proof -
  from assms(4) obtain bs where ser: "InnerPlaintext_ser (env_tls E) m = Ok bs"
    and enc: "max_frame_size c \<noteq> 0"
      "seal_all (seal_record (env_checks E)) c (chunks (unat (max_frame_size c)) bs) = (Ok [ct], c')"
    by (auto simp: seal_message_Ok_iff encrypt_message_Ok_iff)
  from seal_all_length [OF enc(2)] have "length (chunks (unat (max_frame_size c)) bs) = 1" by simp
  then obtain x where x: "chunks (unat (max_frame_size c)) bs = [x]" by (auto simp: length_Suc_conv)
  then have "concat (chunks (unat (max_frame_size c)) bs) = x" by simp
  with enc(1) have "x = bs" by (simp add: unat_gt_0)
  with x enc(2) have one: "seal_record (env_checks E) c bs = (Ok ct, c')" by (auto simp: bindS_eq_Ok)
  from record_channel.open_seal [OF assms(3) one] obtain r where
    r: "open_record (env_checks E) (codec_of q) ct = (Ok bs, r)" "linked c' r" by blast
  from r(1) have frame: "r = (codec_of q)\<lparr>recv_seq := recv_seq (codec_of q) + 1\<rparr>"
    by (auto simp: open_record_def TlsAeadCodec_decrypt_def bindS_eq_Ok dest!: add_u64_Ok_D split: if_splits)
  have "InnerPlaintext_de (env_tls E) bs = Ok (m, [])"
    by (rule inner_plaintext.dec_enc_whole [OF assms(1) ser])
  then have "EncryptionProvider_poll_next E q = (Ready (Some (Ok m)),
      set_channels ((prov_channels q)\<lparr>ch_cipher := \<lparr>contents = r, poisoned = False\<rparr>, ch_reader := pkts\<rparr>) q)"
    using r(1) assms(2,5,6)
    by (simp add: EncryptionProvider_poll_next_def channels_poll_next_def TlsAeadStream_poll_next_def with_lock_def
        open_record_def plaintext_of_packet_def)
  then show ?thesis using r(2) frame by (simp add: EncryptionProvider_read_message_def)
qed

end
