(* ===== verification/Network.thy ===== *)
theory Network
  imports Provider_Steps
begin

text \<open>
  Two providers with a network between them: the records each hands to its transport arrive in the
  other's reader.  A record in transit is described by the message it carries and the secret that
  protects it; what one side sends queues up behind what is already on the way, and the record in front
  is read back by a peer that holds its secret.
\<close>

section \<open>Handlers serialise what they send\<close>

lemma create_epoch_key_update_serialises:
  "HandshakeState_create_epoch_key_update T M session conn = Ok bs \<Longrightarrow> \<exists>msg. SignalingMessage_ser T msg = Ok bs"
  by (auto simp: HandshakeState_create_epoch_key_update_def signaling_bytes_def)

lemma client_sends_serialised:
  "ClientHandshakeState_update T J M k req st = (Ok (secret, bs), st') \<Longrightarrow> \<exists>msg. SignalingMessage_ser T msg = Ok bs"
  "client_process_update oc T M k u st = (Ok (secret, bs), st') \<Longrightarrow> \<exists>msg. SignalingMessage_ser T msg = Ok bs"
  by (auto simp: ClientHandshakeState_update_def client_process_update_def bindS_eq_Ok Let_def signaling_bytes_def
      split: prod.splits if_splits dest: create_epoch_key_update_serialises)

lemma server_sends_serialised:
  "ServerHandshakeState_update T M k req st = (Ok bs, st') \<Longrightarrow> \<exists>msg. SignalingMessage_ser T msg = Ok bs"
  "server_process_update oc T M k u st = (Ok (ts, bs), st') \<Longrightarrow> \<exists>msg. SignalingMessage_ser T msg = Ok bs"
  by (auto simp: ServerHandshakeState_update_def server_process_update_def bindS_eq_Ok Let_def signaling_bytes_def
      split: prod.splits if_splits dest: create_epoch_key_update_serialises)

lemma client_response_serialised:
  assumes "ClientHandshakeState_receive_signaling_message oc T J M k bs (st, conn) = (Ok (u, Some rb), st')"
  shows "\<exists>msg. SignalingMessage_ser T msg = Ok rb"
proof -
  obtain msg where msg: "signaling_of_bytes T bs = Ok msg"
    using assms by (auto simp: ClientHandshakeState_receive_signaling_message_def bindS_eq_Ok)
  note defs = ClientHandshakeState_receive_signaling_message_def bindS_eq_Ok Let_def
  show ?thesis
  proof (cases msg)
    case (ConnectionUpdateMessage cu)
    with msg assms show ?thesis
      by (auto simp: defs split: if_splits dest: client_sends_serialised(2))
  next
    case (ConnectionConfirmationMessage cu)
    with msg assms show ?thesis by (cases "client_internal st") (auto simp: defs)
  next
    case (EpochKeyUpdateMessage cu)
    with msg assms show ?thesis by (cases "client_internal st") (auto simp: defs)
  next
    case (KeyUpdateMessage cu)
    with msg assms show ?thesis by (auto simp: defs)
  qed
qed

lemma server_response_serialised:
  assumes "ServerHandshakeState_receive_signaling_message oc T M k bs st = (Ok (ts, Some rb), st')"
  shows "\<exists>msg. SignalingMessage_ser T msg = Ok rb"
proof -
  obtain msg where msg: "signaling_of_bytes T bs = Ok msg"
    using assms by (auto simp: ServerHandshakeState_receive_signaling_message_def bindS_eq_Ok)
  with assms show ?thesis
    by (cases msg) (auto simp: ServerHandshakeState_receive_signaling_message_def bindS_eq_Ok Let_def
      split: if_splits prod.splits dest: server_sends_serialised(2) create_epoch_key_update_serialises)
qed

lemma endpoint_sends_serialised:
  "endpoint_update T J M b c = (Ok out, c') \<Longrightarrow>
     \<forall>w \<in> set out. fst w = secret_of b (ep_secrets c) \<and> (\<exists>bs msg. snd w = Signaling bs \<and> SignalingMessage_ser T msg = Ok bs)"
  "endpoint_signal oc T J M b bs c = (Ok out, c') \<Longrightarrow>
     \<forall>w \<in> set out. fst w = secret_of b (ep_secrets c) \<and> (\<exists>bs msg. snd w = Signaling bs \<and> SignalingMessage_ser T msg = Ok bs)"
proof -
  assume "endpoint_update T J M b c = (Ok out, c')"
  then obtain u bs hs where "MlsHandshake_update_handshake T J M (ep_handshake c) = (Ok (u, bs), hs)"
    "out = reply b (ep_secrets c) (Some bs)"
    by (auto simp: endpoint_update_def bindS_eq_Ok split: prod.splits)
  then show "\<forall>w \<in> set out. fst w = secret_of b (ep_secrets c) \<and> (\<exists>bs msg. snd w = Signaling bs \<and> SignalingMessage_ser T msg = Ok bs)"
    by (auto simp: reply_def MlsHandshake_update_handshake_def split: MlsHandshakeState.splits prod.splits
        dest: client_sends_serialised(1) server_sends_serialised(1))
next
  assume "endpoint_signal oc T J M b bs c = (Ok out, c')"
  then obtain u resp hs where "MlsHandshake_process_signaling_message oc T J M bs (ep_handshake c) = (Ok (u, resp), hs)"
    "out = reply b (ep_secrets c) resp"
    by (auto simp: endpoint_signal_def bindS_eq_Ok split: prod.splits)
  then show "\<forall>w \<in> set out. fst w = secret_of b (ep_secrets c) \<and> (\<exists>bs msg. snd w = Signaling bs \<and> SignalingMessage_ser T msg = Ok bs)"
    by (cases resp) (auto simp: reply_def MlsHandshake_process_signaling_message_def split: MlsHandshakeState.splits prod.splits
        dest: client_response_serialised server_response_serialised)
qed


section \<open>Records in transit\<close>

type_synonym suite = "crypto \<times> HashType \<times> AeadType"

definition suite_of :: "TlsAeadCodec \<Rightarrow> suite" where
  "suite_of c = (crypto_provider c, hash c, cipher c)"

text \<open>
  The packets on the way from side \<open>b\<close> and the messages they carry: packet number \<open>n\<close> is the one record
  that a codec with keys from the message's secret and with sequence number \<open>n\<close> makes of the message.
\<close>

definition carries :: "bool \<Rightarrow> 'm tls_codec \<Rightarrow> suite \<Rightarrow> bool \<Rightarrow> u64 \<Rightarrow> bytes \<times> InnerPlaintext \<Rightarrow> TlsPacketIn \<Rightarrow> bool" where
  "carries oc T K b n km pkt \<longleftrightarrow> (\<exists>c ts ct c'. pkt = packet ct \<and> suite_of c = K \<and> keyed ts b c \<and>
     secret_of b ts = fst km \<and> send_seq c = n \<and> seal_message oc T c (snd km) = (Ok [ct], c'))"

fun in_transit :: "bool \<Rightarrow> 'm tls_codec \<Rightarrow> suite \<Rightarrow> bool \<Rightarrow> u64 \<Rightarrow> wire \<Rightarrow> TlsPacketIn list \<Rightarrow> bool" where
  "in_transit oc T K b n [] pkts \<longleftrightarrow> pkts = []"
| "in_transit oc T K b n (km # w) [] \<longleftrightarrow> False"
| "in_transit oc T K b n (km # w) (pkt # pkts) \<longleftrightarrow> carries oc T K b n km pkt \<and> in_transit oc T K b (n + 1) w pkts"

lemma in_transit_append:
  "in_transit oc T K b n w ps \<Longrightarrow> in_transit oc T K b (n + of_nat (length w)) w' qs \<Longrightarrow>
   in_transit oc T K b n (w @ w') (ps @ qs)"
  by (induction oc T K b n w ps rule: in_transit.induct) (auto simp: ac_simps)

definition one_record :: "'m tls_codec \<Rightarrow> InnerPlaintext \<Rightarrow> bool" where
  "one_record T m \<longleftrightarrow> (\<forall>bs. InnerPlaintext_ser T m = Ok bs \<longrightarrow> bs \<noteq> [] \<and> length bs \<le> unat TLS_MAX_RECORD_SIZE)"

lemma seal_message_one:
  assumes "seal_message oc T c m = (Ok cts, c')" "one_record T m" "max_frame_size c = TLS_MAX_RECORD_SIZE"
  shows "\<exists>ct. cts = [ct]"
proof -
  obtain bs where bs: "InnerPlaintext_ser T m = Ok bs"
    "seal_all (seal_record oc) c (chunks 32768 bs) = (Ok cts, c')"
    using assms(1,3) by (auto simp: seal_message_Ok_iff encrypt_message_Ok_iff)
  with assms(2) have "chunks 32768 bs = [bs]" by (auto simp: one_record_def intro: chunks_short)
  with seal_all_length [OF bs(2)] show ?thesis by (simp add: length_Suc_conv)
qed

lemma seal_messages_in_transit:
  assumes "seal_all (seal_message oc T) c ms = (Ok ctss, c')" "\<forall>m \<in> set ms. one_record T m"
    and "max_frame_size c = TLS_MAX_RECORD_SIZE" "keyed ts b c" "secret_of b ts = k" "suite_of c = K"
  shows "in_transit oc T K b (send_seq c) (map (Pair k) ms) (map (\<lambda>d. packet d) (concat ctss)) \<and>
    c' = c\<lparr>send_seq := send_seq c + of_nat (length ms)\<rparr>"
  using assms
proof (induction ms arbitrary: c ctss)
  case (Cons m ms)
  from Cons.prems(1) obtain cts c1 ctss' where
    1: "seal_message oc T c m = (Ok cts, c1)" and
    2: "seal_all (seal_message oc T) c1 ms = (Ok ctss', c')" and 3: "ctss = cts # ctss'"
    by (auto simp: bindS_eq_Ok)
  from seal_message_one [OF 1] Cons.prems(2,3) obtain ct where ct: "cts = [ct]" by auto
  with seal_message_frame [OF 1] have c1: "c1 = c\<lparr>send_seq := send_seq c + 1\<rparr>" by simp
  with Cons.IH [OF 2] Cons.prems have
    "in_transit oc T K b (send_seq c + 1) (map (Pair k) ms) (map (\<lambda>d. packet d) (concat ctss'))"
    "c' = c\<lparr>send_seq := send_seq c + 1 + of_nat (length ms)\<rparr>"
    by (simp_all add: suite_of_def)
  moreover have "carries oc T K b (send_seq c) (k, m) (packet ct)"
    using 1 ct Cons.prems(4-6) unfolding carries_def by auto
  ultimately show ?case using 3 ct by (simp add: ac_simps)
qed simp


section \<open>Two providers and the network between them\<close>

type_synonym ('s, 'm, 'i) peer = "('s, 'm, TlsPacketIn list, 'i \<times> bytes list) established"

text \<open>
  The records a provider has handed to its transport reach the other provider's reader as packets,
  in order (the frame codec over a reliable byte stream).
\<close>

definition fresh_records :: "('s, 'm, 'i) peer \<Rightarrow> ('s, 'm, 'i) peer \<Rightarrow> bytes list" where
  "fresh_records p p' = drop (length (delivered (writer_of p))) (delivered (writer_of p'))"

definition arrive :: "bytes list \<Rightarrow> ('s, 'm, 'i) peer \<Rightarrow> ('s, 'm, 'i) peer" where
  "arrive recs q = set_channels ((prov_channels q)\<lparr>ch_reader := ch_reader (prov_channels q) @ map (\<lambda>d. packet d) recs\<rparr>) q"

text \<open>Reading one message and acting on it, which \<^verbatim>\<open>read_bytes\<close> repeats until it has application bytes.\<close>

definition peer_reads :: "('s, 'g, 'm, 'o, TlsPacketIn list, 'i \<times> bytes list) env \<Rightarrow> bool \<Rightarrow> ('s, 'm, 'i) peer
    \<Rightarrow> bytes option \<Rightarrow> ('s, 'm, 'i) peer \<Rightarrow> bool" where
  "peer_reads E b p r p' \<longleftrightarrow> (\<exists>m p1. EncryptionProvider_read_message E p = Some (Ok (Some m), p1) \<and>
     EncryptionProvider_process_read_message E b m p1 = Some (Ok r, p'))"

text \<open>The two providers and, per direction, the application bytes sent and those received so far.\<close>

record ('s, 'm, 'i) network =
  client_end :: "('s, 'm, 'i) peer"
  server_end :: "('s, 'm, 'i) peer"
  sent_up :: "bytes list"
  got_up :: "bytes list"
  sent_down :: "bytes list"
  got_down :: "bytes list"

inductive net_step ::
    "('s, 'g, 'm, 'o, TlsPacketIn list, 'i \<times> bytes list) env \<Rightarrow> ('s, 'm, 'i) network \<Rightarrow> ('s, 'm, 'i) network \<Rightarrow> bool"
  for E where
  client_sends: "EncryptionProvider_send_bytes E False bs now (client_end n) = Some (Ok (), p) \<Longrightarrow>
     one_record (env_tls E) (Application bs) \<Longrightarrow>
     net_step E n (n\<lparr>client_end := p, server_end := arrive (fresh_records (client_end n) p) (server_end n),
       sent_up := sent_up n @ [bs]\<rparr>)"
| server_sends: "EncryptionProvider_send_bytes E True bs now (server_end n) = Some (Ok (), q) \<Longrightarrow>
     one_record (env_tls E) (Application bs) \<Longrightarrow>
     net_step E n (n\<lparr>server_end := q, client_end := arrive (fresh_records (server_end n) q) (client_end n),
       sent_down := sent_down n @ [bs]\<rparr>)"
| client_reads: "peer_reads E False (client_end n) r p \<Longrightarrow>
     net_step E n (n\<lparr>client_end := p, server_end := arrive (fresh_records (client_end n) p) (server_end n),
       got_down := got_down n @ (case r of None \<Rightarrow> [] | Some bs \<Rightarrow> [bs])\<rparr>)"
| server_reads: "peer_reads E True (server_end n) r q \<Longrightarrow>
     net_step E n (n\<lparr>server_end := q, client_end := arrive (fresh_records (server_end n) q) (client_end n),
       got_up := got_up n @ (case r of None \<Rightarrow> [] | Some bs \<Rightarrow> [bs])\<rparr>)"

section \<open>One direction\<close>

definition peer_ok :: "suite \<Rightarrow> ('s, 'm, 'i) peer \<Rightarrow> bool" where
  "peer_ok K p \<longleftrightarrow> suite_of (codec_of p) = K \<and> max_frame_size (codec_of p) = TLS_MAX_RECORD_SIZE \<and>
     buffer (writer_of p) = [] \<and> \<not> poisoned (ch_cipher (prov_channels p))"

definition flows :: "('s, 'g, 'm, 'o, TlsPacketIn list, 'i \<times> bytes list) env \<Rightarrow> suite \<Rightarrow> bool
    \<Rightarrow> ('s, 'm, 'i) peer \<Rightarrow> ('s, 'm, 'i) peer \<Rightarrow> wire \<Rightarrow> bool" where
  "flows E K b p q w \<longleftrightarrow>
     in_transit (env_checks E) (env_tls E) K b (recv_seq (codec_of q)) w (ch_reader (prov_channels q)) \<and>
     send_seq (codec_of p) = recv_seq (codec_of q) + of_nat (length w)"

lemma arrive_simps [simp]:
  "peer_ok K (arrive recs q) = peer_ok K q" "provides b (arrive recs q) ep = provides b q ep"
  by (simp_all add: arrive_def peer_ok_def provides_def)

text \<open>What one side sends flows behind what is already on the way; the other direction is untouched.\<close>

lemma responds_flows:
  assumes "responds E b out p p'" "peer_ok K p" "keyed ts b (codec_of p)"
    and "\<forall>w \<in> set out. fst w = secret_of b ts \<and> one_record (env_tls E) (snd w)"
    and "flows E K b p q w" "flows E K b' q p v"
  shows "peer_ok K p' \<and> flows E K b p' (arrive (fresh_records p p') q) (w @ out) \<and>
    flows E K b' (arrive (fresh_records p p') q) p' v"
proof -
  from assms(1) obtain ctss c1 u where
    r: "seal_all (seal_message (env_checks E) (env_tls E)) (codec_of p) (map snd out) = (Ok ctss, c1)"
      "adopts b u c1 (codec_of p')" "ch_reader (prov_channels p') = ch_reader (prov_channels p)"
      "delivered (writer_of p') = delivered (writer_of p) @ concat ctss" "buffer (writer_of p') = []"
      "poisoned (ch_cipher (prov_channels p')) \<longrightarrow> poisoned (ch_cipher (prov_channels p))"
    by (auto simp: responds_def)
  from r(4) have fresh: "fresh_records p p' = concat ctss" by (simp add: fresh_records_def)
  have out: "map (Pair (secret_of b ts)) (map snd out) = out"
    using assms(4) by (induction out) auto
  from seal_messages_in_transit [OF r(1) _ _ assms(3) HOL.refl] assms(2,4) have
    t: "in_transit (env_checks E) (env_tls E) K b (send_seq (codec_of p)) out (map (\<lambda>d. packet d) (concat ctss))"
    and c1: "c1 = (codec_of p)\<lparr>send_seq := send_seq (codec_of p) + of_nat (length out)\<rparr>"
    using out by (auto simp: peer_ok_def)
  from adopts_frame [OF r(2)] c1 assms(2) have
    f: "send_seq (codec_of p') = send_seq (codec_of p) + of_nat (length out)" "recv_seq (codec_of p') = recv_seq (codec_of p)"
      "suite_of (codec_of p') = K" "max_frame_size (codec_of p') = TLS_MAX_RECORD_SIZE"
    by (simp_all add: peer_ok_def suite_of_def)
  from assms(5) t f(1) have "flows E K b p' (arrive (fresh_records p p') q) (w @ out)"
    by (auto simp: flows_def arrive_def fresh intro!: in_transit_append)
  moreover from assms(6) r(3) f have "flows E K b' (arrive (fresh_records p p') q) p' v"
    by (simp add: flows_def arrive_def)
  ultimately show ?thesis using f r(5,6) assms(2) by (simp add: peer_ok_def)
qed

text \<open>The message in front is read back by a peer that holds its secret.\<close>

definition trusts :: "('s, 'g, 'm, 'o, TlsPacketIn list, 'i \<times> bytes list) env \<Rightarrow> suite \<Rightarrow> bool" where
  "trusts E K \<longleftrightarrow> tls_laws (env_tls E) \<and> env_reader E = arrived \<and> (\<exists>S. env_writer E = recording S) \<and>
     aead_correct (fst K) (snd (snd K)) \<and>
     (\<forall>msg bs. SignalingMessage_ser (env_tls E) msg = Ok bs \<longrightarrow> one_record (env_tls E) (Signaling bs))"

lemma read_flows:
  assumes "trusts E K" "flows E K b p q (km # w)" "peer_ok K q" "provides (\<not> b) q ep"
    and "fst km = secret_of b (ep_secrets ep)"
  shows "\<exists>q1. EncryptionProvider_read_message E q = Some (Ok (Some (snd km)), q1) \<and>
    flows E K b p q1 w \<and> peer_ok K q1 \<and> provides (\<not> b) q1 ep \<and> writer_of q1 = writer_of q \<and>
    (\<forall>b' v. flows E K b' q p v \<longrightarrow> flows E K b' q1 p v)"
proof -
  from assms(2) obtain pkt pkts where pkts: "ch_reader (prov_channels q) = pkt # pkts"
    by (cases "ch_reader (prov_channels q)") (auto simp: flows_def)
  with assms(2) obtain c ts ct c' where
    c: "pkt = packet ct" "suite_of c = K" "keyed ts b c" "secret_of b ts = fst km"
      "send_seq c = recv_seq (codec_of q)" "seal_message (env_checks E) (env_tls E) c (snd km) = (Ok [ct], c')"
      "in_transit (env_checks E) (env_tls E) K b (recv_seq (codec_of q) + 1) w pkts"
    by (auto simp: flows_def carries_def)
  have suite: "same_suite c (codec_of q)"
    using c(2) assms(3) by (auto simp: same_suite_def peer_ok_def suite_of_def)
  have "linked c (codec_of q)"
    using keyed_directional [OF c(3) _ _ suite] assms(1,3,4,5) c suite
    by (auto simp: linked_def same_suite_def provides_def trusts_def suite_of_def)
  moreover have "tls_laws (env_tls E)" "env_reader E = arrived" "\<not> poisoned (ch_cipher (prov_channels q))"
    using assms(1,3) by (simp_all add: trusts_def peer_ok_def)
  ultimately obtain r where
    r: "EncryptionProvider_read_message E q = Some (Ok (Some (snd km)),
        set_channels ((prov_channels q)\<lparr>ch_cipher := \<lparr>contents = r, poisoned = False\<rparr>, ch_reader := pkts\<rparr>) q)"
      "r = (codec_of q)\<lparr>recv_seq := recv_seq (codec_of q) + 1\<rparr>"
    using read_message_sealed [of E c q "snd km" ct c' pkts] c(1,6) pkts by blast
  have "send_seq (codec_of p) = recv_seq (codec_of q) + 1 + of_nat (length w)"
    using assms(2) by (simp add: flows_def ac_simps)
  with r c(7) assms(3,4) show ?thesis
    by (intro exI [of _ "set_channels ((prov_channels q)\<lparr>ch_cipher := \<lparr>contents = r, poisoned = False\<rparr>, ch_reader := pkts\<rparr>) q"])
      (auto simp: flows_def peer_ok_def provides_def suite_of_def)
qed

lemma read_nothing:
  assumes "env_reader E = arrived" "ch_reader (prov_channels q) = []"
  shows "EncryptionProvider_read_message E q = None"
proof (rule ccontr)
  assume "EncryptionProvider_read_message E q \<noteq> None"
  then obtain x q' where "await_poll (EncryptionProvider_poll_next E) q = Some (x, q')"
    by (auto simp: EncryptionProvider_read_message_def)
  then have "\<exists>s. ch_reader (prov_channels s) = [] \<and> EncryptionProvider_poll_next E s = (Ready x, q')"
    by (rule await_poll_until)
      (use assms in \<open>auto simp: EncryptionProvider_poll_next_def channels_poll_next_def TlsAeadStream_poll_next_def\<close>)
  with assms(1) show False
    by (auto simp: EncryptionProvider_poll_next_def channels_poll_next_def TlsAeadStream_poll_next_def)
qed

end
