(* ===== verification/Network_Refinement.thy ===== *)
theory Network_Refinement
  imports Network Refinement
begin

text \<open>
  The network of two providers refines the system of \<open>Key_Sync\<close>: each call of \<^verbatim>\<open>send_bytes\<close> and each
  read is matched by steps of the ends, and the bytes sent are those received followed by those
  under way.
\<close>

section \<open>One provider's calls, seen from both directions\<close>

lemma arrive_arrive:
  assumes "responds E b out p p1" "responds E b out' p1 p'"
  shows "arrive (fresh_records p1 p') (arrive (fresh_records p p1) q) = arrive (fresh_records p p') q"
  using assms by (auto simp: responds_def fresh_records_def arrive_def)

lemma end_sends:
  assumes "trusts E K" "provides b p ep" "peer_ok K p" "flows E K b p q w" "flows E K b' q p v"
    and "EncryptionProvider_send_bytes E b bs now p = Some (Ok (), p')" "one_record (env_tls E) (Application bs)"
  shows "\<exists>out ep'. provides b p' ep' \<and> peer_ok K p' \<and>
    flows E K b p' (arrive (fresh_records p p') q) (w @ out @ [(secret_of b (ep_secrets ep'), Application bs)]) \<and>
    flows E K b' (arrive (fresh_records p p') q) p' v \<and>
    (out = [] \<and> ep' = ep \<or> endpoint_update (env_tls E) (env_json E) (env_mls E) b ep = (Ok out, ep'))"
proof -
  from assms(1,3) obtain S where S: "env_writer E = recording S" "buffer (writer_of p) = []"
    by (auto simp: trusts_def peer_ok_def)
  from send_bytes_effect [OF S(1) assms(2) S(2) assms(6)] obtain out ep' p1 where
    e: "provides b p1 ep'" "provides b p' ep'" "responds E b out p p1"
      "responds E b [(secret_of b (ep_secrets ep'), Application bs)] p1 p'"
      "out = [] \<and> ep' = ep \<or> endpoint_update (env_tls E) (env_json E) (env_mls E) b ep = (Ok out, ep')" by metis
  have out: "\<forall>w \<in> set out. fst w = secret_of b (ep_secrets ep) \<and> one_record (env_tls E) (snd w)"
    using e(5) assms(1) endpoint_sends_serialised(1) by (fastforce simp: trusts_def)
  from assms(2) e(1) have k: "keyed (ep_secrets ep) b (codec_of p)" "keyed (ep_secrets ep') b (codec_of p1)"
    by (simp_all add: provides_def)
  note 1 = responds_flows [OF e(3) assms(3) k(1) out assms(4,5)]
  from 1 have 2: "peer_ok K p1" "flows E K b p1 (arrive (fresh_records p p1) q) (w @ out)"
    "flows E K b' (arrive (fresh_records p p1) q) p1 v" by simp_all
  from responds_flows [OF e(4) 2(1) k(2) _ 2(2,3)] assms(7) e show ?thesis
    unfolding arrive_arrive [OF e(3,4)] by auto
qed

lemma end_reads:
  assumes "trusts E K" "provides (\<not> b) q ep" "peer_ok K q" "flows E K b p q w" "flows E K (\<not> b) q p v"
    and "w \<noteq> [] \<Longrightarrow> fst (hd w) = secret_of b (ep_secrets ep)" "peer_reads E (\<not> b) q r q'"
  shows "\<exists>k m w' out ep'. w = (k, m) # w' \<and> provides (\<not> b) q' ep' \<and> peer_ok K q' \<and>
    flows E K b (arrive (fresh_records q q') p) q' w' \<and>
    flows E K (\<not> b) q' (arrive (fresh_records q q') p) (v @ out) \<and>
    ((\<exists>bs. m = Application bs \<and> r = Some bs \<and> out = [] \<and> ep' = ep) \<or>
     (\<exists>bs. m = Signaling bs \<and> r = None \<and>
        endpoint_signal (env_checks E) (env_tls E) (env_json E) (env_mls E) (\<not> b) bs ep = (Ok out, ep')))"
proof -
  from assms(7) obtain m q1 where
    m: "EncryptionProvider_read_message E q = Some (Ok (Some m), q1)"
      "EncryptionProvider_process_read_message E (\<not> b) m q1 = Some (Ok r, q')"
    by (auto simp: peer_reads_def)
  have "w \<noteq> []"
  proof
    assume "w = []"
    with assms(4) have "ch_reader (prov_channels q) = []" by (simp add: flows_def)
    with read_nothing [of E q] assms(1) m(1) show False by (simp add: trusts_def)
  qed
  then obtain k m' w' where w: "w = (k, m') # w'" by (cases w) auto
  from read_flows [OF assms(1) assms(4) [unfolded w] assms(3,2)] assms(6) m(1) have
    q1: "m' = m" "flows E K b p q1 w'" "peer_ok K q1" "provides (\<not> b) q1 ep" "writer_of q1 = writer_of q"
      "flows E K (\<not> b) q1 p v"
    using assms(5) w by auto
  from assms(1) q1(3) obtain S where S: "env_writer E = recording S" "buffer (writer_of q1) = []"
    by (auto simp: trusts_def peer_ok_def)
  have fresh: "fresh_records q q' = fresh_records q1 q'" by (simp add: fresh_records_def q1(5))
  show ?thesis
  proof (cases m)
    case (Application bs)
    with m(2) have r: "r = Some bs" "q' = q1" by (simp_all add: EncryptionProvider_process_read_message_def)
    then have "arrive (fresh_records q q') p = p" by (simp add: fresh_records_def arrive_def q1(5))
    with w q1 r Application show ?thesis
      by (intro exI [of _ k] exI [of _ m] exI [of _ w'] exI [of _ "[]"] exI [of _ ep]) simp
  next
    case (Signaling bs)
    with m(2) have r: "r = None" "handle_signaling E (\<not> b) bs q1 = Some (Ok (), q')"
      by (auto simp: EncryptionProvider_process_read_message_def bindA_eq_Ok)
    from handle_signaling_effect [OF S(1) q1(4) S(2) r(2)] obtain out ep' where
      e: "endpoint_signal (env_checks E) (env_tls E) (env_json E) (env_mls E) (\<not> b) bs ep = (Ok out, ep')"
        "provides (\<not> b) q' ep'" "responds E (\<not> b) out q1 q'" by blast
    have out: "\<forall>w \<in> set out. fst w = secret_of (\<not> b) (ep_secrets ep) \<and> one_record (env_tls E) (snd w)"
      using endpoint_sends_serialised(2) [OF e(1)] assms(1) by (fastforce simp: trusts_def)
    have k: "keyed (ep_secrets ep) (\<not> b) (codec_of q1)" using q1(4) by (simp add: provides_def)
    from responds_flows [OF e(3) q1(3) k out q1(6,2)] w q1(1) r e Signaling show ?thesis
      unfolding fresh
      by (intro exI [of _ k] exI [of _ m] exI [of _ w'] exI [of _ out] exI [of _ ep']) simp
  qed
qed

section \<open>The network refines the system of \<open>Key_Sync\<close>\<close>

definition payloads :: "wire \<Rightarrow> bytes list" where
  "payloads w = concat (map (\<lambda>km. case snd km of Application bs \<Rightarrow> [bs] | Signaling _ \<Rightarrow> []) w)"

lemma payloads_simps [simp]:
  "payloads [] = []" "payloads (v @ w) = payloads v @ payloads w"
  "payloads ((k, Application bs) # w) = bs # payloads w" "payloads ((k, Signaling bs) # w) = payloads w"
  by (simp_all add: payloads_def)

lemma endpoint_payloads:
  "endpoint_update T J M b c = (Ok out, c') \<Longrightarrow> payloads out = []"
  "endpoint_signal oc T J M b bs c = (Ok out, c') \<Longrightarrow> payloads out = []"
  using endpoint_sends_serialised(1) [of T J M b c out c'] endpoint_sends_serialised(2) [of oc T J M b bs c out c']
  by (fastforce simp: payloads_def)+

fun net_rel :: "('s, 'g, 'm, 'o, TlsPacketIn list, 'i \<times> bytes list) env \<Rightarrow> suite
    \<Rightarrow> ('s, 'm, 'i) network \<Rightarrow> ('s, 'm) system \<Rightarrow> bool" where
  "net_rel E K n (System c s up down) \<longleftrightarrow> trusts E K \<and>
     provides False (client_end n) c \<and> peer_ok K (client_end n) \<and>
     provides True (server_end n) s \<and> peer_ok K (server_end n) \<and>
     flows E K False (client_end n) (server_end n) up \<and> flows E K True (server_end n) (client_end n) down \<and>
     sent_up n = got_up n @ payloads up \<and> sent_down n = got_down n @ payloads down"

abbreviation run_system :: "('s, 'g, 'm, 'o, 'r, 'w) env \<Rightarrow> ('s, 'm) system \<Rightarrow> ('s, 'm) system \<Rightarrow> bool" where
  "run_system E \<equiv> (sys_step (env_checks E) (env_tls E) (env_json E) (env_mls E))\<^sup>*\<^sup>*"

definition in_sync :: "('s, 'g, 'm, 'o, 'r, 'w) env \<Rightarrow> ('g, 'm, 'o, 'e) mls_view \<Rightarrow> GroupId \<Rightarrow> ('s, 'm) system \<Rightarrow> bool" where
  "in_sync E V gid sys \<longleftrightarrow> (\<exists>a. sync_rel (env_tls E) (env_mls E) V gid sys a \<and> in_phase a)"

lemma in_sync_run: "run_system E sys sys' \<Longrightarrow> in_sync E V gid sys \<Longrightarrow> in_sync E V gid sys'"
  unfolding in_sync_def using key_sync.runs_refine by blast

lemma in_sync_front:
  "in_sync E V gid (System c s up down) \<Longrightarrow> up \<noteq> [] \<Longrightarrow> fst (hd up) = secret_of False (ep_secrets s)"
  "in_sync E V gid (System c s up down) \<Longrightarrow> down \<noteq> [] \<Longrightarrow> fst (hd down) = secret_of True (ep_secrets c)"
  using sync_rel_front unfolding in_sync_def by blast+

lemmas run_one = r_into_rtranclp [where r = "sys_step oc T J M" for oc T J M]

text \<open>The steps of the system that take a message off a channel.\<close>

inductive sys_deliver ::
    "bool \<Rightarrow> 'm tls_codec \<Rightarrow> 'm json \<Rightarrow> ('s, 'g, 'm, 'o) openmls \<Rightarrow> ('s, 'm) system \<Rightarrow> ('s, 'm) system \<Rightarrow> bool"
  for oc T J M where
  client_app: "sys_deliver oc T J M (System c s qs ((k, Application b) # qc)) (System c s qs qc)"
| server_app: "sys_deliver oc T J M (System c s ((k, Application b) # qs) qc) (System c s qs qc)"
| client_signal: "endpoint_signal oc T J M False bs c = (Ok out, c') \<Longrightarrow>
     sys_deliver oc T J M (System c s qs ((k, Signaling bs) # qc)) (System c' s (qs @ out) qc)"
| server_signal: "endpoint_signal oc T J M True bs s = (Ok out, s') \<Longrightarrow>
     sys_deliver oc T J M (System c s ((k, Signaling bs) # qs) qc) (System c s' qs (qc @ out))"

lemma sys_deliver_step: "sys_deliver oc T J M x y \<Longrightarrow> sys_step oc T J M x y"
  by (induction rule: sys_deliver.induct) (auto intro: sys_step.intros)

abbreviation deliver_system :: "('s, 'g, 'm, 'o, 'r, 'w) env \<Rightarrow> ('s, 'm) system \<Rightarrow> ('s, 'm) system \<Rightarrow> bool" where
  "deliver_system E \<equiv> sys_deliver (env_checks E) (env_tls E) (env_json E) (env_mls E)"

lemma client_sends_refined:
  assumes "net_rel E K n (System c s up down)" "one_record (env_tls E) (Application bs)"
    and "EncryptionProvider_send_bytes E False bs now (client_end n) = Some (Ok (), p)"
  shows "\<exists>sys. run_system E (System c s up down) sys \<and>
    net_rel E K (n\<lparr>client_end := p, server_end := arrive (fresh_records (client_end n) p) (server_end n),
       sent_up := sent_up n @ [bs]\<rparr>) sys"
proof -
  from assms(1) have r: "trusts E K" "provides False (client_end n) c" "peer_ok K (client_end n)"
    "flows E K False (client_end n) (server_end n) up" "flows E K True (server_end n) (client_end n) down" by simp_all
  from end_sends [OF r assms(3,2)] obtain out c' where
    o: "provides False p c'" "peer_ok K p"
      "flows E K False p (arrive (fresh_records (client_end n) p) (server_end n)) (up @ out @ [(secret_of False (ep_secrets c'), Application bs)])"
      "flows E K True (arrive (fresh_records (client_end n) p) (server_end n)) p down" and
    u: "out = [] \<and> c' = c \<or> endpoint_update (env_tls E) (env_json E) (env_mls E) False c = (Ok out, c')" by blast
  have "payloads out = []" using u endpoint_payloads(1) by auto
  moreover have "run_system E (System c s up down) (System c' s (up @ out) down)"
    using u by (auto intro: run_one sys_step.client_update)
  then have "run_system E (System c s up down)
      (System c' s (up @ out @ [(secret_of False (ep_secrets c'), Application bs)]) down)"
    by (rule rtranclp.rtrancl_into_rtrancl) (unfold append_assoc [symmetric], rule sys_step.client_send)
  ultimately show ?thesis using o assms(1)
    by (intro exI [of _ "System c' s (up @ out @ [(secret_of False (ep_secrets c'), Application bs)]) down"]) simp
qed

lemma server_sends_refined:
  assumes "net_rel E K n (System c s up down)" "one_record (env_tls E) (Application bs)"
    and "EncryptionProvider_send_bytes E True bs now (server_end n) = Some (Ok (), q)"
  shows "\<exists>sys. run_system E (System c s up down) sys \<and>
    net_rel E K (n\<lparr>server_end := q, client_end := arrive (fresh_records (server_end n) q) (client_end n),
       sent_down := sent_down n @ [bs]\<rparr>) sys"
proof -
  from assms(1) have r: "trusts E K" "provides True (server_end n) s" "peer_ok K (server_end n)"
    "flows E K True (server_end n) (client_end n) down" "flows E K False (client_end n) (server_end n) up" by simp_all
  from end_sends [OF r assms(3,2)] obtain out s' where
    o: "provides True q s'" "peer_ok K q"
      "flows E K True q (arrive (fresh_records (server_end n) q) (client_end n)) (down @ out @ [(secret_of True (ep_secrets s'), Application bs)])"
      "flows E K False (arrive (fresh_records (server_end n) q) (client_end n)) q up" and
    u: "out = [] \<and> s' = s \<or> endpoint_update (env_tls E) (env_json E) (env_mls E) True s = (Ok out, s')" by blast
  have "payloads out = []" using u endpoint_payloads(1) by auto
  moreover have "run_system E (System c s up down) (System c s' up (down @ out))"
    using u by (auto intro: run_one sys_step.server_update)
  then have "run_system E (System c s up down)
      (System c s' up (down @ out @ [(secret_of True (ep_secrets s'), Application bs)]))"
    by (rule rtranclp.rtrancl_into_rtrancl) (unfold append_assoc [symmetric], rule sys_step.server_send)
  ultimately show ?thesis using o assms(1)
    by (intro exI [of _ "System c s' up (down @ out @ [(secret_of True (ep_secrets s'), Application bs)])"]) simp
qed

lemma client_reads_refined:
  assumes "net_rel E K n (System c s up down)" "in_sync E V gid (System c s up down)"
    and "peer_reads E False (client_end n) r p"
  shows "\<exists>sys. deliver_system E (System c s up down) sys \<and>
    net_rel E K (n\<lparr>client_end := p, server_end := arrive (fresh_records (client_end n) p) (server_end n),
       got_down := got_down n @ (case r of None \<Rightarrow> [] | Some bs \<Rightarrow> [bs])\<rparr>) sys"
proof -
  from assms(1) have x: "trusts E K" "provides (\<not> True) (client_end n) c" "peer_ok K (client_end n)"
    "flows E K True (server_end n) (client_end n) down" "flows E K (\<not> True) (client_end n) (server_end n) up" by simp_all
  have rd: "peer_reads E (\<not> True) (client_end n) r p" using assms(3) by simp
  from end_reads [OF x in_sync_front(2) [OF assms(2)] rd] obtain k m down' out c' where
    o: "down = (k, m) # down'" "provides False p c'" "peer_ok K p"
      "flows E K True (arrive (fresh_records (client_end n) p) (server_end n)) p down'"
      "flows E K False p (arrive (fresh_records (client_end n) p) (server_end n)) (up @ out)" and
    u: "(\<exists>bs. m = Application bs \<and> r = Some bs \<and> out = [] \<and> c' = c) \<or>
     (\<exists>bs. m = Signaling bs \<and> r = None \<and>
        endpoint_signal (env_checks E) (env_tls E) (env_json E) (env_mls E) False bs c = (Ok out, c'))"
    by auto
  have "deliver_system E (System c s up down) (System c' s (up @ out) down')"
    using u o(1) by (auto intro: sys_deliver.intros)
  moreover have "net_rel E K (n\<lparr>client_end := p, server_end := arrive (fresh_records (client_end n) p) (server_end n),
       got_down := got_down n @ (case r of None \<Rightarrow> [] | Some bs \<Rightarrow> [bs])\<rparr>) (System c' s (up @ out) down')"
    using o u assms(1) endpoint_payloads(2) by auto
  ultimately show ?thesis by blast
qed

lemma server_reads_refined:
  assumes "net_rel E K n (System c s up down)" "in_sync E V gid (System c s up down)"
    and "peer_reads E True (server_end n) r q"
  shows "\<exists>sys. deliver_system E (System c s up down) sys \<and>
    net_rel E K (n\<lparr>server_end := q, client_end := arrive (fresh_records (server_end n) q) (client_end n),
       got_up := got_up n @ (case r of None \<Rightarrow> [] | Some bs \<Rightarrow> [bs])\<rparr>) sys"
proof -
  from assms(1) have x: "trusts E K" "provides (\<not> False) (server_end n) s" "peer_ok K (server_end n)"
    "flows E K False (client_end n) (server_end n) up" "flows E K (\<not> False) (server_end n) (client_end n) down" by simp_all
  have rd: "peer_reads E (\<not> False) (server_end n) r q" using assms(3) by simp
  from end_reads [OF x in_sync_front(1) [OF assms(2)] rd] obtain k m up' out s' where
    o: "up = (k, m) # up'" "provides True q s'" "peer_ok K q"
      "flows E K False (arrive (fresh_records (server_end n) q) (client_end n)) q up'"
      "flows E K True q (arrive (fresh_records (server_end n) q) (client_end n)) (down @ out)" and
    u: "(\<exists>bs. m = Application bs \<and> r = Some bs \<and> out = [] \<and> s' = s) \<or>
     (\<exists>bs. m = Signaling bs \<and> r = None \<and>
        endpoint_signal (env_checks E) (env_tls E) (env_json E) (env_mls E) True bs s = (Ok out, s'))"
    by auto
  have "deliver_system E (System c s up down) (System c s' up' (down @ out))"
    using u o(1) by (auto intro: sys_deliver.intros)
  moreover have "net_rel E K (n\<lparr>server_end := q, client_end := arrive (fresh_records (server_end n) q) (client_end n),
       got_up := got_up n @ (case r of None \<Rightarrow> [] | Some bs \<Rightarrow> [bs])\<rparr>) (System c s' up' (down @ out))"
    using o u assms(1) endpoint_payloads(2) by auto
  ultimately show ?thesis by blast
qed

interpretation net_refinement: refinement "net_step E" "run_system E" "net_rel E K" "in_sync E V gid" for E K V gid
proof unfold_locales
  show "run_system E a a' \<Longrightarrow> in_sync E V gid a \<Longrightarrow> in_sync E V gid a'" for a a' by (rule in_sync_run)
next
  fix n sys n'
  assume rel: "net_rel E K n sys" "in_sync E V gid sys" and step: "net_step E n n'"
  obtain c s up down where sys: "sys = System c s up down" by (cases sys)
  from step rel [unfolded sys] show "\<exists>sys'. run_system E sys sys' \<and> net_rel E K n' sys'"
    unfolding sys
  proof (induction rule: net_step.induct)
    case (client_sends bs now n p)
    then show ?case using client_sends_refined by blast
  next
    case (server_sends bs now n q)
    then show ?case using server_sends_refined by blast
  next
    case (client_reads n r p)
    then show ?case using client_reads_refined run_one [OF sys_deliver_step] by blast
  next
    case (server_reads n r q)
    then show ?case using server_reads_refined run_one [OF sys_deliver_step] by blast
  qed
qed

end
