(* ===== verification/Provider_Liveness.thy ===== *)
theory Provider_Liveness
  imports Network_Refinement
begin

text \<open>
  When the provider's calls succeed: over a transport that is always ready and with a crypto provider
  that does its work, sending, changing keys and handling an honest signaling message all complete, so
  a network with records under way can always read on, and reading comes to an end.
\<close>

section \<open>Calls that cannot fail\<close>

definition always_ready :: "'i sink \<Rightarrow> bool" where
  "always_ready S \<longleftrightarrow> (\<forall>i. fst (sink_poll_ready S i) = Ready (Ok ()) \<and> fst (sink_poll_flush S i) = Ready (Ok ()) \<and>
     (\<forall>item. fst (sink_start_send S i item) = Ok ()))"

lemma empty_buffer_ready:
  assumes "always_ready S"
  shows "\<exists>j. empty_buffer_loop (recording S) (i, log) buf = (Ready (Ok ()), \<lparr>sink_inner = (j, log @ buf), buffer = []\<rparr>)"
proof (induction buf arbitrary: i log)
  case (Cons a buf)
  show ?case using assms Cons.IH [of _ "log @ [a]"] by (simp add: always_ready_def)
qed simp

lemma sink_polls_ready:
  assumes "always_ready S"
  shows "\<exists>k'. TlsAeadSink_poll_ready (recording S) k = (Ready (Ok ()), k') \<and> buffer k' = []"
    "\<exists>k'. TlsAeadSink_poll_flush (recording S) k = (Ready (Ok ()), k')"
proof -
  obtain i log where i: "sink_inner k = (i, log)" by fastforce
  obtain j where "empty_buffer_loop (recording S) (snd (sink_poll_ready S i), log) (buffer k) =
      (Ready (Ok ()), \<lparr>sink_inner = (j, log @ buffer k), buffer = []\<rparr>)"
    using empty_buffer_ready [OF assms] by blast
  then show "\<exists>k'. TlsAeadSink_poll_ready (recording S) k = (Ready (Ok ()), k') \<and> buffer k' = []"
    "\<exists>k'. TlsAeadSink_poll_flush (recording S) k = (Ready (Ok ()), k')"
    using assms i by (simp_all add: TlsAeadSink_poll_ready_def TlsAeadSink_poll_flush_def empty_then_poll_def
        TlsAeadSink_try_empty_buffer_def always_ready_def)
qed

text \<open>
  A crypto provider that does its work: HKDF-Expand for the lengths the key schedule asks for, the
  AEAD for keys, nonces and plaintexts of the sizes the record layer uses.
\<close>

definition crypto_total :: "crypto \<Rightarrow> HashType \<Rightarrow> AeadType \<Rightarrow> bool" where
  "crypto_total C h alg \<longleftrightarrow> hkdf_expand_length C h \<and> hash_size C h < 65536 \<and> key_size C alg < 65536 \<and>
     (\<forall>secret info len. len \<in> {hash_size C h, key_size C alg, TLS13_IV_SIZE} \<longrightarrow> is_ok (hkdf_expand C h secret info len)) \<and>
     (\<forall>k pt n ad. length k = key_size C alg \<longrightarrow> length n = TLS13_IV_SIZE \<longrightarrow> length pt \<le> 32769 \<longrightarrow>
        is_ok (aead_encrypt C alg k pt n ad))"

lemma expand_total:
  assumes "crypto_total C h alg"
  shows "\<exists>k. expand_client_secret C h cs [] alg = Ok k" "\<exists>k. expand_server_secret C h ss [] alg = Ok k"
proof -
  have l: "\<exists>out. hdkf_expand_label C h secret label [] len = Ok out"
    if "len \<in> {hash_size C h, key_size C alg, TLS13_IV_SIZE}" "length label \<le> 12" for secret label len
    using assms that by (auto simp: crypto_total_def hdkf_expand_label_def is_ok_iff TLS13_IV_SIZE_def)
  define f where "f secret label len = the_ok (hdkf_expand_label C h secret label [] len)" for secret label len
  have f: "hdkf_expand_label C h secret label [] len = Ok (f secret label len)"
    if "len \<in> {hash_size C h, key_size C alg, TLS13_IV_SIZE}" "length label \<le> 12" for secret label len
    using l [OF that, of secret] by (auto simp: f_def)
  show "\<exists>k. expand_client_secret C h cs [] alg = Ok k" "\<exists>k. expand_server_secret C h ss [] alg = Ok k"
    by (simp_all add: expand_client_secret_def expand_server_secret_def f)
qed

lemma update_traffic_secrets_total:
  assumes "crypto_total (crypto_provider c) (hash c) (cipher c)"
  shows "\<exists>c'. TlsAeadCodec_update_traffic_secrets c u is_server = (Ok (), c')"
proof -
  obtain ck sk where
    "\<And>cs. expand_client_secret (crypto_provider c) (hash c) cs [] (cipher c) = Ok (ck cs)"
    "\<And>ss. expand_server_secret (crypto_provider c) (hash c) ss [] (cipher c) = Ok (sk ss)"
    using expand_total [OF assms] by metis
  then show ?thesis by (cases u) (simp_all add: case_prod_beta)
qed

lemma keyed_sizes:
  assumes "keyed ts b c" "hkdf_expand_length (crypto_provider c) (hash c)"
  shows "length (send_key c) = key_size (crypto_provider c) (cipher c) \<and> length (send_iv c) = TLS13_IV_SIZE"
  using assms expand_client_secret_lengths expand_server_secret_lengths
  by (cases b) (fastforce simp: keyed_def)+

lemma rfc8446_nonce_length: "length iv = TLS13_IV_SIZE \<Longrightarrow> length (rfc8446_nonce iv seq) = TLS13_IV_SIZE"
  by (simp add: rfc8446_nonce_def TLS13_IV_SIZE_def)

lemma seal_record_total:
  assumes "crypto_total (crypto_provider c) (hash c) (cipher c)" "length p \<le> 32768"
    and "length (send_key c) = key_size (crypto_provider c) (cipher c) \<and> length (send_iv c) = TLS13_IV_SIZE"
  shows "\<exists>ct. seal_record False c p = (Ok ct, c\<lparr>send_seq := send_seq c + 1\<rparr>)"
proof -
  let ?n = "rfc8446_nonce (send_iv c) (send_seq c)"
  have "is_ok (aead_encrypt (crypto_provider c) (cipher c) (send_key c) (p @ [TLS_APP_DATA]) ?n ad)" for ad
    using assms rfc8446_nonce_length by (simp add: crypto_total_def)
  then have "is_ok (encrypt_chunk c p)"
    using assms(3) by (simp add: encrypt_chunk_def make_iv_eq Let_def)
  then show ?thesis by (auto simp: is_ok_iff seal_record_def add_u64_def)
qed

lemma seal_records_total:
  assumes "crypto_total (crypto_provider c) (hash c) (cipher c)" "\<forall>p \<in> set ps. length p \<le> 32768"
    and "length (send_key c) = key_size (crypto_provider c) (cipher c) \<and> length (send_iv c) = TLS13_IV_SIZE"
  shows "\<exists>cts c'. seal_all (seal_record False) c ps = (Ok cts, c')"
  using assms
proof (induction ps arbitrary: c)
  case (Cons p ps)
  obtain ct where "seal_record False c p = (Ok ct, c\<lparr>send_seq := send_seq c + 1\<rparr>)"
    using seal_record_total [of c p] Cons.prems by auto
  moreover obtain cts c' where "seal_all (seal_record False) (c\<lparr>send_seq := send_seq c + 1\<rparr>) ps = (Ok cts, c')"
    using Cons.IH [of "c\<lparr>send_seq := send_seq c + 1\<rparr>"] Cons.prems by auto
  ultimately show ?case by simp
qed simp

lemma encrypt_message_total:
  assumes "crypto_total (crypto_provider c) (hash c) (cipher c)" "max_frame_size c = TLS_MAX_RECORD_SIZE" "keyed ts b c"
  shows "\<exists>cts c'. encrypt_message False c bs = (Ok cts, c')"
proof -
  have "\<exists>cts c'. seal_all (seal_record False) c (chunks 32768 bs) = (Ok cts, c')"
    by (rule seal_records_total [OF assms(1) _ keyed_sizes [OF assms(3)]])
      (use assms(1) chunks_length_le in \<open>auto simp: crypto_total_def\<close>)
  then show ?thesis using assms(2) by (auto simp: encrypt_message_Ok_iff)
qed

section \<open>The provider's calls\<close>

text \<open>
  A release build over a transport that is always ready, with a crypto provider that does its work and
  signaling messages that can be wrapped.
\<close>

definition undisturbed :: "('s, 'g, 'm, 'o, 'r, 'i \<times> bytes list) env \<Rightarrow> bool" where
  "undisturbed E \<longleftrightarrow> \<not> env_checks E \<and> (\<exists>S. always_ready S \<and> env_writer E = recording S) \<and>
     crypto_total (env_crypto E) KEY_SCHEDULE_HASH_FUNCTION AEAD_ALGORITHM \<and>
     (\<forall>msg bs. SignalingMessage_ser (env_tls E) msg = Ok bs \<longrightarrow> is_ok (InnerPlaintext_ser (env_tls E) (Signaling bs)))"

abbreviation suite_in :: "('s, 'g, 'm, 'o, 'r, 'w) env \<Rightarrow> suite" where
  "suite_in E \<equiv> (env_crypto E, KEY_SCHEDULE_HASH_FUNCTION, AEAD_ALGORITHM)"

lemma provider_poll_done:
  assumes "g (writer_of p) = (Ready (Ok ()), k)"
  shows "await_poll (provider_poll g) p = Some (Ok (), set_channels ((prov_channels p)\<lparr>ch_writer := k\<rparr>) p)"
  using assms by (simp add: provider_poll_def poll_at_def)

lemma start_send_total:
  assumes "undisturbed E" "keyed ts b (contents m)" "suite_of (contents m) = suite_in E"
    and "max_frame_size (contents m) = TLS_MAX_RECORD_SIZE" "\<not> poisoned m" "buffer k = []"
  shows "\<exists>m' k'. TlsAeadSink_start_send (env_checks E) (m, k) bs = (Ok (), (m', k'))"
proof -
  have "\<exists>cts c. encrypt_message False (contents m) bs = (Ok cts, c)"
    by (rule encrypt_message_total [OF _ assms(4,2)]) (use assms(1,3) in \<open>auto simp: undisturbed_def suite_of_def\<close>)
  then obtain cts c where "encrypt_message False (contents m) bs = (Ok cts, c)" by blast
  then have "TlsAeadCodec_encrypt False (contents m) bs [] = (Ok (), (c, cts))"
    unfolding encrypt_message_def by (auto split: prod.splits)
  with assms(1,5,6) show ?thesis by (simp add: undisturbed_def TlsAeadSink_start_send_def with_lock_def)
qed

lemma provider_send_total:
  assumes "undisturbed E" "peer_ok (suite_in E) p" "keyed ts b (codec_of p)" "is_ok (InnerPlaintext_ser (env_tls E) item)"
  shows "\<exists>p'. EncryptionProvider_send E item p = Some (Ok (), p')"
proof -
  from assms(1) obtain S where S: "always_ready S" "env_writer E = recording S" by (auto simp: undisturbed_def)
  obtain bs where ser: "InnerPlaintext_ser (env_tls E) item = Ok bs" using assms(4) by (auto simp: is_ok_iff)
  obtain k where k: "TlsAeadSink_poll_ready (recording S) (writer_of p) = (Ready (Ok ()), k)" "buffer k = []"
    using sink_polls_ready(1) [OF S(1)] by blast
  obtain m k1 where start: "TlsAeadSink_start_send (env_checks E) (ch_cipher (prov_channels p), k) bs = (Ok (), (m, k1))"
    using start_send_total [OF assms(1,3) _ _ _ k(2), of bs] assms(2) by (auto simp: peer_ok_def)
  obtain k' where "TlsAeadSink_poll_flush (recording S) k1 = (Ready (Ok ()), k')"
    using sink_polls_ready(2) [OF S(1)] by blast
  with S k start ser show ?thesis
    by (simp add: EncryptionProvider_send_def sink_send_def EncryptionProvider_poll_ready_def EncryptionProvider_poll_flush_def
        provider_poll_done EncryptionProvider_start_send_def channels_start_send_def)
qed

lemma channels_update_total:
  assumes "undisturbed E" "suite_of (contents (ch_cipher ch)) = suite_in E" "\<not> poisoned (ch_cipher ch)"
  shows "\<exists>c. channels_update_secrets b u ch = (Ok (), ch\<lparr>ch_cipher := \<lparr>contents = c, poisoned = False\<rparr>\<rparr>)"
proof -
  have "crypto_total (crypto_provider (contents (ch_cipher ch))) (hash (contents (ch_cipher ch))) (cipher (contents (ch_cipher ch)))"
    using assms by (auto simp: undisturbed_def suite_of_def)
  then obtain c where c: "TlsAeadCodec_update_traffic_secrets (contents (ch_cipher ch)) u b = (Ok (), c)"
    using update_traffic_secrets_total by blast
  with update_traffic_secrets_again [OF c] assms(3) show ?thesis
    by (intro exI [of _ c]) (simp add: channels_update_secrets_def with_lock_def
        TlsAeadSink_update_traffic_secrets_def TlsAeadStream_update_traffic_secrets_def)
qed

lemma provider_update_cipher_total:
  assumes "undisturbed E" "peer_ok (suite_in E) p"
  shows "\<exists>p'. EncryptionProvider_update_cipher b u p = (Ok (), p')"
  using channels_update_total [OF assms(1), of "prov_channels p" b u] assms(2)
  by (auto simp: peer_ok_def EncryptionProvider_update_cipher_def)

lemma send_keeps_peer_ok:
  assumes "env_writer E = recording S" "EncryptionProvider_send E item p = Some (Ok (), p')" "peer_ok K p"
  shows "peer_ok K p'"
  using provider_sends [OF assms(1,2)] assms(3) seal_message_frame by (fastforce simp: peer_ok_def suite_of_def)

lemma seal_messages_frame:
  "seal_all (seal_message oc T) c ms = (Ok ctss, c') \<Longrightarrow> \<exists>n. c' = c\<lparr>send_seq := n\<rparr>"
proof (induction ms arbitrary: c ctss)
  case Nil
  then show ?case by (auto intro: exI [of _ "send_seq c"])
next
  case (Cons m ms)
  then show ?case using seal_message_frame by (fastforce simp: bindS_eq_Ok)
qed

lemma responds_peer_ok:
  assumes "responds E b out p p'" "peer_ok K p"
  shows "peer_ok K p'"
  using assms adopts_frame seal_messages_frame by (fastforce simp: responds_def peer_ok_def suite_of_def)

lemma handle_signaling_total:
  assumes "undisturbed E" "peer_ok (suite_in E) p" "provides b p ep"
    and "endpoint_signal (env_checks E) (env_tls E) (env_json E) (env_mls E) b bs ep = (Ok out, ep')"
  shows "\<exists>p'. handle_signaling E b bs p = Some (Ok (), p')"
proof -
  from assms(3,4) obtain u resp hs where
    sig: "MlsHandshake_process_signaling_message (env_checks E) (env_tls E) (env_json E) (env_mls E) bs (handshake (state p)) =
      (Ok (u, resp), hs)" and out: "out = reply b (ep_secrets ep) resp"
    by (auto simp: endpoint_signal_def provides_def bindS_eq_Ok split: prod.splits)
  let ?p = "set_handshake hs p"
  have p: "peer_ok (suite_in E) ?p" "keyed (ep_secrets ep) b (codec_of ?p)"
    using assms(2,3) by (simp_all add: peer_ok_def provides_def)
  have "\<exists>p1. (case resp of None \<Rightarrow> Some (Ok (), ?p) | Some bs \<Rightarrow> EncryptionProvider_send E (Signaling bs) ?p) = Some (Ok (), p1) \<and>
    peer_ok (suite_in E) p1"
  proof (cases resp)
    case (Some rb)
    then have "\<exists>msg. SignalingMessage_ser (env_tls E) msg = Ok rb"
      using endpoint_sends_serialised(2) [OF assms(4)] out by (auto simp: reply_def)
    with assms(1) have "is_ok (InnerPlaintext_ser (env_tls E) (Signaling rb))" by (auto simp: undisturbed_def)
    from provider_send_total [OF assms(1) p this] Some p(1) assms(1) send_keeps_peer_ok show ?thesis
      by (fastforce simp: undisturbed_def)
  qed (use p in simp)
  then obtain p1 where p1: "(case resp of None \<Rightarrow> Some (Ok (), ?p) | Some bs \<Rightarrow> EncryptionProvider_send E (Signaling bs) ?p) = Some (Ok (), p1)"
    "peer_ok (suite_in E) p1" by blast
  obtain q where "u = None \<or> (\<exists>x. u = Some x \<and> EncryptionProvider_update_cipher b x p1 = (Ok (), q))"
    using provider_update_cipher_total [OF assms(1) p1(2)] by (cases u) blast+
  with sig p1(1) show ?thesis by (auto simp: handle_signaling_def)
qed

section \<open>Everything under way is delivered\<close>

lemma deliver_work:
  assumes "deliver_system E sys sys'" "sync_rel (env_tls E) (env_mls E) V gid sys a" "in_phase a"
  shows "\<exists>a'. sync_rel (env_tls E) (env_mls E) V gid sys' a' \<and> in_phase a' \<and> work a' < work a"
  using assms
proof (induction rule: sys_deliver.induct)
  case (client_app c s qs k b qc)
  then show ?case using app_simulated(1) in_phase_step by blast
next
  case (server_app c s k b qs qc)
  then show ?case using app_simulated(2) in_phase_step by blast
next
  case (client_signal bs c out c' s qs k qc)
  then show ?case using client_signal_simulated in_phase_step by blast
next
  case (server_signal bs s out s' c k qs qc)
  then show ?case using server_signal_simulated in_phase_step by blast
qed

lemma peer_can_read:
  assumes "trusts E (suite_in E)" "undisturbed E" "flows E (suite_in E) b p q ((k, m) # w)" "peer_ok (suite_in E) q"
    and "provides (\<not> b) q ep" "k = secret_of b (ep_secrets ep)"
    and "\<And>bs. m = Signaling bs \<Longrightarrow> \<exists>out ep'.
      endpoint_signal (env_checks E) (env_tls E) (env_json E) (env_mls E) (\<not> b) bs ep = (Ok out, ep')"
  shows "\<exists>r q'. peer_reads E (\<not> b) q r q'"
proof -
  from read_flows [OF assms(1,3,4,5)] assms(6) obtain q1 where
    q1: "EncryptionProvider_read_message E q = Some (Ok (Some m), q1)" "peer_ok (suite_in E) q1" "provides (\<not> b) q1 ep"
    by auto
  show ?thesis
  proof (cases m)
    case (Application bs)
    with q1(1) show ?thesis by (auto simp: peer_reads_def EncryptionProvider_process_read_message_def)
  next
    case (Signaling bs)
    with assms(7) obtain out ep' where
      "endpoint_signal (env_checks E) (env_tls E) (env_json E) (env_mls E) (\<not> b) bs ep = (Ok out, ep')" by blast
    from handle_signaling_total [OF assms(2) q1(2,3) this] obtain q' where
      "handle_signaling E (\<not> b) bs q1 = Some (Ok (), q')" by blast
    with q1(1) Signaling show ?thesis
      by (intro exI [of _ None] exI [of _ q']) (simp add: peer_reads_def EncryptionProvider_process_read_message_def)
  qed
qed

text \<open>A network with something under way can take a reading step.\<close>

lemma network_can_read:
  assumes "net_rel E (suite_in E) n (System c s up down)" "undisturbed E"
    and "sync_rel (env_tls E) (env_mls E) V gid (System c s up down) a" "in_phase a"
    and "nothing_fails (env_checks E) (env_tls E) (env_mls E) V" "client_db_works (env_json E) c"
    and "up \<noteq> [] \<or> down \<noteq> []"
  shows "\<exists>n' sys. net_step E n n' \<and> deliver_system E (System c s up down) sys \<and> net_rel E (suite_in E) n' sys \<and>
    sent_up n' = sent_up n \<and> sent_down n' = sent_down n"
proof -
  have sync: "in_sync E V gid (System c s up down)" using assms(3,4) by (auto simp: in_sync_def)
  from assms(1) have r: "trusts E (suite_in E)" "provides (\<not> True) (client_end n) c" "peer_ok (suite_in E) (client_end n)"
    "provides (\<not> False) (server_end n) s" "peer_ok (suite_in E) (server_end n)"
    "flows E (suite_in E) False (client_end n) (server_end n) up"
    "flows E (suite_in E) True (server_end n) (client_end n) down" by simp_all
  show ?thesis
  proof (cases down)
    case (Cons km down')
    obtain k m where km: "km = (k, m)" by fastforce
    have accepted: "\<exists>out c'. endpoint_signal (env_checks E) (env_tls E) (env_json E) (env_mls E) (\<not> True) bs c = (Ok out, c')"
      if "m = Signaling bs" for bs
      using client_signal_accepted [OF assms(3) [unfolded Cons km that] assms(4-6)] by auto
    have "\<exists>r p. peer_reads E (\<not> True) (client_end n) r p"
      by (rule peer_can_read [OF r(1) assms(2) r(7) [unfolded Cons km] r(3,2) _ accepted])
        (use in_sync_front(2) [OF sync] Cons km in auto)
    then obtain r p where rd: "peer_reads E False (client_end n) r p" by auto
    from client_reads_refined [OF assms(1) sync rd] net_step.client_reads [OF rd] show ?thesis by fastforce
  next
    case Nil
    with assms(7) obtain k m up' where up: "up = (k, m) # up'" by (cases up) auto
    have "\<exists>r p. peer_reads E (\<not> False) (server_end n) r p"
      by (rule peer_can_read [OF r(1) assms(2) r(6) [unfolded up] r(5,4)])
        (use in_sync_front(1) [OF sync] up server_signal_accepted [OF _ assms(4,5)] assms(3) in auto)
    then obtain r q where rd: "peer_reads E True (server_end n) r q" by auto
    from server_reads_refined [OF assms(1) sync rd] net_step.server_reads [OF rd] show ?thesis by fastforce
  qed
qed

lemma network_drains:
  assumes "established (env_tls E) (env_mls E) V gid e c0 s0" "undisturbed E"
    and "nothing_fails (env_checks E) (env_tls E) (env_mls E) V" "client_db_works (env_json E) c0"
    and "run_system E (System c0 s0 [] []) (System c s up down)" "net_rel E (suite_in E) n (System c s up down)"
    and "sync_rel (env_tls E) (env_mls E) V gid (System c s up down) a" "in_phase a"
  shows "\<exists>n' c' s'. (net_step E)\<^sup>*\<^sup>* n n' \<and> net_rel E (suite_in E) n' (System c' s' [] []) \<and>
    sent_up n' = sent_up n \<and> sent_down n' = sent_down n \<and> in_sync E V gid (System c' s' [] [])"
  using assms(5-8)
proof (induction a arbitrary: n c s up down rule: measure_induct_rule [of work])
  case (less a)
  show ?case
  proof (cases "up \<noteq> [] \<or> down \<noteq> []")
    case True
    note db = established_run_works [OF assms(1,3,4) less.prems(1)]
    from network_can_read [OF less.prems(2) assms(2) less.prems(3,4) assms(3) db True] obtain n1 sys where
      1: "net_step E n n1" "deliver_system E (System c s up down) sys" "net_rel E (suite_in E) n1 sys"
        "sent_up n1 = sent_up n" "sent_down n1 = sent_down n" by blast
    obtain c1 s1 up1 down1 where sys: "sys = System c1 s1 up1 down1" by (cases sys)
    from deliver_work [OF 1(2) less.prems(3,4)] obtain a1 where
      a1: "sync_rel (env_tls E) (env_mls E) V gid sys a1" "in_phase a1" "work a1 < work a" by blast
    have run: "run_system E (System c0 s0 [] []) sys"
      using less.prems(1) sys_deliver_step [OF 1(2)] by (rule rtranclp.rtrancl_into_rtrancl)
    from less.IH [OF a1(3) run [unfolded sys] 1(3) [unfolded sys] a1(1) [unfolded sys] a1(2)] 1(1,4,5) show ?thesis
      by (metis converse_rtranclp_into_rtranclp)
  next
    case False
    with less.prems(2-4) show ?thesis by (auto simp: in_sync_def)
  qed
qed


lemma send_due_update_total:
  assumes "undisturbed E" "peer_ok (suite_in E) p" "provides b p ep"
    and "endpoint_update (env_tls E) (env_json E) (env_mls E) b ep = (Ok out, ep')"
  shows "\<exists>p'. send_due_update E b now p = Some (Ok (), p')"
proof -
  from assms(3,4) obtain u msg hs where
    upd: "MlsHandshake_update_handshake (env_tls E) (env_json E) (env_mls E) (handshake (state p)) = (Ok (u, msg), hs)"
    and out: "out = reply b (ep_secrets ep) (Some msg)"
    by (auto simp: endpoint_update_def provides_def bindS_eq_Ok split: prod.splits)
  let ?p = "set_handshake hs p"
  have p: "peer_ok (suite_in E) ?p" "keyed (ep_secrets ep) b (codec_of ?p)"
    using assms(2,3) by (simp_all add: peer_ok_def provides_def)
  have "\<exists>m. SignalingMessage_ser (env_tls E) m = Ok msg"
    using endpoint_sends_serialised(1) [OF assms(4)] out by (auto simp: reply_def)
  with assms(1) have ser: "is_ok (InnerPlaintext_ser (env_tls E) (Signaling msg))" by (auto simp: undisturbed_def)
  from provider_send_total [OF assms(1) p ser] obtain p1 where
    p1: "EncryptionProvider_send E (Signaling msg) ?p = Some (Ok (), p1)" by blast
  with assms(1) p(1) send_keeps_peer_ok have ok: "peer_ok (suite_in E) p1" by (fastforce simp: undisturbed_def)
  obtain q where "u = None \<or> (\<exists>x. u = Some x \<and> EncryptionProvider_update_cipher b x p1 = (Ok (), q))"
    using provider_update_cipher_total [OF assms(1) ok] by (cases u) blast+
  with upd p1 show ?thesis by (auto simp: send_due_update_def)
qed

lemma send_bytes_total:
  assumes "undisturbed E" "peer_ok (suite_in E) p" "provides b p ep" "trusts E (suite_in E)"
    and "UpdatePolicy_update_is_due (env_chrono E) (update_policy p) now = (Ok True :: (EncryptionProviderError, bool) res)"
    and "endpoint_update (env_tls E) (env_json E) (env_mls E) b ep = (Ok out, ep')"
    and "is_ok (InnerPlaintext_ser (env_tls E) (Application bs))"
  shows "\<exists>p'. EncryptionProvider_send_bytes E b bs now p = Some (Ok (), p')"
proof -
  obtain p1 where p1: "send_due_update E b now p = Some (Ok (), p1)"
    using send_due_update_total [OF assms(1-3,6)] by blast
  from assms(1) obtain S where S: "env_writer E = recording S" by (auto simp: undisturbed_def)
  have buf: "buffer (writer_of p) = []" using assms(2) by (simp add: peer_ok_def)
  from send_due_update_effect [OF S assms(3) buf p1] obtain out1 ep1 where
    e: "provides b p1 ep1" "responds E b out1 p p1" by blast
  then have ok: "peer_ok (suite_in E) p1" "keyed (ep_secrets ep1) b (codec_of p1)"
    using responds_peer_ok [OF e(2) assms(2)] by (simp_all add: provides_def)
  obtain p2 where p2: "EncryptionProvider_send E (Application bs) p1 = Some (Ok (), p2)"
    using provider_send_total [OF assms(1) ok assms(7)] by blast
  have "\<exists>policy. UpdatePolicy_increment_bytes_transferred (env_checks E) (update_policy p2) (of_nat (length bs)) =
      ((Ok () :: (EncryptionProviderError, unit) res), policy)"
    using assms(1) by (auto simp: undisturbed_def update_policy_defs add_u64_def split: option.splits)
  with assms(5) p1 p2 show ?thesis by (auto simp: EncryptionProvider_send_bytes_def)
qed

end
