(* ===== verification/Delivery.thy ===== *)
theory Delivery
  imports Provider_Liveness
begin

text \<open>
  The guarantees an application gets from two connected providers: its bytes arrive in order, and
  completely when nothing outside the program fails.
\<close>

section \<open>Connected providers\<close>

text \<open>Signaling messages fit one record each; the halves of the socket pass records on.\<close>

definition signaling_fits :: "'m tls_codec \<Rightarrow> bool" where
  "signaling_fits T \<longleftrightarrow> (\<forall>msg bs. SignalingMessage_ser T msg = Ok bs \<longrightarrow> one_record T (Signaling bs))"

definition connects :: "('s, 'g, 'm, 'o, TlsPacketIn list, 'i \<times> bytes list) env \<Rightarrow> bool" where
  "connects E \<longleftrightarrow> env_reader E = arrived \<and> (\<exists>S. env_writer E = recording S)"

text \<open>
  Channels with keys from the traffic secrets \<open>ts\<close>, nothing buffered and nothing under way; and the
  channels of both sides, in step.
\<close>

definition channels_ready :: "('s, 'g, 'm, 'o, TlsPacketIn list, 'i \<times> bytes list) env \<Rightarrow> TrafficSecrets \<Rightarrow> bool
    \<Rightarrow> (TlsPacketIn list, 'i \<times> bytes list) ProtectedChannels \<Rightarrow> bool" where
  "channels_ready E ts b ch \<longleftrightarrow> keyed ts b (contents (ch_cipher ch)) \<and> suite_of (contents (ch_cipher ch)) = suite_in E \<and>
     max_frame_size (contents (ch_cipher ch)) = TLS_MAX_RECORD_SIZE \<and> \<not> poisoned (ch_cipher ch) \<and>
     buffer (ch_writer ch) = [] \<and> ch_reader ch = []"

definition channels_open :: "('s, 'g, 'm, 'o, TlsPacketIn list, 'i \<times> bytes list) env \<Rightarrow> TrafficSecrets \<Rightarrow> TrafficSecrets
    \<Rightarrow> (TlsPacketIn list, 'i \<times> bytes list) ProtectedChannels \<Rightarrow> (TlsPacketIn list, 'i \<times> bytes list) ProtectedChannels \<Rightarrow> bool" where
  "channels_open E cts sts cch sch \<longleftrightarrow> channels_ready E cts False cch \<and> channels_ready E sts True sch \<and>
     send_seq (contents (ch_cipher cch)) = recv_seq (contents (ch_cipher sch)) \<and>
     send_seq (contents (ch_cipher sch)) = recv_seq (contents (ch_cipher cch))"

text \<open>
  Two providers whose handshakes left them at the ends \<open>c\<close> and \<open>s\<close>, with open channels, before any
  byte is sent.
\<close>

definition opened :: "('s, 'g, 'm, 'o, TlsPacketIn list, 'i \<times> bytes list) env \<Rightarrow> ('s, 'm) endpoint \<Rightarrow> ('s, 'm) endpoint
    \<Rightarrow> ('s, 'm, 'i) network \<Rightarrow> bool" where
  "opened E c s n \<longleftrightarrow>
     handshake (state (client_end n)) = ep_handshake c \<and> handshake (state (server_end n)) = ep_handshake s \<and>
     channels_open E (ep_secrets c) (ep_secrets s) (prov_channels (client_end n)) (prov_channels (server_end n)) \<and>
     sent_up n = [] \<and> got_up n = [] \<and> sent_down n = [] \<and> got_down n = []"

lemma new_channels:
  assumes "ProtectedChannels_new C b rd w ts = Ok ch"
  shows "keyed ts b (contents (ch_cipher ch))"
    "suite_of (contents (ch_cipher ch)) = (C, KEY_SCHEDULE_HASH_FUNCTION, AEAD_ALGORITHM)"
    "max_frame_size (contents (ch_cipher ch)) = TLS_MAX_RECORD_SIZE" "buffer (ch_writer ch) = []"
    "\<not> poisoned (ch_cipher ch)" "send_seq (contents (ch_cipher ch)) = 0" "recv_seq (contents (ch_cipher ch)) = 0"
    "ch_reader ch = rd"
  using assms TlsAeadCodec_new_Ok [of C b ts]
  by (auto simp: ProtectedChannels_new_def TlsAeadSink_new_def suite_of_def)

lemma new_channels_linked:
  assumes "aead_correct C AEAD_ALGORITHM" "ProtectedChannels_new C False rd w ts = Ok cch"
    and "ProtectedChannels_new C True rd' w' ts = Ok sch"
  shows "linked (contents (ch_cipher cch)) (contents (ch_cipher sch))"
    "linked (contents (ch_cipher sch)) (contents (ch_cipher cch))"
  using assms(1) new_channels [OF assms(2)] new_channels [OF assms(3)]
  by (simp_all add: linked_def suite_of_def keyed_def)

lemma new_channels_ready:
  "ProtectedChannels_new (env_crypto E) b [] w ts = Ok ch \<Longrightarrow> channels_ready E ts b ch"
  using new_channels [of "env_crypto E" b "[]" w ts ch] by (auto simp: channels_ready_def)

lemma opened_net_rel:
  assumes "tls_laws (env_tls E)" "connects E" "aead_correct (env_crypto E) AEAD_ALGORITHM" "signaling_fits (env_tls E)"
    and "opened E c s n"
  shows "net_rel E (suite_in E) n (System c s [] [])"
proof -
  have "trusts E (suite_in E)"
    using assms(1-4) by (simp add: trusts_def connects_def signaling_fits_def)
  with assms(5) show ?thesis
    by (simp add: opened_def channels_open_def channels_ready_def provides_def peer_ok_def flows_def)
qed

lemma network_reaches:
  assumes "established (env_tls E) (env_mls E) V gid e c s" "connects E"
    and "aead_correct (env_crypto E) AEAD_ALGORITHM" "signaling_fits (env_tls E)" "opened E c s n"
    and "(net_step E)\<^sup>*\<^sup>* n n'"
  shows "\<exists>c' s' up down. run_system E (System c s [] []) (System c' s' up down) \<and>
    net_rel E (suite_in E) n' (System c' s' up down) \<and> in_sync E V gid (System c' s' up down)"
proof -
  have laws: "tls_laws (env_tls E)" using assms(1) by (simp add: established_def)
  obtain a where "sync_rel (env_tls E) (env_mls E) V gid (System c s [] []) a" "in_phase a"
    using established_reaches [OF assms(1) rtranclp.rtrancl_refl] by blast
  then have "in_sync E V gid (System c s [] [])" unfolding in_sync_def by blast
  with net_refinement.runs_refine [OF assms(6) opened_net_rel [OF laws assms(2-5)]] obtain sys where
    "(run_system E)\<^sup>*\<^sup>* (System c s [] []) sys" "net_rel E (suite_in E) n' sys" "in_sync E V gid sys" by blast
  then show ?thesis by (cases sys) auto
qed

lemma transit_empty: "flows E K b p q w \<Longrightarrow> ch_reader (prov_channels q) = [] \<longleftrightarrow> w = []"
  by (cases w; cases "ch_reader (prov_channels q)") (auto simp: flows_def)

lemma front_is_read:
  assumes "trusts E K" "flows E K b p q w" "peer_ok K q" "provides (\<not> b) q ep"
    and "w \<noteq> [] \<Longrightarrow> fst (hd w) = secret_of b (ep_secrets ep)" "ch_reader (prov_channels q) \<noteq> []"
  shows "\<exists>m q'. EncryptionProvider_read_message E q = Some (Ok (Some m), q')"
proof -
  have "w \<noteq> []" using transit_empty [OF assms(2)] assms(6) by simp
  then obtain km w' where "w = km # w'" by (cases w) auto
  with read_flows [of E K b p q km w' ep] assms show ?thesis by auto
qed

section \<open>What two connected providers guarantee\<close>

text \<open>
  Application bytes arrive completely and in order.  Two providers that completed the handshake
  exchange bytes with \<^verbatim>\<open>send_bytes\<close> and read them, in any interleaving, with key updates whenever
  their policies ask for one, also on both sides at once.  In every situation they reach, what each
  side has received is a prefix of what the other has sent, and all of it when nothing is under
  way; and a record that has arrived always decrypts and deserialises.
\<close>
lemma network_delivers_in_order:
  assumes "established (env_tls E) (env_mls E) V gid e c s" "connects E"
    and "aead_correct (env_crypto E) AEAD_ALGORITHM" "signaling_fits (env_tls E)" "opened E c s n"
    and "(net_step E)\<^sup>*\<^sup>* n n'"
  shows "(\<exists>rest. sent_up n' = got_up n' @ rest \<and> (ch_reader (prov_channels (server_end n')) = [] \<longrightarrow> rest = [])) \<and>
    (\<exists>rest. sent_down n' = got_down n' @ rest \<and> (ch_reader (prov_channels (client_end n')) = [] \<longrightarrow> rest = [])) \<and>
    (ch_reader (prov_channels (server_end n')) \<noteq> [] \<longrightarrow>
       (\<exists>m q. EncryptionProvider_read_message E (server_end n') = Some (Ok (Some m), q))) \<and>
    (ch_reader (prov_channels (client_end n')) \<noteq> [] \<longrightarrow>
       (\<exists>m q. EncryptionProvider_read_message E (client_end n') = Some (Ok (Some m), q)))"
proof -
  obtain c' s' up down where
    rel: "net_rel E (suite_in E) n' (System c' s' up down)" and sync: "in_sync E V gid (System c' s' up down)"
    using network_reaches [OF assms] by blast
  from rel have r: "trusts E (suite_in E)" "provides (\<not> True) (client_end n') c'" "peer_ok (suite_in E) (client_end n')"
    "provides (\<not> False) (server_end n') s'" "peer_ok (suite_in E) (server_end n')"
    "flows E (suite_in E) False (client_end n') (server_end n') up"
    "flows E (suite_in E) True (server_end n') (client_end n') down"
    "sent_up n' = got_up n' @ payloads up" "sent_down n' = got_down n' @ payloads down" by simp_all
  show ?thesis
    using r(8,9) transit_empty [OF r(6)] transit_empty [OF r(7)]
      front_is_read [OF r(1,6,5,4) in_sync_front(1) [OF sync]]
      front_is_read [OF r(1,7,3,2) in_sync_front(2) [OF sync]]
    by auto
qed

text \<open>
  When nothing outside the program fails, then from every situation two
  connected providers reach, reading on both sides comes to an end with every byte string that was
  sent received, nothing under way, and both sides in the same MLS epoch.
\<close>
lemma network_delivers_all:
  assumes "established (env_tls E) (env_mls E) V gid e c s" "connects E" "undisturbed E"
    and "aead_correct (env_crypto E) AEAD_ALGORITHM" "signaling_fits (env_tls E)"
    and "nothing_fails (env_checks E) (env_tls E) (env_mls E) V" "client_db_works (env_json E) c"
    and "opened E c s n" "(net_step E)\<^sup>*\<^sup>* n n'"
  shows "\<exists>n''. (net_step E)\<^sup>*\<^sup>* n' n'' \<and> got_up n'' = sent_up n' \<and> got_down n'' = sent_down n' \<and>
    sent_up n'' = sent_up n' \<and> sent_down n'' = sent_down n' \<and>
    ch_reader (prov_channels (client_end n'')) = [] \<and> ch_reader (prov_channels (server_end n'')) = [] \<and>
    EncryptionProvider_epoch (client_end n'') = EncryptionProvider_epoch (server_end n'')"
proof -
  obtain c' s' up down where run: "run_system E (System c s [] []) (System c' s' up down)" and
    rel: "net_rel E (suite_in E) n' (System c' s' up down)" and sync: "in_sync E V gid (System c' s' up down)"
    using network_reaches [OF assms(1,2,4,5,8,9)] by blast
  from sync obtain a where "sync_rel (env_tls E) (env_mls E) V gid (System c' s' up down) a" "in_phase a"
    by (auto simp: in_sync_def)
  from network_drains [OF assms(1,3,6,7) run rel this] obtain n'' c'' s'' where
    n'': "(net_step E)\<^sup>*\<^sup>* n' n''" "net_rel E (suite_in E) n'' (System c'' s'' [] [])"
      "sent_up n'' = sent_up n'" "sent_down n'' = sent_down n'"
      "in_sync E V gid (System c'' s'' [] [])" by blast
  from n''(5) obtain a' where "sync_rel (env_tls E) (env_mls E) V gid (System c'' s'' [] []) a'" "in_phase a'"
    by (auto simp: in_sync_def)
  from quiescent_established [OF this] obtain e'' where est: "established (env_tls E) (env_mls E) V gid e'' c'' s''" by blast
  from n''(2) have "EncryptionProvider_epoch (client_end n'') = EncryptionProvider_epoch (server_end n'')"
    using established_agree(2,3) [OF est] by (simp add: EncryptionProvider_epoch_def provides_def)
  with n'' show ?thesis by (intro exI [of _ n'']) (auto simp: flows_def)
qed

text \<open>
  The providers refine the key-update protocol: every situation two connected providers reach, down
  to the records in their readers, corresponds to a state that the abstract protocol of
  \<open>Key_Sync_Spec\<close> reaches from its idle start, with the same epochs, the same party waiting and the
  same messages under way.
\<close>
lemma network_refines_protocol:
  assumes "established (env_tls E) (env_mls E) V gid e c s" "connects E"
    and "aead_correct (env_crypto E) AEAD_ALGORITHM" "signaling_fits (env_tls E)" "opened E c s n"
    and "(net_step E)\<^sup>*\<^sup>* n n'"
  shows "\<exists>sys a. net_rel E (suite_in E) n' sys \<and> sync_rel (env_tls E) (env_mls E) V gid sys a \<and>
    spec_step\<^sup>*\<^sup>* (Config False e e e None [] []) a"
proof -
  obtain c' s' up down where run: "run_system E (System c s [] []) (System c' s' up down)" and
    rel: "net_rel E (suite_in E) n' (System c' s' up down)"
    using network_reaches [OF assms] by blast
  have "sync_rel (env_tls E) (env_mls E) V gid (System c s [] []) (Config False e e e None [] [])"
    using assms(1) by (simp add: established_def)
  moreover have "in_phase (Config False e e e None [] [])" by (rule in_phase.idle) simp_all
  ultimately show ?thesis using key_sync.runs_refine [OF run] rel by blast
qed

section \<open>A network over the symbolic MLS and crypto provider\<close>

definition sym_env :: "(sym_storage, sym_group, sym_message, sym_message, TlsPacketIn list, unit \<times> bytes list) env" where
  "sym_env = \<lparr>env_checks = False, env_crypto = sym_crypto, env_tls = sym_tls, env_json = sym_json, env_mls = sym_mls,
     env_reader = arrived, env_writer = recording ready_sink, env_chrono = (\<lambda>t d. Some (t + int d))\<rparr>"

definition sym_peer :: "bool \<Rightarrow> (sym_storage, sym_message) endpoint \<Rightarrow> (sym_storage, sym_message, unit) peer" where
  "sym_peer b ep =
     \<lparr>state = \<lparr>handshake = ep_handshake ep,
               channels = the_ok (ProtectedChannels_new sym_crypto b [] ((), []) (ep_secrets ep))\<rparr>,
      address = '''',
      update_policy = \<lparr>time_based = None, traffic_based = Some \<lparr>update_threshold = 4, bytes_transferred = 4\<rparr>\<rparr>\<rparr>"

definition sym_network :: "(sym_storage, sym_message, unit) network" where
  "sym_network = \<lparr>client_end = sym_peer False sym_client, server_end = sym_peer True sym_server,
     sent_up = [], got_up = [], sent_down = [], got_down = []\<rparr>"

lemma sym_crypto_total: "crypto_total sym_crypto h alg"
  by (simp add: crypto_total_def sym_expand_def sym_aead_encrypt_def)

lemma sym_signaling_bytes:
  assumes "SignalingMessage_ser sym_tls msg = Ok bs"
  shows "length bs \<le> 16"
proof -
  have "length (sym_message_bytes m) = 13" for m by (cases m) simp
  with assms show ?thesis
    by (cases msg) (auto simp: SignalingMessage_ser_def sym_tls_def std_codec_def fixed_field_def
        ConnectionUpdate_ser_def EpochKeyUpdate_ser_def KeyUpdate_ser_def Boolean_ser_def)
qed

lemma sym_wraps:
  "length (InnerPlaintext_content m) \<le> 16 \<Longrightarrow> is_ok (InnerPlaintext_ser sym_tls m) \<and> one_record sym_tls m"
  by (auto simp: one_record_def InnerPlaintext_ser_def sym_tls_def std_codec_def fixed_field_def vec_field_def
      vec_ser_def ser_seq_def)

lemma sym_channels_made: "\<exists>ch. ProtectedChannels_new sym_crypto b rd w ts = Ok ch"
  using sym_crypto_new [of b ts] by (auto simp: ProtectedChannels_new_def)

lemma sym_env_sel [simp]:
  "env_checks sym_env = False" "env_crypto sym_env = sym_crypto" "env_tls sym_env = sym_tls"
  "env_json sym_env = sym_json" "env_mls sym_env = sym_mls" "env_reader sym_env = arrived"
  "env_writer sym_env = recording ready_sink"
  by (simp_all add: sym_env_def)

lemma sym_env_works:
  "connects sym_env" "undisturbed sym_env" "signaling_fits sym_tls"
proof -
  show "connects sym_env" by (auto simp: connects_def)
  show fits: "signaling_fits sym_tls"
    unfolding signaling_fits_def using sym_wraps sym_signaling_bytes by simp
  have "always_ready ready_sink" by (simp add: always_ready_def ready_sink_def)
  with sym_wraps sym_signaling_bytes show "undisturbed sym_env"
    by (auto simp: undisturbed_def sym_crypto_total)
qed

lemma sym_new_channels:
  "ProtectedChannels_new sym_crypto False [] ((), []) sym_epoch_secrets = Ok (prov_channels (client_end sym_network))"
  "ProtectedChannels_new sym_crypto True [] ((), []) sym_epoch_secrets = Ok (prov_channels (server_end sym_network))"
proof -
  have "ProtectedChannels_new sym_crypto b [] ((), []) ts =
      Ok (the_ok (ProtectedChannels_new sym_crypto b ([] :: TlsPacketIn list) ((), [] :: bytes list) ts))" for b ts
    using sym_channels_made [of b "[] :: TlsPacketIn list" "((), [] :: bytes list)" ts] by auto
  then show
    "ProtectedChannels_new sym_crypto False [] ((), []) sym_epoch_secrets = Ok (prov_channels (client_end sym_network))"
    "ProtectedChannels_new sym_crypto True [] ((), []) sym_epoch_secrets = Ok (prov_channels (server_end sym_network))"
    by (simp_all add: sym_network_def sym_peer_def sym_client_def sym_server_def)
qed

lemma sym_opened: "opened sym_env sym_client sym_server sym_network"
  using new_channels_ready [of sym_env, simplified, OF sym_new_channels(1)]
    new_channels_ready [of sym_env, simplified, OF sym_new_channels(2)]
    new_channels(6,7) [OF sym_new_channels(1)] new_channels(6,7) [OF sym_new_channels(2)]
  by (simp add: opened_def channels_open_def)
    (simp add: sym_network_def sym_peer_def sym_client_def sym_server_def)

lemma sym_network_rel: "net_rel sym_env (suite_in sym_env) sym_network (System sym_client sym_server [] [])"
  by (rule opened_net_rel) (use sym_env_works sym_opened sym_tls_laws in simp_all)

lemma sym_client_provides:
  "provides False (client_end sym_network) sym_client" "buffer (writer_of (client_end sym_network)) = []"
  using sym_network_rel by (simp_all add: peer_ok_def)

text \<open>The client's policy asks for an update when it sends its first bytes.\<close>

lemma sym_update_due:
  "UpdatePolicy_update_is_due (env_chrono sym_env) (update_policy (client_end sym_network)) 0 = Ok True"
  by (simp add: sym_network_def sym_peer_def update_policy_defs)

lemma sym_client_send:
  "\<exists>p. EncryptionProvider_send_bytes sym_env False [1, 2, 3] 0 (client_end sym_network) = Some (Ok (), p)"
proof -
  obtain out c' where u: "endpoint_update sym_tls sym_json sym_mls False sym_client = (Ok out, c')"
    using sym_updates(1) by (auto simp: is_ok_iff) (metis prod.collapse)
  show ?thesis
    by (rule send_bytes_total [OF sym_env_works(2) _ sym_client_provides(1) _ sym_update_due])
      (use sym_network_rel u sym_wraps in simp_all)
qed

end
