(* ===== verification/Establishment.thy ===== *)
theory Establishment
  imports Key_Sync
begin

text \<open>
  The first handshake, across \<^verbatim>\<open>ClientHandshake::start\<close>, \<^verbatim>\<open>ServerHandshake::start\<close> and
  \<^verbatim>\<open>WaitingForServerHello::receive_server_hello\<close>: what both sides hold when it has completed, and whom
  the client accepts.
\<close>

section \<open>The server's session\<close>

lemma create_server_session_meaning:
  assumes "mls_laws M V" "mls_joins M V"
    and "create_server_session M conn k kp_in = (Ok (session, ts, ident, wel), conn')"
  shows "\<exists>gid e kp. session = \<lparr>group_id = gid, epoch = view_epoch V e\<rparr> \<and> exported V e = Ok ts \<and>
    member_at M V conn' gid server_leaf e None \<and> view_welcome V wel = Some (gid, e, signer_public k) \<and>
    mls_key_package_validate M kp_in = Ok kp \<and>
    (\<exists>identity. BasicCredential_try_from (mls_key_package_credential M kp) = Some identity \<and> ident = ClientIdentity identity)"
proof -
  let ?cwk = "\<lparr>credential = Basic (ascii ''server''), signature_key = signer_public k\<rparr>"
  from assms(3) obtain kp identity gid s0 g1 s1 g2 s2 g3 s3 where
    kp: "mls_key_package_validate M kp_in = Ok kp"
      "BasicCredential_try_from (mls_key_package_credential M kp) = Some identity" "ident = ClientIdentity identity" and
    1: "mls_group_build M gid capabilities CIPHERSUITE k ?cwk s0 = (Ok g1, s1)" and
    2: "mls_add_members M g1 k [kp] s1 = (Ok (wel, g2), s2)" and
    3: "mls_merge_pending_commit M g2 s2 = (Ok g3, s3)" "mls_storage conn' = s3" and
    r: "export_traffic_secrets M g3 = Ok ts" "session = \<lparr>group_id = mls_group_id M g3, epoch = mls_epoch M g3\<rparr>"
    by (auto simp: create_server_session_def bindS_eq_Ok with_provider_Ok_iff Let_def
        split: option.splits prod.splits)
  from mls_join_steps(1) [OF assms(2) 1] obtain e0 where g1: "group_at M V s1 g1 gid 0 e0 None" by blast
  from mls_join_steps(2) [OF assms(2) g1 2] obtain e where
    wel: "view_welcome V wel = Some (gid, e, signer_public k)" and g2: "group_at M V s2 g2 gid 0 e0 (Some e)" by blast
  note g3 = mls_commit_steps(2) [OF assms(1) g2 3(1)]
  from r export_traffic_secrets_exported [OF assms(1) g3] mls_reads_simps(2,3) [OF assms(1) g3] wel kp g3 3(2)
  show ?thesis by (auto simp: member_at_def)
qed

section \<open>The client's session\<close>

lemma receive_server_hello_meaning:
  assumes "tls_laws T" "mls_laws M V" "mls_joins M V"
    and "view_welcome V wel = Some (gid, e, key)" "ServerHello_ser T \<lparr>hello_welcome = wel\<rparr> = Ok answer"
    and "receive_server_hello T M wait conn answer = (Ok (st, ts), conn')"
  shows "key = server_verifying_key wait \<and> exported V e = Ok ts \<and>
    member_at M V conn' gid client_leaf e None \<and>
    st = \<lparr>profile_id = hello_profile_id wait, client_session = \<lparr>group_id = gid, epoch = view_epoch V e\<rparr>,
          client_internal = ClientRunning\<rparr>"
proof -
  have "tls_deserialize_exact (ServerHello_de T) answer = Ok \<lparr>hello_welcome = wel\<rparr>"
    by (rule server_hello.exact_roundtrip [OF assms(1,5)])
  with assms(6) obtain wo staged s1 sender g s2 where
    wo: "mls_extract M wel = BodyWelcome wo" "mls_stage_welcome M wo (mls_storage conn) = (Ok staged, s1)"
      "mls_welcome_sender_key M staged = Ok sender" "sender = server_verifying_key wait" and
    g: "mls_into_group M staged s1 = (Ok g, s2)" "mls_storage conn' = s2" and
    r: "export_traffic_secrets M g = Ok ts"
      "st = \<lparr>profile_id = hello_profile_id wait, client_session = MlsSession_new (mls_group_id M g) (mls_epoch M g),
             client_internal = ClientRunning\<rparr>"
    by (auto simp: receive_server_hello_def bindS_eq_Ok with_provider_Ok_iff Let_def
        split: MlsMessageBodyIn.splits if_splits)
  from mls_join_steps(3) [OF assms(3,4) wo(1,2)] wo(3,4)
  have st: "view_staged_welcome V staged = Some (gid, e, key)" and key: "key = server_verifying_key wait" by auto
  note ga = mls_join_steps(4) [OF assms(3) st g(1)]
  from r key export_traffic_secrets_exported [OF assms(2) ga] mls_reads_simps(2,3) [OF assms(2) ga] ga g(2)
  show ?thesis by (auto simp: member_at_def MlsSession_new_def)
qed

lemma client_hello_meaning:
  assumes "tls_laws T" "mls_key_packages M"
    and "ClientHandshake_start T M conn k vk client_id = (Ok (wait, hello), conn')"
  shows "wait = \<lparr>hello_profile_id = client_id, server_verifying_key = vk\<rparr> \<and>
    (\<exists>kp. tls_deserialize_exact (MlsTlsHandshake_de T) hello =
         Ok \<lparr>version = ProtocolVersion_default, payload = ClientHelloPayload \<lparr>key_package = kp\<rparr>\<rparr> \<and>
       (\<forall>ko valid. mls_extract M kp = BodyKeyPackage ko \<longrightarrow> mls_key_package_validate M ko = Ok valid \<longrightarrow>
          mls_key_package_credential M valid = Basic client_id))"
proof -
  from assms(3) obtain kp s where
    1: "mls_key_package_build M CIPHERSUITE capabilities k
          \<lparr>credential = Basic client_id, signature_key = signer_public k\<rparr> (mls_storage conn) = (Ok kp, s)" and
    2: "MlsTlsHandshake_ser T (MlsTlsHandshake_from (ClientHelloPayload \<lparr>key_package = kp\<rparr>)) = Ok hello" and
    3: "wait = \<lparr>hello_profile_id = client_id, server_verifying_key = vk\<rparr>"
    by (auto simp: ClientHandshake_start_def Let_def bindS_eq_Ok with_provider_Ok_iff handshake_bytes_def)
  from mls_tls_handshake.exact_roundtrip [OF assms(1) 2] 3 show ?thesis
    using assms(2) 1 unfolding mls_key_packages_def MlsTlsHandshake_from_def
    by (metis (no_types, lifting) CredentialWithKey.select_convs(1))
qed

lemma server_start_meaning:
  assumes "tls_deserialize_exact (MlsTlsHandshake_de T) hello =
         Ok \<lparr>version = ProtocolVersion_default, payload = ClientHelloPayload \<lparr>key_package = kp\<rparr>\<rparr>"
    and "ServerHandshake_start oc T M conn k hello = (Ok (st, ts, ident, answer), conn')"
  shows "\<exists>ko wel. mls_extract M kp = BodyKeyPackage ko \<and>
    create_server_session M conn k ko = (Ok (server_session st, ts, ident, wel), conn') \<and>
    ServerHello_ser T \<lparr>hello_welcome = wel\<rparr> = Ok answer \<and> server_internal st = ServerRunning"
  using assms
  by (auto simp: ServerHandshake_start_def process_client_hello_def check_version_def bindS_eq_Ok
      split: MlsMessageBodyIn.splits)

section \<open>The session\<close>

text \<open>
  When the client's start, the server's start on the
  client's message and the client's reception of the server's answer all succeed, both sides have
  derived the same traffic secrets and hold the same group in the same epoch with nobody waiting;
  the server has learnt the client's id, and the server's key is the one the client expected.
\<close>

lemma handshake_establishes:
  assumes "tls_laws T" "mls_laws M V" "mls_joins M V" "mls_key_packages M"
    and "ClientHandshake_start T M cconn ck vk client_id = (Ok (wait, hello), cconn1)"
    and "ServerHandshake_start oc T M sconn sk hello = (Ok (sst, sts, ident, answer), sconn1)"
    and "receive_server_hello T M wait cconn2 answer = (Ok (cst, cts), cconn3)"
  shows "cts = sts \<and> ident = ClientIdentity client_id \<and> vk = signer_public sk \<and> profile_id cst = client_id \<and>
    (\<exists>gid e. established T M V gid e
       \<lparr>ep_handshake = \<lparr>leaf_signer = ck, connection = cconn3, hs_state = ClientSide cst\<rparr>, ep_secrets = cts\<rparr>
       \<lparr>ep_handshake = \<lparr>leaf_signer = sk, connection = sconn1, hs_state = ServerSide sst\<rparr>, ep_secrets = sts\<rparr>)"
proof -
  from client_hello_meaning [OF assms(1,4,5)] obtain kp where
    wait: "wait = \<lparr>hello_profile_id = client_id, server_verifying_key = vk\<rparr>" and
    hello: "tls_deserialize_exact (MlsTlsHandshake_de T) hello =
       Ok \<lparr>version = ProtocolVersion_default, payload = ClientHelloPayload \<lparr>key_package = kp\<rparr>\<rparr>" and
    cred: "\<And>ko valid. mls_extract M kp = BodyKeyPackage ko \<Longrightarrow> mls_key_package_validate M ko = Ok valid \<Longrightarrow>
          mls_key_package_credential M valid = Basic client_id"
    by blast
  from server_start_meaning [OF hello assms(6)] obtain ko wel where
    ko: "mls_extract M kp = BodyKeyPackage ko" and
    create: "create_server_session M sconn sk ko = (Ok (server_session sst, sts, ident, wel), sconn1)" and
    answer: "ServerHello_ser T \<lparr>hello_welcome = wel\<rparr> = Ok answer" and run: "server_internal sst = ServerRunning"
    by blast
  from create_server_session_meaning [OF assms(2,3) create] obtain gid e valid where
    s: "server_session sst = \<lparr>group_id = gid, epoch = view_epoch V e\<rparr>" "exported V e = Ok sts"
      "member_at M V sconn1 gid server_leaf e None" "view_welcome V wel = Some (gid, e, signer_public sk)"
      "mls_key_package_validate M ko = Ok valid"
      "\<exists>identity. BasicCredential_try_from (mls_key_package_credential M valid) = Some identity \<and> ident = ClientIdentity identity"
    by blast
  note c = receive_server_hello_meaning [OF assms(1,2,3) s(4) answer assms(7)]
  have "ident = ClientIdentity client_id" using cred [OF ko s(5)] s(6) by simp
  moreover have "established T M V gid e
       \<lparr>ep_handshake = \<lparr>leaf_signer = ck, connection = cconn3, hs_state = ClientSide cst\<rparr>, ep_secrets = cts\<rparr>
       \<lparr>ep_handshake = \<lparr>leaf_signer = sk, connection = sconn1, hs_state = ServerSide sst\<rparr>, ep_secrets = sts\<rparr>"
    using assms(1,2) s run c by (simp add: established_def client_rel_def server_rel_def)
  ultimately show ?thesis using c wait s(2) by (intro conjI exI) simp_all
qed

definition sym_fresh :: "sym_storage Connection" where
  "sym_fresh = \<lparr>mls_storage = ([], 5), handshake_states = Some [], faults = []\<rparr>"

section \<open>Properties\<close>

text \<open>
  C10. The client joins no group of an impostor: when the welcome was not signed with the key the
  client expects, the handshake fails with \<^verbatim>\<open>UnexpectedVerifyingKey\<close>, whatever else the message
  holds, and the client's group storage is as staging the welcome left it; the group is not entered.
\<close>
theorem impostor_is_rejected:
  assumes "tls_deserialize_exact (ServerHello_de T) answer = Ok \<lparr>hello_welcome = wel\<rparr>"
    and "mls_extract M wel = BodyWelcome wo" "mls_stage_welcome M wo (mls_storage conn) = (Ok staged, s')"
    and "mls_welcome_sender_key M staged = Ok sender" "sender \<noteq> server_verifying_key wait"
  shows "receive_server_hello T M wait conn answer =
    (Err (HandshakeVerificationError UnexpectedVerifyingKey), conn\<lparr>mls_storage := s'\<rparr>)"
  using assms by (simp add: receive_server_hello_def)

theorem impostor_is_rejected_witness:
  "receive_server_hello sym_tls sym_mls \<lparr>hello_profile_id = [7], server_verifying_key = [99]\<rparr> sym_fresh
     [1, 5, 42, 11, 0, 0, 0, 0, 0, 0, 0, 0, 1] =
   (Err (HandshakeVerificationError UnexpectedVerifyingKey), sym_fresh)"
proof -
  let ?wel = "SymMessage 1 5 42 1 11 0"
  have 1: "tls_deserialize_exact (ServerHello_de sym_tls) [1, 5, 42, 11, 0, 0, 0, 0, 0, 0, 0, 0, 1]
      = Ok \<lparr>hello_welcome = ?wel\<rparr>"
    by code_simp
  have 2: "mls_extract sym_mls ?wel = BodyWelcome ?wel"
    "mls_stage_welcome sym_mls ?wel (mls_storage sym_fresh) = (Ok ?wel, mls_storage sym_fresh)"
    "mls_welcome_sender_key sym_mls ?wel = Ok [42]"
    by (simp_all add: sym_mls_def)
  from impostor_is_rejected [OF 1 2, of "\<lparr>hello_profile_id = [7], server_verifying_key = [99]\<rparr>"]
  show ?thesis by (simp add: sym_fresh_def)
qed

end
