(* ===== verification/Connecting.thy ===== *)
theory Connecting
  imports Delivery Establishment
begin

text \<open>
  From the socket to two connected providers: the handshake messages over the unprotected transport and
  over the one protected by a pre-handshake, the interface both handshake states implement (the trait
  \<^verbatim>\<open>PreHandshakeState\<close> of \<^verbatim>\<open>src/encryption_provider/mod.rs\<close>), and what \<^verbatim>\<open>EncryptionProvider::handshake\<close> of
  both roles leaves behind.
\<close>

fun_cases arrived_ready: "arrived rd = (Ready x, rd')"
fun_cases arrived_pending: "arrived rd = (Pending, rd')"

section \<open>The unprotected transport\<close>

lemma recording_keeps_log:
  assumes "await_poll g w = Some (x, w')" "\<And>w. snd (snd (g w)) = snd w"
  shows "snd w' = snd w"
proof -
  have "\<exists>s. snd s = snd w \<and> g s = (Ready x, w')"
    by (rule await_poll_until [OF assms(1)]) (use assms(2) in \<open>metis snd_conv\<close>)+
  then show ?thesis using assms(2) by (metis snd_conv)
qed

lemma unprotected_says:
  assumes "connects E" "tx_send (unprotected_transport E) bs (rd, w) = Some (Ok (), (rd', w'))"
  shows "rd' = rd \<and> snd w' = snd w @ [bs]"
proof -
  from assms(1) obtain S where S: "env_writer E = recording S" by (auto simp: connects_def)
  from assms(2) obtain w1 w2 where
    1: "await_poll (sink_poll_ready (recording S)) w = Some (Ok (), w1)" and
    2: "sink_start_send (recording S) w1 bs = (Ok (), w2)" and
    3: "await_poll (sink_poll_flush (recording S)) w2 = Some (Ok (), w')" and rd: "rd' = rd"
    by (auto simp: unprotected_transport_def sink_send_def bindA_eq_Ok S)
  have keep: "snd (snd (sink_poll_ready (recording S) w)) = snd w" "snd (snd (sink_poll_flush (recording S) w)) = snd w" for w
    by (cases w; simp)+
  have "snd w2 = snd w1 @ [bs]" using 2 by (cases w1) auto
  with recording_keeps_log [OF 1 keep(1)] recording_keeps_log [OF 3 keep(2)] rd show ?thesis by simp
qed

lemma unprotected_hears:
  assumes "connects E" "rx_next (unprotected_transport E) (rd, w) = Some (Some (Ok pkt), (rd', w'))"
  shows "rd = pkt # rd' \<and> w' = w"
proof -
  from assms obtain r where "await_poll arrived rd = Some (Some r, rd')" "map_err TransportIo r = Ok pkt" "w' = w"
    by (auto simp: unprotected_transport_def connects_def)
  moreover from this(1) have "\<exists>s. s = rd \<and> arrived s = (Ready (Some r), rd')"
    by (rule await_poll_until) (auto elim: arrived_pending)
  ultimately show ?thesis by (auto elim: arrived_ready)
qed

section \<open>The transport protected by the pre-handshake\<close>

lemma await_sink_poll:
  assumes "await_poll g k = Some (Ok (), k')"
    and "\<And>k q k'. g k = (q, k') \<Longrightarrow> accounted (delivered k @ buffer k) q k'"
  shows "delivered k' = delivered k @ buffer k \<and> buffer k' = []"
proof -
  have "\<exists>s. delivered s @ buffer s = delivered k @ buffer k \<and> g s = (Ready (Ok ()), k')"
    by (rule await_poll_until [OF assms(1)]) (use accounted_ok [OF assms(2)] in auto)
  then show ?thesis using assms(2) by (fastforce simp: accounted_def)
qed

lemma await_writer_poll:
  assumes "await_poll (at_writer g) ch = Some (Ok (), ch')"
    and "\<And>k q k'. g k = (q, k') \<Longrightarrow> accounted (delivered k @ buffer k) q k'"
  shows "delivered (ch_writer ch') = delivered (ch_writer ch) @ buffer (ch_writer ch) \<and> buffer (ch_writer ch') = [] \<and>
    ch_cipher ch' = ch_cipher ch \<and> ch_reader ch' = ch_reader ch"
proof -
  obtain k where "await_poll g (ch_writer ch) = Some (Ok (), k)" "ch' = ch\<lparr>ch_writer := k\<rparr>"
    using await_poll_at [OF assms(1)] by auto
  with await_sink_poll [OF this(1) assms(2)] show ?thesis by simp
qed

lemma protected_says:
  assumes "connects E" "tx_send (protected_transport E) bs ch = Some (Ok (), ch')"
  shows "\<exists>cts c. encrypt_message (env_checks E) (contents (ch_cipher ch)) bs = (Ok cts, c) \<and>
    ch_cipher ch' = \<lparr>contents = c, poisoned = False\<rparr> \<and> ch_reader ch' = ch_reader ch \<and>
    delivered (ch_writer ch') = delivered (ch_writer ch) @ buffer (ch_writer ch) @ cts \<and> buffer (ch_writer ch') = []"
proof -
  from assms(1) obtain S where S: "env_writer E = recording S" by (auto simp: connects_def)
  from assms(2) obtain ch1 ch2 where
    1: "await_poll (at_writer (TlsAeadSink_poll_ready (recording S))) ch = Some (Ok (), ch1)" and
    2: "channels_start_send E ch1 bs = (Ok (), ch2)" and
    3: "await_poll (at_writer (TlsAeadSink_poll_flush (recording S))) ch2 = Some (Ok (), ch')"
    by (auto simp: protected_transport_def sink_send_def bindA_eq_Ok S)
  from 2 obtain m w where
    start: "TlsAeadSink_start_send (env_checks E) (ch_cipher ch1, ch_writer ch1) bs = (Ok (), (m, w))" and
    ch2: "ch2 = ch1\<lparr>ch_cipher := m, ch_writer := w\<rparr>"
    by (auto simp: channels_start_send_def split: prod.splits)
  from start_send_Ok [OF start] obtain cts where
    enc: "encrypt_message (env_checks E) (contents (ch_cipher ch1)) bs = (Ok cts, contents m)"
      "w = (ch_writer ch1)\<lparr>buffer := buffer (ch_writer ch1) @ cts\<rparr>" by blast
  have m: "m = \<lparr>contents = contents m, poisoned = False\<rparr>"
    using start by (auto simp: TlsAeadSink_start_send_def with_lock_def split: if_splits prod.splits)
  from await_writer_poll [OF 1 poll_ready_accounted(1)] await_writer_poll [OF 3 poll_ready_accounted(2)] enc m ch2
  show ?thesis by (intro exI [of _ cts] exI [of _ "contents m"]) simp
qed

text \<open>Each message of the handshake fits one record.\<close>

definition fits_record :: "bytes \<Rightarrow> bool" where
  "fits_record bs \<longleftrightarrow> bs \<noteq> [] \<and> length bs \<le> unat TLS_MAX_RECORD_SIZE"

lemma encrypt_one_record:
  assumes "encrypt_message oc c bs = (Ok cts, c')" "fits_record bs" "max_frame_size c = TLS_MAX_RECORD_SIZE"
  shows "\<exists>ct. cts = [ct] \<and> seal_record oc c bs = (Ok ct, c') \<and> c' = c\<lparr>send_seq := send_seq c + 1\<rparr>"
proof -
  from assms have s: "seal_all (seal_record oc) c (chunks 32768 bs) = (Ok cts, c')"
    by (auto simp: encrypt_message_Ok_iff)
  moreover have "chunks 32768 bs = [bs]" using assms(2) by (auto simp: fits_record_def intro: chunks_short)
  ultimately show ?thesis using seal_all_frame [OF s] by (auto simp: bindS_eq_Ok)
qed

lemma tunnel_hears:
  assumes "connects E" "linked c (contents (ch_cipher ch))" "seal_record (env_checks E) c bs = (Ok ct, c')"
    and "ch_reader ch = packet ct # pkts" "\<not> poisoned (ch_cipher ch)"
  shows "rx_next (protected_transport E) ch = Some (Some (Ok ((packet ct)\<lparr>data := bs\<rparr>)),
    ch\<lparr>ch_cipher := \<lparr>contents = (contents (ch_cipher ch))\<lparr>recv_seq := recv_seq (contents (ch_cipher ch)) + 1\<rparr>,
      poisoned = False\<rparr>, ch_reader := pkts\<rparr>)"
proof -
  from record_channel.open_seal [OF assms(2,3)] obtain r where
    r: "open_record (env_checks E) (contents (ch_cipher ch)) ct = (Ok bs, r)" by blast
  then have "r = (contents (ch_cipher ch))\<lparr>recv_seq := recv_seq (contents (ch_cipher ch)) + 1\<rparr>"
    by (auto simp: open_record_def TlsAeadCodec_decrypt_def bindS_eq_Ok dest!: add_u64_Ok_D split: if_splits)
  with r assms(1,4,5) show ?thesis
    by (simp add: protected_transport_def channels_poll_next_def TlsAeadStream_poll_next_def with_lock_def open_record_def connects_def)
qed

lemma protected_hears:
  assumes "connects E" "linked c (contents (ch_cipher ch))" "seal_record (env_checks E) c bs = (Ok ct, c')"
    and "ch_reader ch = packet ct # pkts" "\<not> poisoned (ch_cipher ch)"
    and "rx_next (protected_transport E) ch = Some (Some (Ok pkt), ch')"
  shows "data pkt = bs \<and> ch' = ch\<lparr>ch_cipher := \<lparr>contents = (contents (ch_cipher ch))\<lparr>recv_seq := recv_seq (contents (ch_cipher ch)) + 1\<rparr>,
      poisoned = False\<rparr>, ch_reader := pkts\<rparr>"
  using tunnel_hears [OF assms(1-5)] assms(6) by auto

section \<open>The completed handshake\<close>

text \<open>
  The exchange behind two completed handshake objects: the client's message, the server's answer to it
  and the client's reception of the answer.
\<close>

definition exchanged :: "('s, 'g, 'm, 'o, 'r, 'w) env \<Rightarrow> Uuid \<Rightarrow> SignaturePublicKey \<Rightarrow> 's Connection \<Rightarrow> SignatureKeyPair
    \<Rightarrow> 's Connection \<Rightarrow> SignatureKeyPair \<Rightarrow> bytes \<Rightarrow> bytes
    \<Rightarrow> ('s, 'm) MlsHandshake \<Rightarrow> TrafficSecrets \<Rightarrow> ('s, 'm) MlsHandshake \<Rightarrow> TrafficSecrets \<Rightarrow> ClientIdentity \<Rightarrow> bool" where
  "exchanged E client_id vk cconn ck sconn sk hello answer chs cts shs sts ident \<longleftrightarrow>
     (\<exists>conn conn0 wait conn1 cst conn2 conn3 sst sconn1.
        ClientHandshakeState_create_table cconn = (Ok (), conn) \<and>
        ClientHandshakeState_delete (env_json E) (env_mls E) conn client_id = (Ok (), conn0) \<and>
        ClientHandshake_start (env_tls E) (env_mls E) conn0 ck vk client_id = (Ok (wait, hello), conn1) \<and>
        ServerHandshake_start (env_checks E) (env_tls E) (env_mls E) sconn sk hello = (Ok (sst, sts, ident, answer), sconn1) \<and>
        receive_server_hello (env_tls E) (env_mls E) wait conn1 answer = (Ok (cst, cts), conn2) \<and>
        ClientHandshakeState_store (env_json E) cst conn2 = (Ok (), conn3) \<and>
        chs = \<lparr>leaf_signer = ck, connection = conn3, hs_state = ClientSide cst\<rparr> \<and>
        shs = \<lparr>leaf_signer = sk, connection = sconn1, hs_state = ServerSide sst\<rparr>)"

definition handshakes_complete :: "('s, 'g, 'm, 'o, 'r, 'w) env \<Rightarrow> Uuid \<Rightarrow> SignaturePublicKey \<Rightarrow> 's Connection \<Rightarrow> SignatureKeyPair
    \<Rightarrow> 's Connection \<Rightarrow> SignatureKeyPair \<Rightarrow> ('s, 'm) MlsHandshake \<Rightarrow> TrafficSecrets \<Rightarrow> ('s, 'm) MlsHandshake \<Rightarrow> TrafficSecrets \<Rightarrow> ClientIdentity \<Rightarrow> bool" where
  "handshakes_complete E client_id vk cconn ck sconn sk chs cts shs sts ident \<longleftrightarrow>
     (\<exists>hello answer. exchanged E client_id vk cconn ck sconn sk hello answer chs cts shs sts ident)"

lemmas handshakes_complete_defs = handshakes_complete_def exchanged_def

lemma store_storage:
  "ClientHandshakeState_store J st conn = (r, conn') \<Longrightarrow> mls_storage conn' = mls_storage conn"
  by (auto simp: ClientHandshakeState_store_def with_table_def err_as_def bindS_def
      split: prod.splits option.splits res.splits if_splits dest!: next_fault_storage)

lemma established_connection:
  assumes "established T M V gid e \<lparr>ep_handshake = hs, ep_secrets = ts\<rparr> s" "mls_storage conn = mls_storage (connection hs)"
  shows "established T M V gid e \<lparr>ep_handshake = hs\<lparr>connection := conn\<rparr>, ep_secrets = ts\<rparr> s"
  using assms by (auto simp: established_def client_rel_def dest: member_at_storage)

lemma handshakes_complete_established:
  assumes "tls_laws (env_tls E)" "mls_laws (env_mls E) V" "mls_joins (env_mls E) V" "mls_key_packages (env_mls E)"
    and "handshakes_complete E client_id vk cconn ck sconn sk chs cts shs sts ident"
  shows "ident = ClientIdentity client_id \<and> vk = signer_public sk \<and>
    (\<exists>gid e. established (env_tls E) (env_mls E) V gid e
       \<lparr>ep_handshake = chs, ep_secrets = cts\<rparr> \<lparr>ep_handshake = shs, ep_secrets = sts\<rparr>)"
proof -
  from assms(5) obtain conn0 wait hello conn1 cst conn2 conn3 sst answer sconn1 where
    c: "ClientHandshake_start (env_tls E) (env_mls E) conn0 ck vk client_id = (Ok (wait, hello), conn1)"
      "ServerHandshake_start (env_checks E) (env_tls E) (env_mls E) sconn sk hello = (Ok (sst, sts, ident, answer), sconn1)"
      "receive_server_hello (env_tls E) (env_mls E) wait conn1 answer = (Ok (cst, cts), conn2)" and
    st: "ClientHandshakeState_store (env_json E) cst conn2 = (Ok (), conn3)" and
    hs: "chs = \<lparr>leaf_signer = ck, connection = conn3, hs_state = ClientSide cst\<rparr>"
      "shs = \<lparr>leaf_signer = sk, connection = sconn1, hs_state = ServerSide sst\<rparr>"
    unfolding handshakes_complete_defs by blast
  from handshake_establishes [OF assms(1-4) c] obtain gid e where
    est: "established (env_tls E) (env_mls E) V gid e
       \<lparr>ep_handshake = \<lparr>leaf_signer = ck, connection = conn2, hs_state = ClientSide cst\<rparr>, ep_secrets = cts\<rparr>
       \<lparr>ep_handshake = shs, ep_secrets = sts\<rparr>" and
    id: "ident = ClientIdentity client_id" "vk = signer_public sk" using hs by auto
  from established_connection [OF est, of conn3] store_storage [OF st] hs(1) id show ?thesis by auto
qed

section \<open>The interface of the handshake states\<close>

text \<open>
  The trait \<^verbatim>\<open>PreHandshakeState\<close>: a state from which either role runs the MLS handshake and gets its
  channels.  \<open>sockets c s up down\<close> says that the states \<open>c\<close> and \<open>s\<close> hold the two ends of a connection
  on which \<open>up\<close> and \<open>down\<close> are what arrives at the server and at the client.  What the trait promises:
  when both roles complete, having written just what the other side reads, then the handshakes
  belong together and the channels are open.
\<close>

locale pre_handshake_state =
  fixes E :: "('s, 'g, 'm, 'o, TlsPacketIn list, 'i \<times> bytes list) env"
    and client_run :: "Uuid \<Rightarrow> SignaturePublicKey \<Rightarrow> 'st \<Rightarrow> ('s, 'm) MlsHandshake
      \<Rightarrow> ('s, 'm, (TlsPacketIn list, 'i \<times> bytes list) ProtectedChannels) handshake_run"
    and server_run :: "'st \<Rightarrow> ('s, 'm) MlsHandshake
      \<Rightarrow> ('s, 'm, (TlsPacketIn list, 'i \<times> bytes list) ProtectedChannels \<times> ClientIdentity) handshake_run"
    and sockets :: "'st \<Rightarrow> 'st \<Rightarrow> bytes list \<Rightarrow> bytes list \<Rightarrow> bool"
  assumes completes: "sockets cst sst up down \<Longrightarrow>
      client_run client_id vk cst (MlsHandshake_new cconn ck) = Some (Ok cch, chs) \<Longrightarrow>
      server_run sst (MlsHandshake_new sconn sk) = Some (Ok (sch, ident), shs) \<Longrightarrow>
      delivered (ch_writer cch) = up \<Longrightarrow> delivered (ch_writer sch) = down \<Longrightarrow>
      \<exists>cts sts. handshakes_complete E client_id vk cconn ck sconn sk chs cts shs sts ident \<and> channels_open E cts sts cch sch"
begin

text \<open>\<^verbatim>\<open>EncryptionProvider::handshake\<close> of both roles, from any such state.\<close>

lemma provider_handshake_opens:
  assumes "EncryptionProvider_client_handshake (client_run client_id vk) pc cconn ck = Some (Ok c, cconn')"
    and "EncryptionProvider_server_handshake server_run ps sconn sk = Some (Ok (s, ident), sconn')"
    and "sockets (state pc) (state ps) (delivered (writer_of c)) (delivered (writer_of s))"
  shows "\<exists>cts sts. handshakes_complete E client_id vk cconn ck sconn sk (handshake (state c)) cts (handshake (state s)) sts ident \<and>
    opened E \<lparr>ep_handshake = handshake (state c), ep_secrets = cts\<rparr> \<lparr>ep_handshake = handshake (state s), ep_secrets = sts\<rparr>
      \<lparr>client_end = c, server_end = s, sent_up = [], got_up = [], sent_down = [], got_down = []\<rparr>"
proof -
  from assms(1) obtain cch chs where
    1: "client_run client_id vk (state pc) (MlsHandshake_new cconn ck) = Some (Ok cch, chs)"
      "state c = \<lparr>handshake = chs, channels = cch\<rparr>"
    by (auto simp: EncryptionProvider_client_handshake_def)
  from assms(2) obtain sch shs where
    2: "server_run (state ps) (MlsHandshake_new sconn sk) = Some (Ok (sch, ident), shs)"
      "state s = \<lparr>handshake = shs, channels = sch\<rparr>"
    by (auto simp: EncryptionProvider_server_handshake_def)
  from completes [OF assms(3) 1(1) 2(1)] 1(2) 2(2) show ?thesis by (simp add: opened_def)
qed

end

section \<open>From an unprotected connection\<close>

definition plain_sockets :: "('s, 'g, 'm, 'o, TlsPacketIn list, 'i \<times> bytes list) env
    \<Rightarrow> TlsPacketIn list \<times> 'i \<times> bytes list \<Rightarrow> TlsPacketIn list \<times> 'i \<times> bytes list \<Rightarrow> bytes list \<Rightarrow> bytes list \<Rightarrow> bool" where
  "plain_sockets E c s up down \<longleftrightarrow> connects E \<and>
     fst c = map (\<lambda>d. packet d) down \<and> snd (snd c) = [] \<and> fst s = map (\<lambda>d. packet d) up \<and> snd (snd s) = []"

lemma unprotected_client_run:
  assumes "connects E"
    and "UnprotectedHandshakeState_client_handshake E client_id vk (rd, w) (MlsHandshake_new conn ck) = Some (Ok ch, hs)"
  obtains conn' conn0 wait hello conn1 pkt cst ts conn2 conn3 rd' w' where
    "ClientHandshakeState_create_table conn = (Ok (), conn')"
    "ClientHandshakeState_delete (env_json E) (env_mls E) conn' client_id = (Ok (), conn0)"
    "ClientHandshake_start (env_tls E) (env_mls E) conn0 ck vk client_id = (Ok (wait, hello), conn1)"
    "receive_server_hello (env_tls E) (env_mls E) wait conn1 (data pkt) = (Ok (cst, ts), conn2)"
    "ClientHandshakeState_store (env_json E) cst conn2 = (Ok (), conn3)"
    "hs = \<lparr>leaf_signer = ck, connection = conn3, hs_state = ClientSide cst\<rparr>"
    "rd = pkt # rd'" "snd w' = snd w @ [hello]" "ProtectedChannels_new (env_crypto E) False rd' w' ts = Ok ch"
proof -
  from assms(2) obtain ts rd2 w2 where
    r: "MlsHandshake_client_handshake (env_tls E) (env_json E) (env_mls E) (unprotected_transport E) client_id vk
       (MlsHandshake_new conn ck, (rd, w)) = Some (Ok ts, (hs, (rd2, w2)))" and
    ch: "ProtectedChannels_new (env_crypto E) False rd2 w2 ts = Ok ch"
    by (auto simp: UnprotectedHandshakeState_client_handshake_def)
  from r show thesis
  proof (rule client_handshake_talks)
    fix conn' conn0 wait hello conn1 t1 pkt cst conn2 conn3
    assume t: "tx_send (unprotected_transport E) hello (rd, w) = Some (Ok (), t1)"
        "rx_next (unprotected_transport E) t1 = Some (Some (Ok pkt), (rd2, w2))"
      and c: "ClientHandshakeState_create_table conn = (Ok (), conn')"
        "ClientHandshakeState_delete (env_json E) (env_mls E) conn' client_id = (Ok (), conn0)"
        "ClientHandshake_start (env_tls E) (env_mls E) conn0 ck vk client_id = (Ok (wait, hello), conn1)"
        "receive_server_hello (env_tls E) (env_mls E) wait conn1 (data pkt) = (Ok (cst, ts), conn2)"
        "ClientHandshakeState_store (env_json E) cst conn2 = (Ok (), conn3)"
        "hs = \<lparr>leaf_signer = ck, connection = conn3, hs_state = ClientSide cst\<rparr>"
    obtain rd1 w1 where t1: "t1 = (rd1, w1)" by (cases t1)
    note says = unprotected_says [OF assms(1) t(1) [unfolded t1]]
    note hears = unprotected_hears [OF assms(1) t(2) [unfolded t1]]
    show thesis by (rule that [OF c]) (use says hears ch in auto)
  qed
qed

lemma unprotected_server_run:
  assumes "connects E"
    and "UnprotectedHandshakeState_server_handshake E (rd, w) (MlsHandshake_new conn sk) = Some (Ok (ch, ident), hs)"
  obtains pkt sst ts answer conn1 rd' w' where
    "ServerHandshake_start (env_checks E) (env_tls E) (env_mls E) conn sk (data pkt) = (Ok (sst, ts, ident, answer), conn1)"
    "hs = \<lparr>leaf_signer = sk, connection = conn1, hs_state = ServerSide sst\<rparr>"
    "rd = pkt # rd'" "snd w' = snd w @ [answer]" "ProtectedChannels_new (env_crypto E) True rd' w' ts = Ok ch"
proof -
  from assms(2) obtain ts rd2 w2 where
    r: "MlsHandshake_server_handshake (env_checks E) (env_tls E) (env_mls E) (unprotected_transport E)
       (MlsHandshake_new conn sk, (rd, w)) = Some (Ok (ts, ident), (hs, (rd2, w2)))" and
    ch: "ProtectedChannels_new (env_crypto E) True rd2 w2 ts = Ok ch"
    by (auto simp: UnprotectedHandshakeState_server_handshake_def)
  from r show thesis
  proof (rule server_handshake_talks)
    fix pkt t1 sst answer conn1
    assume t: "rx_next (unprotected_transport E) (rd, w) = Some (Some (Ok pkt), t1)"
        "tx_send (unprotected_transport E) answer t1 = Some (Ok (), (rd2, w2))"
      and c: "ServerHandshake_start (env_checks E) (env_tls E) (env_mls E) conn sk (data pkt) = (Ok (sst, ts, ident, answer), conn1)"
        "hs = \<lparr>leaf_signer = sk, connection = conn1, hs_state = ServerSide sst\<rparr>"
    obtain rd1 w1 where t1: "t1 = (rd1, w1)" by (cases t1)
    note hears = unprotected_hears [OF assms(1) t(1) [unfolded t1]]
    note says = unprotected_says [OF assms(1) t(2) [unfolded t1]]
    show thesis by (rule that [OF c]) (use says hears ch in auto)
  qed
qed

lemma delivered_new: "ProtectedChannels_new C b rd w ts = Ok ch \<Longrightarrow> delivered (ch_writer ch) = snd w"
  by (auto simp: ProtectedChannels_new_def TlsAeadSink_new_def)

interpretation unprotected: pre_handshake_state E "UnprotectedHandshakeState_client_handshake E"
  "UnprotectedHandshakeState_server_handshake E" "plain_sockets E" for E
proof unfold_locales
  fix cst sst :: "TlsPacketIn list \<times> 'e \<times> bytes list" and up down client_id vk cconn ck cch chs sconn sk sch ident shs
  assume sock: "plain_sockets E cst sst up down"
    and client: "UnprotectedHandshakeState_client_handshake E client_id vk cst (MlsHandshake_new cconn ck) = Some (Ok cch, chs)"
    and server: "UnprotectedHandshakeState_server_handshake E sst (MlsHandshake_new sconn sk) = Some (Ok (sch, ident), shs)"
    and w: "delivered (ch_writer cch) = up" "delivered (ch_writer sch) = down"
  obtain wc ws where st: "connects E" "cst = (map (\<lambda>d. packet d) down, wc)" "snd wc = []"
    "sst = (map (\<lambda>d. packet d) up, ws)" "snd ws = []"
    using sock by (cases cst; cases sst) (auto simp: plain_sockets_def)
  from st(1) client [unfolded st(2)] obtain conn conn0 wait hello conn1 pkt cs cts conn2 conn3 rd w' where
    d: "ClientHandshakeState_create_table cconn = (Ok (), conn)"
      "ClientHandshakeState_delete (env_json E) (env_mls E) conn client_id = (Ok (), conn0)" and
    c: "ClientHandshake_start (env_tls E) (env_mls E) conn0 ck vk client_id = (Ok (wait, hello), conn1)"
      "receive_server_hello (env_tls E) (env_mls E) wait conn1 (data pkt) = (Ok (cs, cts), conn2)"
      "ClientHandshakeState_store (env_json E) cs conn2 = (Ok (), conn3)"
      "chs = \<lparr>leaf_signer = ck, connection = conn3, hs_state = ClientSide cs\<rparr>"
      "map (\<lambda>d. packet d) down = pkt # rd" "snd w' = snd wc @ [hello]"
      "ProtectedChannels_new (env_crypto E) False rd w' cts = Ok cch"
    by (rule unprotected_client_run)
  from st(1) server [unfolded st(4)] obtain spkt ss sts answer sconn1 rd2 w2 where
    s: "ServerHandshake_start (env_checks E) (env_tls E) (env_mls E) sconn sk (data spkt) = (Ok (ss, sts, ident, answer), sconn1)"
      "shs = \<lparr>leaf_signer = sk, connection = sconn1, hs_state = ServerSide ss\<rparr>"
      "map (\<lambda>d. packet d) up = spkt # rd2" "snd w2 = snd ws @ [answer]"
      "ProtectedChannels_new (env_crypto E) True rd2 w2 sts = Ok sch"
    by (rule unprotected_server_run)
  have "up = [hello]" "down = [answer]" using w delivered_new [OF c(7)] delivered_new [OF s(5)] c(6) s(4) st by auto
  with c(5) s(3) have x: "data pkt = answer" "data spkt = hello" "rd = []" "rd2 = []" by auto
  have "handshakes_complete E client_id vk cconn ck sconn sk chs cts shs sts ident"
    unfolding handshakes_complete_defs using d c s x by blast
  moreover have "channels_open E cts sts cch sch"
    using new_channels_ready [OF c(7) [unfolded x]] new_channels_ready [OF s(5) [unfolded x]]
      new_channels(6,7) [OF c(7)] new_channels(6,7) [OF s(5)] by (simp add: channels_open_def)
  ultimately show "\<exists>cts sts. handshakes_complete E client_id vk cconn ck sconn sk chs cts shs sts ident \<and> channels_open E cts sts cch sch"
    by blast
qed

section \<open>From a connection protected by a pre-handshake\<close>

definition handshakes_fit :: "'m tls_codec \<Rightarrow> bool" where
  "handshakes_fit T \<longleftrightarrow> (\<forall>h bs. MlsTlsHandshake_ser T h = Ok bs \<longrightarrow> fits_record bs) \<and>
     (\<forall>h bs. ServerHello_ser T h = Ok bs \<longrightarrow> fits_record bs) \<and> (\<forall>msg bs. SignalingMessage_ser T msg = Ok bs \<longrightarrow> fits_record bs)"

lemma client_hello_fits:
  "handshakes_fit T \<Longrightarrow> ClientHandshake_start T M conn k vk client_id = (Ok (wait, hello), conn') \<Longrightarrow> fits_record hello"
  by (auto simp: handshakes_fit_def ClientHandshake_start_def Let_def bindS_eq_Ok handshake_bytes_def)

lemma server_answer_fits:
  assumes "handshakes_fit T" "ServerHandshake_start oc T M conn k hello = (Ok (st, ts, ident, answer), conn')"
  shows "fits_record answer"
proof -
  obtain h where h: "tls_deserialize_exact (MlsTlsHandshake_de T) hello = Ok h"
    using assms(2) by (auto simp: ServerHandshake_start_def bindS_eq_Ok)
  have "(\<exists>h. ServerHello_ser T h = Ok answer) \<or> (\<exists>msg. SignalingMessage_ser T msg = Ok answer)"
  proof (cases "payload h")
    case (ClientHelloPayload ch)
    with assms(2) h show ?thesis
      by (cases "mls_extract M (key_package ch)") (auto simp: ServerHandshake_start_def process_client_hello_def bindS_eq_Ok)
  next
    case (ResumptionPayload r)
    with assms(2) h show ?thesis
      by (auto simp: ServerHandshake_start_def process_resumption_def bindS_eq_Ok Let_def
          create_connection_confirmation_def signaling_bytes_def)
  qed
  with assms(1) show ?thesis by (auto simp: handshakes_fit_def)
qed

definition tunnel_sockets :: "('s, 'g, 'm, 'o, TlsPacketIn list, 'i \<times> bytes list) env
    \<Rightarrow> (TlsPacketIn list, 'i \<times> bytes list) ProtectedHandshakeState
    \<Rightarrow> (TlsPacketIn list, 'i \<times> bytes list) ProtectedHandshakeState \<Rightarrow> bytes list \<Rightarrow> bytes list \<Rightarrow> bool" where
  "tunnel_sockets E c s up down \<longleftrightarrow> connects E \<and> aead_correct (env_crypto E) AEAD_ALGORITHM \<and> handshakes_fit (env_tls E) \<and>
     (\<exists>ts wc ws. snd wc = [] \<and> snd ws = [] \<and>
        ProtectedChannels_new (env_crypto E) False (map (\<lambda>d. packet d) down) wc ts = Ok (ph_channels c) \<and>
        ProtectedChannels_new (env_crypto E) True (map (\<lambda>d. packet d) up) ws ts = Ok (ph_channels s))"

text \<open>The runs of both roles as far as each can be seen alone: what was sealed, and what was read.\<close>

lemma update_after_Ok:
  "(case ProtectedChannels_update_cipher b ts ch of (r, ch) \<Rightarrow> res_bind (map_err conv r) (\<lambda>_. Ok (f ch))) = Ok x \<longleftrightarrow>
   (\<exists>ch'. ProtectedChannels_update_cipher b ts ch = (Ok (), ch') \<and> x = f ch')"
  by (cases "ProtectedChannels_update_cipher b ts ch") auto

lemma protected_client_run:
  assumes "connects E" "handshakes_fit (env_tls E)" "max_frame_size (contents (ch_cipher ch)) = TLS_MAX_RECORD_SIZE"
    and "buffer (ch_writer ch) = []"
    and "ProtectedHandshakeState_client_handshake E client_id vk ch (MlsHandshake_new conn ck) = Some (Ok ch', hs)"
  obtains conn' conn0 wait hello conn1 pkt cst ts conn2 conn3 ct c ch1 ch2 c' where
    "ClientHandshakeState_create_table conn = (Ok (), conn')"
    "ClientHandshakeState_delete (env_json E) (env_mls E) conn' client_id = (Ok (), conn0)"
    "ClientHandshake_start (env_tls E) (env_mls E) conn0 ck vk client_id = (Ok (wait, hello), conn1)"
    "receive_server_hello (env_tls E) (env_mls E) wait conn1 (data pkt) = (Ok (cst, ts), conn2)"
    "ClientHandshakeState_store (env_json E) cst conn2 = (Ok (), conn3)"
    "hs = \<lparr>leaf_signer = ck, connection = conn3, hs_state = ClientSide cst\<rparr>"
    "seal_record (env_checks E) (contents (ch_cipher ch)) hello = (Ok ct, c)"
    "c = (contents (ch_cipher ch))\<lparr>send_seq := send_seq (contents (ch_cipher ch)) + 1\<rparr>"
    "ch_cipher ch1 = \<lparr>contents = c, poisoned = False\<rparr>" "ch_reader ch1 = ch_reader ch"
    "delivered (ch_writer ch1) = delivered (ch_writer ch) @ [ct]" "buffer (ch_writer ch1) = []"
    "rx_next (protected_transport E) ch1 = Some (Some (Ok pkt), ch2)"
    "TlsAeadCodec_update_traffic_secrets (contents (ch_cipher ch2)) (Both ts) False = (Ok (), c')"
    "ch' = ch2\<lparr>ch_cipher := \<lparr>contents = c', poisoned = False\<rparr>\<rparr>"
proof -
  from assms(5) obtain ts ch2 where
    r: "MlsHandshake_client_handshake (env_tls E) (env_json E) (env_mls E) (protected_transport E) client_id vk
       (MlsHandshake_new conn ck, ch) = Some (Ok ts, (hs, ch2))" and
    u: "ProtectedChannels_update_cipher False ts ch2 = (Ok (), ch')"
    by (auto simp: ProtectedHandshakeState_client_handshake_def update_after_Ok)
  from channels_update_secrets_effect u obtain c' where
    c': "TlsAeadCodec_update_traffic_secrets (contents (ch_cipher ch2)) (Both ts) False = (Ok (), c')"
      "ch' = ch2\<lparr>ch_cipher := \<lparr>contents = c', poisoned = False\<rparr>\<rparr>"
    unfolding ProtectedChannels_update_cipher_def by blast
  from r show thesis
  proof (rule client_handshake_talks)
    fix conn' conn0 wait hello conn1 ch1 pkt cst conn2 conn3
    assume t: "tx_send (protected_transport E) hello ch = Some (Ok (), ch1)"
        "rx_next (protected_transport E) ch1 = Some (Some (Ok pkt), ch2)"
      and c: "ClientHandshakeState_create_table conn = (Ok (), conn')"
        "ClientHandshakeState_delete (env_json E) (env_mls E) conn' client_id = (Ok (), conn0)"
        "ClientHandshake_start (env_tls E) (env_mls E) conn0 ck vk client_id = (Ok (wait, hello), conn1)"
        "receive_server_hello (env_tls E) (env_mls E) wait conn1 (data pkt) = (Ok (cst, ts), conn2)"
        "ClientHandshakeState_store (env_json E) cst conn2 = (Ok (), conn3)"
        "hs = \<lparr>leaf_signer = ck, connection = conn3, hs_state = ClientSide cst\<rparr>"
    from protected_says [OF assms(1) t(1)] obtain cts c1 where
      e: "encrypt_message (env_checks E) (contents (ch_cipher ch)) hello = (Ok cts, c1)"
        "ch_cipher ch1 = \<lparr>contents = c1, poisoned = False\<rparr>" "ch_reader ch1 = ch_reader ch"
        "delivered (ch_writer ch1) = delivered (ch_writer ch) @ cts" "buffer (ch_writer ch1) = []"
      using assms(4) by auto
    from encrypt_one_record [OF e(1) client_hello_fits [OF assms(2) c(3)] assms(3)] e
    show thesis by (auto intro!: that [OF c _ _ _ _ _ _ t(2) c'])
  qed
qed

lemma protected_server_run:
  assumes "connects E" "handshakes_fit (env_tls E)"
    and "ProtectedHandshakeState_server_handshake E ch (MlsHandshake_new conn sk) = Some (Ok (ch', ident), hs)"
  obtains pkt sst ts answer conn1 ch1 cts c ch2 c' where
    "rx_next (protected_transport E) ch = Some (Some (Ok pkt), ch1)"
    "ServerHandshake_start (env_checks E) (env_tls E) (env_mls E) conn sk (data pkt) = (Ok (sst, ts, ident, answer), conn1)"
    "hs = \<lparr>leaf_signer = sk, connection = conn1, hs_state = ServerSide sst\<rparr>" "fits_record answer"
    "encrypt_message (env_checks E) (contents (ch_cipher ch1)) answer = (Ok cts, c)"
    "ch_cipher ch2 = \<lparr>contents = c, poisoned = False\<rparr>" "ch_reader ch2 = ch_reader ch1"
    "delivered (ch_writer ch2) = delivered (ch_writer ch1) @ buffer (ch_writer ch1) @ cts" "buffer (ch_writer ch2) = []"
    "TlsAeadCodec_update_traffic_secrets c (Both ts) True = (Ok (), c')"
    "ch' = ch2\<lparr>ch_cipher := \<lparr>contents = c', poisoned = False\<rparr>\<rparr>"
proof -
  from assms(3) obtain ts ch2 where
    r: "MlsHandshake_server_handshake (env_checks E) (env_tls E) (env_mls E) (protected_transport E)
       (MlsHandshake_new conn sk, ch) = Some (Ok (ts, ident), (hs, ch2))" and
    u: "ProtectedChannels_update_cipher True ts ch2 = (Ok (), ch')"
    by (auto simp: ProtectedHandshakeState_server_handshake_def update_after_Ok)
  from channels_update_secrets_effect u obtain c' where
    c': "TlsAeadCodec_update_traffic_secrets (contents (ch_cipher ch2)) (Both ts) True = (Ok (), c')"
      "ch' = ch2\<lparr>ch_cipher := \<lparr>contents = c', poisoned = False\<rparr>\<rparr>"
    unfolding ProtectedChannels_update_cipher_def by blast
  from r show thesis
  proof (rule server_handshake_talks)
    fix pkt ch1 sst answer conn1
    assume t: "rx_next (protected_transport E) ch = Some (Some (Ok pkt), ch1)"
        "tx_send (protected_transport E) answer ch1 = Some (Ok (), ch2)"
      and s: "ServerHandshake_start (env_checks E) (env_tls E) (env_mls E) conn sk (data pkt) = (Ok (sst, ts, ident, answer), conn1)"
        "hs = \<lparr>leaf_signer = sk, connection = conn1, hs_state = ServerSide sst\<rparr>"
    from protected_says [OF assms(1) t(2)] obtain cts c where
      "encrypt_message (env_checks E) (contents (ch_cipher ch1)) answer = (Ok cts, c)"
        "ch_cipher ch2 = \<lparr>contents = c, poisoned = False\<rparr>" "ch_reader ch2 = ch_reader ch1"
        "delivered (ch_writer ch2) = delivered (ch_writer ch1) @ buffer (ch_writer ch1) @ cts" "buffer (ch_writer ch2) = []"
      by blast
    with c' show thesis by (intro that [OF t(1) s server_answer_fits [OF assms(2) s(1)]]) auto
  qed
qed

text \<open>The records of the two messages are read back by the peer, with the sequence numbers in step.\<close>

lemma linked_seq:
  "linked c r \<Longrightarrow> linked (c\<lparr>recv_seq := n\<rparr>) (r\<lparr>send_seq := k\<rparr>)"
  by (simp add: linked_def)

lemma update_both_ready:
  assumes "TlsAeadCodec_update_traffic_secrets (contents (ch_cipher ch)) (Both ts) b = (Ok (), c)"
    and "keyed ts0 b (contents (ch_cipher ch))" "suite_of (contents (ch_cipher ch)) = suite_in E"
    and "max_frame_size (contents (ch_cipher ch)) = TLS_MAX_RECORD_SIZE" "buffer (ch_writer ch) = []" "ch_reader ch = []"
  shows "channels_ready E ts b (ch\<lparr>ch_cipher := \<lparr>contents = c, poisoned = False\<rparr>\<rparr>)"
  using update_traffic_secrets_keyed [OF assms(2,1)] update_traffic_secrets_frame [OF assms(1)] assms(3-6)
  by (simp add: channels_ready_def suite_of_def keyed_def)

lemma protected_hears_writer:
  assumes "rx_next (protected_transport E) ch = Some (item, ch')"
  shows "ch_writer ch' = ch_writer ch"
proof -
  have poll: "ch_writer (snd (channels_poll_next E ch)) = ch_writer ch" for ch
    by (simp add: channels_poll_next_def case_prod_unfold)
  from assms obtain x where "await_poll (channels_poll_next E) ch = Some (x, ch')"
    by (auto simp: protected_transport_def)
  then have "\<exists>s. ch_writer s = ch_writer ch \<and> channels_poll_next E s = (Ready x, ch')"
    by (rule await_poll_until) (use poll in \<open>metis snd_conv\<close>)+
  then show ?thesis using poll by (metis snd_conv)
qed

text \<open>
  The exchange over linked channels: \<open>cch\<close> and \<open>sch\<close> are the channels at first, \<open>ch1\<close> those of the client
  when it has spoken, \<open>sh1\<close> those of the server when it has heard.
\<close>

lemma tunnel_exchange:
  assumes "connects E"
    and "linked (contents (ch_cipher cch)) (contents (ch_cipher sch))" "linked (contents (ch_cipher sch)) (contents (ch_cipher cch))"
    and "max_frame_size (contents (ch_cipher sch)) = TLS_MAX_RECORD_SIZE" "buffer (ch_writer sch) = []"
    and "delivered (ch_writer cch) = []" "delivered (ch_writer sch) = []" "\<not> poisoned (ch_cipher sch)"
    and "seal_record (env_checks E) (contents (ch_cipher cch)) hello = (Ok ct, c)"
    and "c = (contents (ch_cipher cch))\<lparr>send_seq := send_seq (contents (ch_cipher cch)) + 1\<rparr>"
    and "ch_cipher ch1 = \<lparr>contents = c, poisoned = False\<rparr>" "ch_reader ch1 = ch_reader cch"
    and "delivered (ch_writer ch1) = delivered (ch_writer cch) @ [ct]"
    and "rx_next (protected_transport E) ch1 = Some (Some (Ok pkt), ch2)"
    and "rx_next (protected_transport E) sch = Some (Some (Ok spkt), sh1)" "fits_record answer"
    and "encrypt_message (env_checks E) (contents (ch_cipher sh1)) answer = (Ok cts, s)"
    and "delivered (ch_writer sh2) = delivered (ch_writer sh1) @ buffer (ch_writer sh1) @ cts"
    and "ch_reader cch = map (\<lambda>d. packet d) (delivered (ch_writer sh2))"
    and "ch_reader sch = map (\<lambda>d. packet d) (delivered (ch_writer ch2))"
  shows "data spkt = hello \<and> data pkt = answer \<and> ch_reader ch2 = [] \<and> ch_reader sh1 = [] \<and> ch_writer ch2 = ch_writer ch1 \<and>
    contents (ch_cipher ch2) = c\<lparr>recv_seq := recv_seq c + 1\<rparr> \<and>
    s = (contents (ch_cipher sch))\<lparr>send_seq := send_seq (contents (ch_cipher sch)) + 1,
      recv_seq := recv_seq (contents (ch_cipher sch)) + 1\<rparr>"
proof -
  let ?sc = "contents (ch_cipher sch)"
  let ?sc1 = "?sc\<lparr>recv_seq := recv_seq ?sc + 1\<rparr>"
  have "ch_reader sch = packet ct # []" using assms(6,13,20) protected_hears_writer [OF assms(14)] by simp
  note heard = protected_hears [OF assms(1,2,9) this assms(8,15)]
  then have e: "encrypt_message (env_checks E) ?sc1 answer = (Ok cts, s)" and m: "max_frame_size ?sc1 = TLS_MAX_RECORD_SIZE"
    using assms(4,17) by simp_all
  from encrypt_one_record [OF e assms(16) m] obtain ca where
    ca: "cts = [ca]" "seal_record (env_checks E) ?sc1 answer = (Ok ca, s)" "s = ?sc1\<lparr>send_seq := send_seq ?sc1 + 1\<rparr>" by blast
  have l: "linked ?sc1 (contents (ch_cipher ch1))" using linked_seq [OF assms(3)] assms(10,11) by simp
  have "ch_reader ch1 = packet ca # []" "\<not> poisoned (ch_cipher ch1)"
    using assms(5,7,11,12,18,19) ca(1) heard by simp_all
  note answered = protected_hears [OF assms(1) l ca(2) this assms(14)]
  from heard answered ca(3) assms(11) show ?thesis by simp
qed

lemma tunnelled_handshakes_complete:
  assumes sock: "tunnel_sockets E cst sst (delivered (ch_writer cch)) (delivered (ch_writer sch))"
    and client: "ProtectedHandshakeState_client_handshake E client_id vk (ph_channels cst) (MlsHandshake_new cconn ck) = Some (Ok cch, chs)"
    and server: "ProtectedHandshakeState_server_handshake E (ph_channels sst) (MlsHandshake_new sconn sk) = Some (Ok (sch, ident), shs)"
  shows "\<exists>cts sts. handshakes_complete E client_id vk cconn ck sconn sk chs cts shs sts ident \<and> channels_open E cts sts cch sch"
proof -
  let ?oc = "env_checks E" and ?cc = "contents (ch_cipher (ph_channels cst))"
  from sock obtain ts0 wc ws where
    E: "connects E" "aead_correct (env_crypto E) AEAD_ALGORITHM" "handshakes_fit (env_tls E)" and
    new: "ProtectedChannels_new (env_crypto E) False (map (\<lambda>d. packet d) (delivered (ch_writer sch))) wc ts0 = Ok (ph_channels cst)"
      "ProtectedChannels_new (env_crypto E) True (map (\<lambda>d. packet d) (delivered (ch_writer cch))) ws ts0 = Ok (ph_channels sst)"
      "snd wc = []" "snd ws = []"
    by (auto simp: tunnel_sockets_def)
  note nc = new_channels [OF new(1)] delivered_new [OF new(1)] and ns = new_channels [OF new(2)] delivered_new [OF new(2)]
  note links = new_channels_linked [OF E(2) new(1,2)]
  from E(1,3) nc(3,4) client obtain conn conn0 wait hello conn1 pkt cs cts conn2 conn3 ct c ch1 ch2 c' where
    d: "ClientHandshakeState_create_table cconn = (Ok (), conn)"
      "ClientHandshakeState_delete (env_json E) (env_mls E) conn client_id = (Ok (), conn0)" and
    c: "ClientHandshake_start (env_tls E) (env_mls E) conn0 ck vk client_id = (Ok (wait, hello), conn1)"
      "receive_server_hello (env_tls E) (env_mls E) wait conn1 (data pkt) = (Ok (cs, cts), conn2)"
      "ClientHandshakeState_store (env_json E) cs conn2 = (Ok (), conn3)"
      "chs = \<lparr>leaf_signer = ck, connection = conn3, hs_state = ClientSide cs\<rparr>"
      "seal_record ?oc ?cc hello = (Ok ct, c)" "c = ?cc\<lparr>send_seq := send_seq ?cc + 1\<rparr>"
      "ch_cipher ch1 = \<lparr>contents = c, poisoned = False\<rparr>" "ch_reader ch1 = ch_reader (ph_channels cst)"
      "delivered (ch_writer ch1) = delivered (ch_writer (ph_channels cst)) @ [ct]" "buffer (ch_writer ch1) = []"
      "rx_next (protected_transport E) ch1 = Some (Some (Ok pkt), ch2)"
      "TlsAeadCodec_update_traffic_secrets (contents (ch_cipher ch2)) (Both cts) False = (Ok (), c')"
      "cch = ch2\<lparr>ch_cipher := \<lparr>contents = c', poisoned = False\<rparr>\<rparr>"
    by (rule protected_client_run)
  from E(1,3) server obtain spkt ss sts answer sconn1 sh1 cts' s sh2 s' where
    s: "rx_next (protected_transport E) (ph_channels sst) = Some (Some (Ok spkt), sh1)"
      "ServerHandshake_start ?oc (env_tls E) (env_mls E) sconn sk (data spkt) = (Ok (ss, sts, ident, answer), sconn1)"
      "shs = \<lparr>leaf_signer = sk, connection = sconn1, hs_state = ServerSide ss\<rparr>" "fits_record answer"
      "encrypt_message ?oc (contents (ch_cipher sh1)) answer = (Ok cts', s)"
      "ch_cipher sh2 = \<lparr>contents = s, poisoned = False\<rparr>" "ch_reader sh2 = ch_reader sh1"
      "delivered (ch_writer sh2) = delivered (ch_writer sh1) @ buffer (ch_writer sh1) @ cts'" "buffer (ch_writer sh2) = []"
      "TlsAeadCodec_update_traffic_secrets s (Both sts) True = (Ok (), s')"
      "sch = sh2\<lparr>ch_cipher := \<lparr>contents = s', poisoned = False\<rparr>\<rparr>"
    by (rule protected_server_run)
  have x: "data spkt = hello \<and> data pkt = answer \<and> ch_reader ch2 = [] \<and> ch_reader sh1 = [] \<and> ch_writer ch2 = ch_writer ch1 \<and>
    contents (ch_cipher ch2) = c\<lparr>recv_seq := recv_seq c + 1\<rparr> \<and>
    s = (contents (ch_cipher (ph_channels sst)))\<lparr>send_seq := send_seq (contents (ch_cipher (ph_channels sst))) + 1,
      recv_seq := recv_seq (contents (ch_cipher (ph_channels sst))) + 1\<rparr>"
    by (rule tunnel_exchange [OF E(1) links ns(3,4) _ _ ns(5) c(5-9,11) s(1,4,5,8)]) (use nc(8,9) ns(8,9) new(3,4) c(13) s(11) in simp_all)
  then have "handshakes_complete E client_id vk cconn ck sconn sk chs cts shs sts ident"
    unfolding handshakes_complete_defs using d c(1-4) s(2,3) by blast
  moreover have "channels_ready E cts False cch"
    unfolding c(13) by (rule update_both_ready [OF c(12), of ts0]) (use x nc c(6,10) in \<open>simp_all add: suite_of_def\<close>)
  moreover have "channels_ready E sts True sch"
    unfolding s(11) by (rule update_both_ready [of _ _ _ _ ts0]) (use x ns s(6,7,9,10) in \<open>simp_all add: suite_of_def\<close>)
  moreover have "send_seq c' = recv_seq s'" "send_seq s' = recv_seq c'"
    using update_traffic_secrets_frame(1,2) [OF c(12)] update_traffic_secrets_frame(1,2) [OF s(10)] x c(6) nc(6,7) ns(6,7) by simp_all
  ultimately show ?thesis using c(13) s(11) by (auto simp: channels_open_def)
qed

interpretation protected_state: pre_handshake_state E
  "\<lambda>client_id vk st. ProtectedHandshakeState_client_handshake E client_id vk (ph_channels st)"
  "\<lambda>st. ProtectedHandshakeState_server_handshake E (ph_channels st)" "tunnel_sockets E" for E
  by unfold_locales (use tunnelled_handshakes_complete in blast)

end
