(* ===== verification/Resumption.thy ===== *)
theory Resumption
  imports Establishment
begin

text \<open>
  Resuming a lost connection, across \<^verbatim>\<open>ClientHandshakeState::resume\<close>, \<^verbatim>\<open>ServerHandshake::start\<close> on a
  resumption message and the client's reception of the confirmation: where it brings both sides
  back together, and where it cannot.
\<close>

section \<open>Where a connection can be resumed\<close>

text \<open>
  The client's state and both databases after a connection was lost: the server has not seen the
  update the client still waits for; or the client waits for nothing of its own, and the server is in
  the same epoch or holds the commit that leads there.
\<close>

definition resumable ::
    "('s, 'g, 'm, 'o) openmls \<Rightarrow> ('g, 'm, 'o, 'e) mls_view \<Rightarrow> GroupId \<Rightarrow> ('s, 'm) client \<Rightarrow> 's Connection \<Rightarrow> bool" where
  "resumable M V gid client sconn \<longleftrightarrow>
     (\<exists>e e0 pend. client_session (fst client) = \<lparr>group_id = gid, epoch = view_epoch V e\<rparr> \<and>
        member_at M V (snd client) gid client_leaf e None \<and> member_at M V sconn gid server_leaf e0 pend \<and>
        (case own_pending_update (fst client) of
           Some p \<Rightarrow> view_commit V (pu_mls_message p) = Some (gid, client_leaf, e0, e) \<and>
                     exported V e = Ok (pu_traffic_secrets p)
         | None \<Rightarrow> e0 = e \<or> pend = Some e \<and> view_epoch V e = view_epoch V e0 + 1))"

lemma resume_cases:
  assumes "ClientHandshakeState_resume T M k (st, conn) = (Ok (ts, hello), (st', conn'))"
  obtains (again) p where "own_pending_update st = Some p" "ts = pu_traffic_secrets p" "conn' = conn"
      "handshake_bytes T (MlsTlsHandshake_from (ResumptionPayload \<lparr>resumption_commit = pu_mls_message p\<rparr>)) = Ok hello"
      "st' = st\<lparr>client_internal := WaitingForConnectionConfirmation p\<rparr>"
  | (fresh) m conn1 session where "own_pending_update st = None"
      "MlsSession_update M (client_session st) conn k = (Ok m, conn1)"
      "MlsSession_merge_update M (client_session st) conn1 = (Ok ts, (session, conn'))"
      "handshake_bytes T (MlsTlsHandshake_from (ResumptionPayload \<lparr>resumption_commit = m\<rparr>)) = Ok hello"
      "st' = st\<lparr>client_session := session, client_internal :=
         WaitingForConnectionConfirmation \<lparr>pu_mls_message = m, pu_traffic_secrets = ts\<rparr>\<rparr>"
proof (cases "own_pending_update st")
  case None
  with assms have "\<exists>m conn1 session. MlsSession_update M (client_session st) conn k = (Ok m, conn1) \<and>
      MlsSession_merge_update M (client_session st) conn1 = (Ok ts, (session, conn')) \<and>
      handshake_bytes T (MlsTlsHandshake_from (ResumptionPayload \<lparr>resumption_commit = m\<rparr>)) = Ok hello \<and>
      st' = st\<lparr>client_session := session, client_internal :=
         WaitingForConnectionConfirmation \<lparr>pu_mls_message = m, pu_traffic_secrets = ts\<rparr>\<rparr>"
    by (auto simp: ClientHandshakeState_resume_def own_pending_update_def bindS_eq_Ok Let_def
        client_mls_update_def client_merge_update_def err_as_def split: ClientInternalState.splits prod.splits)
  with None fresh show thesis by blast
next
  case (Some p)
  with assms show thesis
    by (intro again [of p]) (auto simp: ClientHandshakeState_resume_def own_pending_update_def bindS_eq_Ok Let_def
        split: ClientInternalState.splits)
qed


text \<open>What the client has done when it sent its resumption.\<close>

lemma resume_meaning:
  assumes "mls_laws M V" "resumable M V gid (st, conn) sconn"
    and "ClientHandshakeState_resume T M k (st, conn) = (Ok (ts, hello), (st', conn'))"
  shows "\<exists>m p e e' e0 pend. handshake_bytes T (MlsTlsHandshake_from (ResumptionPayload \<lparr>resumption_commit = m\<rparr>)) = Ok hello \<and>
    view_commit V m = Some (gid, client_leaf, e, e') \<and> exported V e' = Ok ts \<and> member_at M V conn' gid client_leaf e' None \<and>
    member_at M V sconn gid server_leaf e0 pend \<and> (e = e0 \<or> pend = Some e \<and> view_epoch V e = view_epoch V e0 + 1) \<and>
    st' = st\<lparr>client_session := \<lparr>group_id = gid, epoch = view_epoch V e'\<rparr>, client_internal := WaitingForConnectionConfirmation p\<rparr>"
proof -
  from assms(2) obtain e e0 pend where
    r: "client_session st = \<lparr>group_id = gid, epoch = view_epoch V e\<rparr>" "member_at M V conn gid client_leaf e None"
      "member_at M V sconn gid server_leaf e0 pend" and
    c: "case own_pending_update st of
           Some p \<Rightarrow> view_commit V (pu_mls_message p) = Some (gid, client_leaf, e0, e) \<and> exported V e = Ok (pu_traffic_secrets p)
         | None \<Rightarrow> e0 = e \<or> pend = Some e \<and> view_epoch V e = view_epoch V e0 + 1"
    by (auto simp: resumable_def)
  from assms(3) show ?thesis
  proof (cases rule: resume_cases)
    case (again p)
    with r c show ?thesis
      by (intro exI [of _ "pu_mls_message p"] exI [of _ p] exI [of _ e0] exI [of _ e] exI [of _ e0] exI [of _ pend]) simp
  next
    case (fresh m conn1 session)
    have "member_at M V conn (group_id (client_session st)) client_leaf e None" using r by simp
    from MlsSession_update_meaning [OF assms(1) this fresh(2)] obtain e' where
      u: "view_commit V m = Some (gid, client_leaf, e, e')"
        "member_at M V conn1 (group_id (client_session st)) client_leaf e (Some e')"
      using r(1) by auto
    from MlsSession_merge_update_meaning [OF assms(1) u(2) fresh(3)] u(1) r c fresh show ?thesis
      by (intro exI [of _ m] exI [of _ "\<lparr>pu_mls_message = m, pu_traffic_secrets = ts\<rparr>"] exI [of _ e] exI [of _ e']
          exI [of _ e0] exI [of _ pend]) auto
  qed
qed

lemma server_resumption_start:
  assumes "tls_laws T" "handshake_bytes T (MlsTlsHandshake_from (ResumptionPayload \<lparr>resumption_commit = m\<rparr>)) = Ok hello"
  shows "ServerHandshake_start oc T M conn k hello = process_resumption oc T M conn \<lparr>resumption_commit = m\<rparr>"
proof -
  have "tls_deserialize_exact (MlsTlsHandshake_de T) hello =
      Ok (MlsTlsHandshake_from (ResumptionPayload \<lparr>resumption_commit = m\<rparr>))"
    by (rule mls_tls_handshake.exact_roundtrip [OF assms(1)]) (use assms(2) in \<open>simp add: handshake_bytes_def\<close>)
  then show ?thesis by (simp add: ServerHandshake_start_def check_version_def MlsTlsHandshake_from_def)
qed

lemma server_resumption_meaning:
  assumes "tls_laws T" "mls_laws M V" "member_at M V conn gid server_leaf e0 pend"
    and "view_commit V m = Some (gid, client_leaf, e, e')"
    and "e = e0 \<or> pend = Some e \<and> view_epoch V e = view_epoch V e0 + 1"
    and "process_resumption oc T M conn \<lparr>resumption_commit = m\<rparr> = (Ok (sst, ts, ident, answer), conn')"
  shows "exported V e' = Ok ts \<and> member_at M V conn' gid server_leaf e' None \<and>
    sst = \<lparr>server_session = \<lparr>group_id = gid, epoch = view_epoch V e'\<rparr>, server_internal = ServerRunning\<rparr> \<and>
    signaling_of_bytes T answer = Ok (ConnectionConfirmationMessage \<lparr>eku_epoch = view_epoch V e'\<rparr>)"
proof -
  from assms(6) obtain session where
    1: "process_mls_update oc M conn m True = (Ok (ts, session, ident), conn')" and
    2: "create_connection_confirmation T M sst conn' = Ok answer"
      "sst = \<lparr>server_session = session, server_internal = ServerRunning\<rparr>"
    by (auto simp: process_resumption_def bindS_eq_Ok Let_def)
  have g: "exported V e' = Ok ts \<and> session = \<lparr>group_id = gid, epoch = view_epoch V e'\<rparr> \<and>
    member_at M V conn' gid server_leaf e' None \<and> same_tables conn conn'"
    by (rule process_mls_update_meaning [OF assms(2,3,4) _ _ 1]) (use assms(5) in auto)
  then have "member_at M V conn' (group_id (server_session sst)) server_leaf e' None" using 2 by simp
  from epoch_key_update_meaning(1) [OF assms(2) this] 2(1) have
    "signaling_of_bytes T answer = Ok (ConnectionConfirmationMessage \<lparr>eku_epoch = view_epoch V e'\<rparr>)"
    using signaling_roundtrip [OF assms(1)] by (simp add: create_connection_confirmation_def)
  with g 2(2) show ?thesis by simp
qed

lemma client_receive_confirmation:
  assumes "mls_laws M V" "member_at M V conn (group_id (client_session st)) me e pend"
    and "client_internal st = WaitingForConnectionConfirmation p"
    and "signaling_of_bytes T bs = Ok (ConnectionConfirmationMessage \<lparr>eku_epoch = ep\<rparr>)"
    and "ClientHandshakeState_receive_signaling_message oc T J M k bs (st, conn) = (Ok (u, resp), (st', conn'))"
  shows "u = None \<and> resp = None \<and> ep = view_epoch V e \<and> st' = st\<lparr>client_internal := ClientRunning\<rparr> \<and>
    member_at M V conn' (group_id (client_session st)) me e pend"
proof -
  have "member_at M V conn (group_id (client_session (st\<lparr>client_internal := ClientRunning\<rparr>))) me e pend"
    using assms(2) by simp
  note check = epoch_key_update_meaning(2) [OF assms(1) this]
  from assms(3-5) check have
    1: "client_store_update J (st\<lparr>client_internal := ClientRunning\<rparr>, conn) = (Ok (), (st', conn'))"
    and 2: "u = None" "resp = None" "ep = view_epoch V e"
    by (auto simp: ClientHandshakeState_receive_signaling_message_def Let_def bindS_eq_Ok client_check_epoch_def
        HandshakeState_process_epoch_key_update_def split: if_splits)
  from client_store_update_Ok [OF 1] 2 show ?thesis
    using member_at_storage [OF assms(2), of conn'] by auto
qed

text \<open>
  After a lost connection, when the client's resumption message, the server's processing of it and
  the client's reception of the confirmation succeed, both sides have derived the same traffic
  secrets and are in the same epoch with nobody waiting.
\<close>

lemma resumption_establishes:
  assumes "tls_laws T" "mls_laws M V" "resumable M V gid (st, conn) sconn"
    and "ClientHandshakeState_resume T M ck (st, conn) = (Ok (cts, hello), (st1, conn1))"
    and "ServerHandshake_start oc T M sconn sk hello = (Ok (sst, sts, ident, answer), sconn1)"
    and "ClientHandshakeState_receive_signaling_message oc T J M ck answer (st1, conn1) = (Ok (u, resp), (st2, conn2))"
  shows "cts = sts \<and> u = None \<and> resp = None \<and>
    (\<exists>e. established T M V gid e
       \<lparr>ep_handshake = \<lparr>leaf_signer = ck, connection = conn2, hs_state = ClientSide st2\<rparr>, ep_secrets = cts\<rparr>
       \<lparr>ep_handshake = \<lparr>leaf_signer = sk, connection = sconn1, hs_state = ServerSide sst\<rparr>, ep_secrets = sts\<rparr>)"
proof -
  from resume_meaning [OF assms(2,3,4)] obtain m p e e' e0 pend where
    r: "handshake_bytes T (MlsTlsHandshake_from (ResumptionPayload \<lparr>resumption_commit = m\<rparr>)) = Ok hello"
      "view_commit V m = Some (gid, client_leaf, e, e')" "exported V e' = Ok cts" "member_at M V conn1 gid client_leaf e' None"
      "member_at M V sconn gid server_leaf e0 pend" "e = e0 \<or> pend = Some e \<and> view_epoch V e = view_epoch V e0 + 1" and
    st1: "st1 = st\<lparr>client_session := \<lparr>group_id = gid, epoch = view_epoch V e'\<rparr>,
      client_internal := WaitingForConnectionConfirmation p\<rparr>" by blast
  have "process_resumption oc T M sconn \<lparr>resumption_commit = m\<rparr> = (Ok (sst, sts, ident, answer), sconn1)"
    using assms(5) server_resumption_start [OF assms(1) r(1), of oc M sconn sk] by simp
  note s = server_resumption_meaning [OF assms(1,2) r(5,2,6) this]
  have "member_at M V conn1 (group_id (client_session st1)) client_leaf e' None" using r(4) st1 by simp
  from client_receive_confirmation [OF assms(2) this _ _ assms(6)] s st1 have
    c: "u = None" "resp = None" "st2 = st1\<lparr>client_internal := ClientRunning\<rparr>" "member_at M V conn2 gid client_leaf e' None"
    by auto
  have "established T M V gid e'
       \<lparr>ep_handshake = \<lparr>leaf_signer = ck, connection = conn2, hs_state = ClientSide st2\<rparr>, ep_secrets = cts\<rparr>
       \<lparr>ep_handshake = \<lparr>leaf_signer = sk, connection = sconn1, hs_state = ServerSide sst\<rparr>, ep_secrets = sts\<rparr>"
    using assms(1,2) s c r(3) st1 by (simp add: established_def client_rel_def server_rel_def)
  with s c r(3) show ?thesis by auto
qed


text \<open>A member at an epoch of the symbolic group.\<close>

definition sym_member :: "u8 \<Rightarrow> u64 \<Rightarrow> u8 \<Rightarrow> u8 option \<Rightarrow> sym_storage Connection" where
  "sym_member leaf ep secret pend = \<lparr>mls_storage = ([(1, \<lparr>sg_id = 1, sg_me = leaf, sg_epoch = ep, sg_secret = secret,
     sg_pending = pend\<rparr>)], 2), handshake_states = Some [], faults = []\<rparr>"

definition sym_lost :: "sym_message ClientInternalState \<Rightarrow> (sym_storage, sym_message) client" where
  "sym_lost internal = (\<lparr>profile_id = [7], client_session = \<lparr>group_id = [1], epoch = 2\<rparr>, client_internal = internal\<rparr>,
     sym_member 1 2 12 None)"

lemma sym_member_at_epoch:
  "member_at sym_mls sym_view (sym_member leaf ep secret pend) [1] (unat leaf) (ep, secret)
     (map_option (\<lambda>n. (ep + 1, n)) pend)"
  unfolding member_at_def sym_group_at
  by (rule exI [of _ "\<lparr>sg_id = 1, sg_me = leaf, sg_epoch = ep, sg_secret = secret, sg_pending = pend\<rparr>"])
    (simp add: sym_member_def)

text \<open>
  What OpenMLS documents for handshake messages of another epoch: they are rejected
  (\<^verbatim>\<open>ValidationError::WrongEpoch\<close>).
\<close>

definition mls_rejects_other_epochs :: "('s, 'g, 'm, 'o) openmls \<Rightarrow> ('g, 'm, 'o, 'e) mls_view \<Rightarrow> bool" where
  "mls_rejects_other_epochs M V \<longleftrightarrow>
     (\<forall>s g gid me e pend m by x y pm. group_at M V s g gid me e pend \<longrightarrow> view_commit V m = Some (gid, by, x, y) \<longrightarrow>
        view_epoch V x \<noteq> view_epoch V e \<longrightarrow> mls_extract M m = BodyPrivateMessage pm \<longrightarrow>
        \<not> is_ok (fst (mls_process_message M g pm s)))"

lemma stale_commit_rejected:
  assumes "mls_laws M V" "mls_rejects_other_epochs M V" "member_at M V conn gid me e pend"
    and "view_commit V m = Some (gid, by, x, e)"
  shows "\<not> is_ok (fst (process_mls_update oc M conn m True))"
proof
  assume "is_ok (fst (process_mls_update oc M conn m True))"
  then obtain ts session ident conn' where "process_mls_update oc M conn m True = (Ok (ts, session, ident), conn')"
    unfolding is_ok_iff by (metis prod.collapse)
  then show False
  proof (rule process_mls_update_cases)
    fix pm g g0 conn0 processed g1 conn1
    assume 1: "mls_extract M m = BodyPrivateMessage pm" "load_group M (mls_message_group_id M pm) conn = Ok g"
      "settle_pending_commit oc M g (mls_message_epoch M pm) True conn = (Ok g0, conn0)"
      "with_provider (\<lambda>e. ConnectionUpdateError (BoxedMls e)) (mls_process_message M g0 pm) conn0 = (Ok (processed, g1), conn1)"
    note ep = mls_commit_message [OF assms(1,4)]
    from ep(2) 1(1) have pm: "mls_message_group_id M pm = gid" "mls_message_epoch M pm = view_epoch V x" by auto
    obtain h where h: "group_at M V (mls_storage conn) h gid me e pend" using assms(3) by (auto simp: member_at_def)
    with 1(2) pm load_group_at [OF assms(1) h] have g: "group_at M V (mls_storage conn) g gid me e pend" by simp
    have "view_epoch V x \<noteq> view_epoch V e + 1" using ep(1) by (simp add: add.assoc)
    with 1(3) pm mls_reads_simps(3) [OF assms(1) g] obtain s0 where
      "mls_clear_pending_commit M g (mls_storage conn) = (Ok g0, s0)" "mls_storage conn0 = s0"
      by (auto simp: settle_pending_commit_def bindS_eq_Ok with_provider_Ok_iff dest!: add_u64_Ok_D)
    with mls_commit_steps(3) [OF assms(1) g] have g0: "group_at M V (mls_storage conn0) g0 gid me e None" by auto
    have "view_epoch V x \<noteq> view_epoch V e" using ep(1) by simp
    with assms(2,4) g0 1(1) have "\<not> is_ok (fst (mls_process_message M g0 pm (mls_storage conn0)))"
      unfolding mls_rejects_other_epochs_def by blast
    with 1(4) show False by (auto simp: with_provider_Ok_iff)
  qed
qed

section \<open>Properties\<close>



text \<open>The client's commit from epoch 1 to epoch 2, which the server has applied.\<close>

definition sym_applied :: "sym_message PendingUpdate" where
  "sym_applied = \<lparr>pu_mls_message = SymMessage 2 1 1 1 11 12, pu_traffic_secrets = sym_epoch_secrets\<rparr>"

lemma sym_rejects_other_epochs: "mls_rejects_other_epochs sym_mls sym_view"
  unfolding mls_rejects_other_epochs_def sym_group_at
  by (auto simp: sym_mls_def sym_view_def Let_def split: sym_message.splits if_splits)


end
