(* ===== verification/Client_Persistence.thy ===== *)
theory Client_Persistence
  imports Key_Sync
begin

text \<open>
  The client state machine together with its table: calls into OpenMLS leave the table alone, every
  handler that succeeds ends by storing the state it leaves the client in, and what an unreadable
  version column does to the next handshake.
\<close>

section \<open>MLS calls leave the table alone\<close>

lemma with_provider_tables: "with_provider conv call conn = (r, conn') \<Longrightarrow> same_tables conn conn'"
  by (auto simp: with_provider_def split: prod.splits)

lemma bindS_tables:
  assumes "bindS m f = (r, conn')" "\<And>r1 c1. m = (r1, c1) \<Longrightarrow> same_tables conn c1"
    and "\<And>x c1 r2 c2. m = (Ok x, c1) \<Longrightarrow> f x c1 = (r2, c2) \<Longrightarrow> same_tables c1 c2"
  shows "same_tables conn conn'"
proof -
  obtain r1 c1 where m: "m = (r1, c1)" by fastforce
  show ?thesis
  proof (cases r1)
    case (Ok x)
    with assms(1) m have "f x c1 = (r, conn')" by simp
    with assms(2,3) m Ok show ?thesis by (metis same_tables_trans)
  qed (use assms(1,2) m in auto)
qed

lemma MlsSession_update_tables:
  "MlsSession_update M self conn k = (r, conn') \<Longrightarrow> same_tables conn conn'"
  by (auto simp: MlsSession_update_def bindS_def with_provider_def split: res.splits prod.splits)

lemma MlsSession_merge_update_tables:
  "MlsSession_merge_update M self conn = (r, (self', conn')) \<Longrightarrow> same_tables conn conn'"
  by (auto simp: MlsSession_merge_update_def bindS_def with_provider_def split: res.splits prod.splits)

lemma settle_pending_commit_tables:
  "settle_pending_commit oc M g ep d conn = (r, conn') \<Longrightarrow> same_tables conn conn'"
  by (auto simp: settle_pending_commit_def bindS_def with_provider_def split: res.splits prod.splits if_splits)

lemma process_mls_update_tables:
  "process_mls_update oc M conn m d = (r, conn') \<Longrightarrow> same_tables conn conn'"
  unfolding process_mls_update_def
  by (auto split: MlsMessageBodyIn.splits prod.splits elim!: bindS_tables
      dest: settle_pending_commit_tables with_provider_tables)


section \<open>The client's handlers and the table\<close>

text \<open>A call that may move the session on but touches neither the profile nor the table.\<close>

definition moves :: "('s, 'm) client \<Rightarrow> ('s, 'm) client \<Rightarrow> bool" where
  "moves st st' \<longleftrightarrow> profile_id (fst st') = profile_id (fst st) \<and> same_tables (snd st) (snd st')"

lemma moves_refl [simp]: "moves st st"
  by (simp add: moves_def)

lemma moves_trans [trans]: "moves a b \<Longrightarrow> moves b c \<Longrightarrow> moves a c"
  by (auto simp: moves_def intro: same_tables_trans)

lemma client_calls_move:
  "client_mls_update M k st = (r, st') \<Longrightarrow> moves st st'"
  "client_merge_update M st = (r1, st') \<Longrightarrow> moves st st'"
  "client_check_epoch M u st = (r2, st') \<Longrightarrow> moves st st'"
  by (auto simp: client_mls_update_def client_merge_update_def client_check_epoch_def moves_def
      split: prod.splits dest: MlsSession_update_tables MlsSession_merge_update_tables)

lemma client_process_update_moves:
  assumes "client_process_update oc T M k u st = (Ok x, st')"
  shows "moves st st'"
proof -
  obtain self conn where st: "st = (self, conn)" by (cases st)
  from assms st obtain ts session ident conn1 where
    1: "process_mls_update oc M conn (mls_commit u) False = (Ok (ts, session, ident), conn1)"
    by (auto simp: client_process_update_def bindS_eq_Ok split: prod.splits)
  have 2: "moves st (self\<lparr>client_session := session\<rparr>, conn1)"
    using process_mls_update_tables [OF 1] st by (simp add: moves_def)
  show ?thesis
  proof (cases "Boolean_into_bool (update_requested u)")
    case True
    with assms st 1 obtain m st2 ts2 self3 conn3 where
      "client_mls_update M k (self\<lparr>client_session := session\<rparr>, conn1) = (Ok m, st2)"
      "client_merge_update M st2 = (Ok ts2, (self3, conn3))"
      "st' = (self3\<lparr>client_internal := WaitingForEpochKeyUpdate
          \<lparr>pu_mls_message = m, pu_traffic_secrets = ts2\<rparr>\<rparr>, conn3)"
      by (auto simp: client_process_update_def bindS_eq_Ok Let_def)
    with 2 client_calls_move(1,2) have "moves st (self3, conn3)" by (meson moves_trans)
    with \<open>st' = _\<close> show ?thesis by (simp add: moves_def)
  next
    case False
    with assms st 1 2 show ?thesis
      by (auto simp: client_process_update_def bindS_eq_Ok Let_def moves_def)
  qed
qed

definition persisted :: "'m json \<Rightarrow> ('s, 'm) client \<Rightarrow> bool" where
  "persisted J st \<longleftrightarrow> table_ok J (snd st) \<and> states_of J (snd st) (profile_id (fst st)) = Some (fst st)"

lemma states_of_same_tables: "same_tables conn conn' \<Longrightarrow> states_of J conn' = states_of J conn"
  by (simp add: same_tables_def states_of_def [abs_def])

lemma table_ok_same_tables: "same_tables conn conn' \<Longrightarrow> table_ok J conn' = table_ok J conn"
  by (simp add: same_tables_def table_ok_def db_works_def)

lemma store_after_moves:
  assumes "persisted J st" "moves st st1" "client_store_update J st1 = (Ok (), st2)"
  shows "persisted J st2 \<and> profile_id (fst st2) = profile_id (fst st)"
proof -
  obtain self conn where st1: "st1 = (self, conn)" by (cases st1)
  from assms(1,2) st1 have "table_ok J conn" "states_of J conn (profile_id self) \<noteq> None"
    by (auto simp: persisted_def moves_def table_ok_same_tables states_of_same_tables)
  with handshake_table.replace_entries [of J conn self] assms(3) st1 show ?thesis
    using assms(2) by (auto simp: client_store_update_def persisted_def moves_def)
qed

lemma update_persists:
  assumes "persisted J (st, conn)" "ClientHandshakeState_update T J M k req (st, conn) = (Ok x, st')"
  shows "persisted J st' \<and> profile_id (fst st') = profile_id st"
proof -
  from assms(2) obtain m st1 ts self2 conn2 i where
    1: "client_mls_update M k (st, conn) = (Ok m, st1)" "client_merge_update M st1 = (Ok ts, (self2, conn2))" and
    2: "client_store_update J (self2\<lparr>client_internal := i\<rparr>, conn2) = (Ok (), st')"
    by (auto simp: ClientHandshakeState_update_def bindS_eq_Ok Let_def split: if_splits)
  from 1 client_calls_move(1,2) have "moves (st, conn) (self2, conn2)" by (meson moves_trans)
  then have "moves (st, conn) (self2\<lparr>client_internal := i\<rparr>, conn2)" by (simp add: moves_def)
  from store_after_moves [OF assms(1) this 2] show ?thesis by simp
qed

lemma receive_persists:
  assumes "persisted J (st, conn)"
    and "ClientHandshakeState_receive_signaling_message oc T J M k bs (st, conn) = (Ok x, st')"
  shows "persisted J st' \<and> profile_id (fst st') = profile_id st"
proof -
  obtain msg where msg: "signaling_of_bytes T bs = Ok msg"
    using assms(2) by (auto simp: ClientHandshakeState_receive_signaling_message_def bindS_eq_Ok)
  note defs = ClientHandshakeState_receive_signaling_message_def bindS_eq_Ok Let_def client_check_epoch_def moves_def
  have "st' = (st, conn) \<or> (\<exists>st1. moves (st, conn) st1 \<and> client_store_update J st1 = (Ok (), st'))"
  proof (cases msg)
    case (ConnectionUpdateMessage u)
    show ?thesis
    proof (cases "client_internal st = ClientRunning")
      case True
      with ConnectionUpdateMessage msg assms(2) obtain y st1 where
        "client_process_update oc T M k u (st, conn) = (Ok y, st1)" "client_store_update J st1 = (Ok (), st')"
        by (auto simp: defs)
      with client_process_update_moves show ?thesis by blast
    qed (use ConnectionUpdateMessage msg assms(2) in \<open>auto simp: defs\<close>)
  next
    case (ConnectionConfirmationMessage u)
    with msg assms(2) show ?thesis by (cases "client_internal st") (auto simp: defs)
  next
    case (EpochKeyUpdateMessage u)
    with msg assms(2) show ?thesis by (cases "client_internal st") (auto simp: defs)
  next
    case (KeyUpdateMessage u)
    with msg assms(2) show ?thesis by (auto simp: defs)
  qed
  with assms(1) store_after_moves [OF assms(1)] show ?thesis by (metis fst_conv)
qed

section \<open>Properties\<close>

text \<open>
  C16. What is on disk is what is in memory: when the client's stored state is its state, then after
  every update it starts and every signaling message it accepts, a restart would load exactly the
  state it is in, pending update and awaited secret included, and the table is still sound.
\<close>
theorem client_state_is_persisted:
  assumes "table_ok J conn" "ClientHandshakeState_load J conn (profile_id st) = (Ok (Some st), conn)"
  shows "(\<forall>x st' conn'. ClientHandshakeState_update T J M k req (st, conn) = (Ok x, (st', conn')) \<longrightarrow>
      table_ok J conn' \<and> ClientHandshakeState_load J conn' (profile_id st) = (Ok (Some st'), conn')) \<and>
    (\<forall>x st' conn'. ClientHandshakeState_receive_signaling_message oc T J M k bs (st, conn) = (Ok x, (st', conn')) \<longrightarrow>
      table_ok J conn' \<and> ClientHandshakeState_load J conn' (profile_id st) = (Ok (Some st'), conn'))"
proof -
  have p: "persisted J (st, conn)"
    using assms handshake_table.lookup_entries [OF assms(1)] by (simp add: persisted_def)
  have "table_ok J conn' \<and> ClientHandshakeState_load J conn' (profile_id st) = (Ok (Some st'), conn')"
    if "persisted J (st', conn') \<and> profile_id (fst (st', conn')) = profile_id st" for st' conn'
    using that by (auto simp: persisted_def handshake_table.lookup_entries)
  with update_persists [OF p] receive_persists [OF p] show ?thesis by blast
qed

definition sym_text_json :: "sym_message json" where
  "sym_text_json = text_json sym_message_bytes sym_message_of_bytes"

lemma sym_text_json_ok: "json_ok sym_text_json" "\<exists>blob. json_to_vec sym_text_json st = Ok blob"
  unfolding sym_text_json_def by (rule text_json_ok, rule sym_message_roundtrip) (simp add: text_json_def)

lemma sym_text_table_ok: "table_ok sym_text_json \<lparr>mls_storage = s, handshake_states = Some [], faults = []\<rparr>"
  unfolding sym_text_json_def by (rule text_json_table, rule sym_message_roundtrip)

definition sym_client_state :: "sym_message ClientHandshakeState" where
  "sym_client_state =
     \<lparr>profile_id = [7], client_session = \<lparr>group_id = [1], epoch = 1\<rparr>, client_internal = ClientRunning\<rparr>"

lemma sym_stored:
  "\<exists>conn. ClientHandshakeState_store sym_text_json sym_client_state (sym_connection 1) = (Ok (), conn) \<and>
     table_ok sym_text_json conn \<and> states_of sym_text_json conn [7] = Some sym_client_state"
proof -
  have "table_ok sym_text_json (sym_connection 1)" "states_of sym_text_json (sym_connection 1) [7] = None"
    using sym_text_table_ok by (simp_all add: sym_connection_def states_of_def)
  from handshake_table.add_new [OF this(1), of sym_client_state] this(2) show ?thesis
    by (auto simp: sym_client_state_def)
qed

abbreviation sym_after_store :: "sym_storage Connection" where
  "sym_after_store \<equiv> snd (ClientHandshakeState_store sym_text_json sym_client_state (sym_connection 1))"

lemma sym_stored_update:
  "let out = ClientHandshakeState_update sym_tls sym_text_json sym_mls sym_signer False (sym_client_state, sym_after_store)
   in is_ok (fst out) \<and> client_internal (fst (snd out)) \<noteq> ClientRunning"
  by code_simp

theorem client_state_is_persisted_witness:
  "\<exists>x st' conn'. ClientHandshakeState_update sym_tls sym_text_json sym_mls sym_signer False
       (sym_client_state, sym_after_store) = (Ok x, (st', conn')) \<and> client_internal st' \<noteq> ClientRunning \<and>
     ClientHandshakeState_load sym_text_json conn' [7] = (Ok (Some st'), conn')"
proof -
  have c: "table_ok sym_text_json sym_after_store" "states_of sym_text_json sym_after_store [7] = Some sym_client_state"
    using sym_stored by auto
  have id: "profile_id sym_client_state = [7]" by (simp add: sym_client_state_def)
  have l: "ClientHandshakeState_load sym_text_json sym_after_store (profile_id sym_client_state) =
      (Ok (Some sym_client_state), sym_after_store)"
    using handshake_table.lookup_entries [OF c(1)] c(2) by (simp add: id)
  obtain x st' conn' where u: "ClientHandshakeState_update sym_tls sym_text_json sym_mls sym_signer False
      (sym_client_state, sym_after_store) = (Ok x, (st', conn'))" "client_internal st' \<noteq> ClientRunning"
    using sym_stored_update unfolding is_ok_iff Let_def by (metis prod.collapse)
  moreover from client_state_is_persisted [OF c(1) l] u(1)
  have "ClientHandshakeState_load sym_text_json conn' [7] = (Ok (Some st'), conn')" unfolding id by blast
  ultimately show ?thesis by blast
qed

lemma sym_stored_delete:
  "let out = ClientHandshakeState_delete sym_text_json sym_mls sym_after_store [7]
   in fst out = Ok () \<and> mls_load sym_mls (mls_storage (snd out)) [1] = Ok None"
  by code_simp

theorem delete_removes_state_and_group_witness:
  "\<exists>conn'. ClientHandshakeState_delete sym_text_json sym_mls sym_after_store [7] = (Ok (), conn') \<and>
     states_of sym_text_json conn' [7] = None \<and> mls_load sym_mls (mls_storage conn') [1] = Ok None"
proof -
  have c: "table_ok sym_text_json sym_after_store" "states_of sym_text_json sym_after_store [7] = Some sym_client_state"
    using sym_stored by auto
  obtain conn' where d: "ClientHandshakeState_delete sym_text_json sym_mls sym_after_store [7] = (Ok (), conn')"
    "mls_load sym_mls (mls_storage conn') [1] = Ok None"
    using sym_stored_delete unfolding Let_def by (metis prod.collapse)
  with delete_removes_state_and_group [OF c(1) d(1)] c(2) show ?thesis by auto
qed

lemma column_version_mod: "(word_of_int i :: u8) = 0 \<longleftrightarrow> i mod 256 = 0"
  using word_of_int_eq_iff [of i 0, where ?'a = 8] by (simp add: take_bit_eq_mod)

text \<open>
  C35. The version column is cut to eight bits and an unknown version is an error, not an absent
  state: a row of version 256 is taken for version 0, and a row of any other unknown version makes
  \<^verbatim>\<open>load\<close>, \<^verbatim>\<open>delete\<close> and with them the client's handshake for that profile fail before anything is sent,
  where the code's own check would have treated the row as absent.
\<close>
theorem unknown_version_blocks_handshake:
  assumes "faults conn = []" "handshake_states conn = Some rows"
    and "find (\<lambda>row. row_profile_id row = pid) rows = Some row" "row_version row = SqlInteger i"
    and "ClientHandshakeState_column_result J (row_state row) = Ok st"
  shows "(i mod 256 = 0 \<longrightarrow> ClientHandshakeState_load J conn pid = (Ok (Some st), conn)) \<and>
    (i mod 256 \<noteq> 0 \<longrightarrow>
       ClientHandshakeState_load J conn pid =
         (Err (PersistenceError (FromSqlConversionFailure ''Invalid version'')), conn) \<and>
       (connection self = conn \<longrightarrow> MlsHandshake_client_handshake T J M X pid vk (self, t) =
         Some (Err (MlsHandshakeErr (PersistenceError (FromSqlConversionFailure ''Invalid version''))), (self, t))))"
proof -
  have load: "ClientHandshakeState_load J conn pid =
      (if i mod 256 = 0 then Ok (Some st) else Err (PersistenceError (FromSqlConversionFailure ''Invalid version'')), conn)"
    using assms
    by (simp add: ClientHandshakeState_load_def with_table_def next_fault_def load_row_def err_as_def optional_def
        ClientHandshakeVersion_column_result_def ClientHandshakeVersion_default_def column_version_mod)
  have "ClientHandshakeState_create_table conn = (Ok (), conn)"
    using assms(1,2) by (simp add: ClientHandshakeState_create_table_def next_fault_def)
  with load show ?thesis
    by (auto simp: MlsHandshake_client_handshake_def on_connection_def ClientHandshakeState_delete_def)
qed

definition sym_versioned :: "int \<Rightarrow> sym_storage Connection" where
  "sym_versioned v = (sym_connection 1)\<lparr>handshake_states := map_option
     (map (\<lambda>row. row\<lparr>row_version := SqlInteger v\<rparr>)) (handshake_states sym_after_store)\<rparr>"

text \<open>A transport on which nothing ever completes: the handshake must fail before it uses it.\<close>

definition silent_transport :: "unit transport" where
  "silent_transport = \<lparr>tx_send = (\<lambda>_ _. None), rx_next = (\<lambda>_. None)\<rparr>"

theorem unknown_version_blocks_handshake_witness:
  "ClientHandshakeState_load sym_text_json (sym_versioned 256) [7] = (Ok (Some sym_client_state), sym_versioned 256) \<and>
   ClientHandshakeState_load sym_text_json (sym_versioned 1) [7] =
     (Err (PersistenceError (FromSqlConversionFailure ''Invalid version'')), sym_versioned 1) \<and>
   MlsHandshake_client_handshake sym_tls sym_text_json sym_mls silent_transport [7] [42]
       (MlsHandshake_new (sym_versioned 1) sym_signer, ()) =
     Some (Err (MlsHandshakeErr (PersistenceError (FromSqlConversionFailure ''Invalid version''))),
       (MlsHandshake_new (sym_versioned 1) sym_signer, ()))"
proof -
  let ?row = "\<lambda>v. \<lparr>row_profile_id = [7], row_version = SqlInteger v,
     row_state = SqlBlob (the_ok (json_to_vec sym_text_json sym_client_state))\<rparr>"
  have c: "faults (sym_versioned v) = []" "handshake_states (sym_versioned v) = Some [?row v]"
    "find (\<lambda>row. row_profile_id row = [7]) [?row v] = Some (?row v)" "row_version (?row v) = SqlInteger v" for v
    by (simp_all add: sym_versioned_def sym_connection_def ClientHandshakeState_store_def with_table_def next_fault_def
        ClientHandshakeState_to_sql_def sym_text_json_def text_json_def sym_client_state_def err_as_def)
  have d: "ClientHandshakeState_column_result sym_text_json (row_state (?row v)) = Ok sym_client_state" for v
    using sym_text_json_ok by (simp add: ClientHandshakeState_column_result_def json_ok_def) (metis the_ok.simps)
  from unknown_version_blocks_handshake [OF c [of 256] d [of 256]]
    unknown_version_blocks_handshake [OF c [of 1] d [of 1], of "MlsHandshake_new (sym_versioned 1) sym_signer"
      sym_tls sym_mls silent_transport "[42]" "()"]
  show ?thesis by (simp add: MlsHandshake_new_def)
qed

end
