(* ===== verification/Disconnection.thy ===== *)
theory Disconnection
  imports Resumption Client_Persistence
begin

text \<open>
  Losing the connection.  Wherever two ends stand when it is lost, and whatever was under way, the
  client's stored state and both databases allow a resumption, with one exception: the server has
  applied the client's update and its confirmation was among what was lost.
\<close>

section \<open>Where a lost connection leaves both sides\<close>

definition confirmation_lost ::
    "('s, 'g, 'm, 'o) openmls \<Rightarrow> ('g, 'm, 'o, 'e) mls_view \<Rightarrow> GroupId \<Rightarrow> 'm ClientHandshakeState \<Rightarrow> 's Connection \<Rightarrow> bool" where
  "confirmation_lost M V gid st sconn \<longleftrightarrow>
     (\<exists>p x e pend. own_pending_update st = Some p \<and> view_commit V (pu_mls_message p) = Some (gid, client_leaf, x, e) \<and>
        member_at M V sconn gid server_leaf e pend)"

lemma in_phase_lost:
  assumes "in_phase (Config w e r se p qs qc)"
  shows "w \<and> se = r \<or> se = e" and "\<not> w \<Longrightarrow> se = e"
  using assms by (auto elim!: in_phase_cases)

lemma reachable_resumable:
  assumes "sync_rel T M V gid (System c s qs qc) a" "in_phase a" "hs_state (ep_handshake c) = ClientSide st"
  shows "confirmation_lost M V gid st (connection (ep_handshake s)) \<or>
    resumable M V gid (st, connection (ep_handshake c)) (connection (ep_handshake s))"
proof -
  obtain w e r se p aqs aqc where a: "a = Config w e r se p aqs aqc" by (cases a)
  with assms(1) have rel: "client_rel M V gid c w e r" "server_rel M V gid s se p" "follows_server c w e se p"
    by auto
  note phase = in_phase_lost [OF assms(2) [unfolded a]]
  from rel(1) assms(3) have
    c: "client_session st = \<lparr>group_id = gid, epoch = view_epoch V e\<rparr>"
      "member_at M V (connection (ep_handshake c)) gid client_leaf e None"
      "w \<Longrightarrow> waits_rel V gid st e r" "\<not> w \<Longrightarrow> client_internal st = ClientRunning"
    by (auto simp: client_rel_def split: if_splits)
  from rel(2) have s: "member_at M V (connection (ep_handshake s)) gid server_leaf se p"
    by (auto simp: server_rel_def)
  show ?thesis
  proof (cases "own_pending_update st")
    case None
    with rel(3) assms(3) phase c(3) have "se = e \<or> p = Some e \<and> view_epoch V e = view_epoch V se + 1"
      by (auto simp: follows_server_def client_update_of_def waits_rel_def)
    with None c s show ?thesis unfolding resumable_def by fastforce
  next
    case (Some u)
    then have w by (rule contrapos_pp) (use c(4) in \<open>simp add: own_pending_update_def\<close>)
    with c(3) Some have u: "view_commit V (pu_mls_message u) = Some (gid, client_leaf, r, e)"
      "exported V e = Ok (pu_traffic_secrets u)" by (simp_all add: waits_rel_def)
    from phase(1) show ?thesis
    proof
      assume "se = e"
      with Some u s show ?thesis unfolding confirmation_lost_def by blast
    next
      assume "w \<and> se = r"
      with Some u c s show ?thesis unfolding resumable_def by fastforce
    qed
  qed
qed

section \<open>Resumption succeeds\<close>

definition handshakes_serialise :: "'m tls_codec \<Rightarrow> bool" where
  "handshakes_serialise T \<longleftrightarrow> (\<forall>h. is_ok (MlsTlsHandshake_ser T h)) \<and> (\<forall>h. is_ok (ServerHello_ser T h))"

lemma handshake_bytes_total: "handshakes_serialise T \<Longrightarrow> \<exists>bs. handshake_bytes T h = Ok bs"
  by (simp add: handshakes_serialise_def handshake_bytes_def is_ok_iff)

lemma resume_total:
  assumes "mls_laws M V" "mls_total M V" "handshakes_serialise T" "resumable M V gid (st, conn) sconn"
  shows "\<exists>ts hello st' conn'. ClientHandshakeState_resume T M k (st, conn) = (Ok (ts, hello), (st', conn')) \<and>
    same_tables conn conn'"
proof (cases "own_pending_update st")
  case (Some p)
  obtain hello where
    "handshake_bytes T (MlsTlsHandshake_from (ResumptionPayload \<lparr>resumption_commit = pu_mls_message p\<rparr>)) = Ok hello"
    using handshake_bytes_total [OF assms(3)] by blast
  with Some show ?thesis
    by (auto simp: ClientHandshakeState_resume_def own_pending_update_def Let_def split: ClientInternalState.splits)
next
  case None
  from assms(4) obtain e where "member_at M V conn (group_id (client_session st)) client_leaf e None"
    by (auto simp: resumable_def)
  from MlsSession_update_total [OF assms(1,2) this] MlsSession_update_meaning [OF assms(1) this]
  obtain m conn1 e' where u: "MlsSession_update M (client_session st) conn k = (Ok m, conn1)"
    "member_at M V conn1 (group_id (client_session st)) client_leaf e (Some e')" by blast
  from MlsSession_merge_update_total [OF assms(1,2) u(2)] obtain ts session conn2 where
    g: "MlsSession_merge_update M (client_session st) conn1 = (Ok ts, (session, conn2))" by blast
  obtain hello where
    "handshake_bytes T (MlsTlsHandshake_from (ResumptionPayload \<lparr>resumption_commit = m\<rparr>)) = Ok hello"
    using handshake_bytes_total [OF assms(3)] by blast
  with None u(1) g MlsSession_update_tables [OF u(1)] MlsSession_merge_update_tables [OF g] show ?thesis
    by (auto simp: ClientHandshakeState_resume_def own_pending_update_def Let_def client_mls_update_def
        client_merge_update_def err_as_def split: ClientInternalState.splits intro: same_tables_trans)
qed

lemma server_resumption_total:
  assumes "signaling_total T" "mls_laws M V" "mls_total M V" "member_at M V conn gid server_leaf e0 pend"
    and "view_commit V m = Some (gid, client_leaf, e, e')" "epoch_in_range oc (view_epoch V e0)"
    and "e = e0 \<or> pend = Some e \<and> view_epoch V e = view_epoch V e0 + 1"
  shows "\<exists>sst ts ident answer conn'. process_resumption oc T M conn \<lparr>resumption_commit = m\<rparr> =
    (Ok (sst, ts, ident, answer), conn')"
proof -
  obtain ts session ident conn' where
    1: "process_mls_update oc M conn m True = (Ok (ts, session, ident), conn')"
    using process_mls_update_total [OF assms(2-5) _ _ assms(6), of True] assms(7) by auto
  have "exported V e' = Ok ts \<and> session = \<lparr>group_id = gid, epoch = view_epoch V e'\<rparr> \<and>
    member_at M V conn' gid server_leaf e' None \<and> same_tables conn conn'"
    by (rule process_mls_update_meaning [OF assms(2,4,5) _ _ 1]) (use assms(7) in auto)
  then have "member_at M V conn' (group_id session) server_leaf e' None" by simp
  from epoch_key_update_meaning(1) [OF assms(2) this] signaling_bytes_total [OF assms(1)] obtain answer where
    "create_connection_confirmation T M \<lparr>server_session = session, server_internal = ServerRunning\<rparr> conn' = Ok answer"
    by (auto simp: create_connection_confirmation_def)
  with 1 show ?thesis by (simp add: process_resumption_def Let_def)
qed

lemma confirmation_total:
  assumes "mls_laws M V" "member_at M V conn (group_id (client_session st)) me e pend" "db_works J conn"
    and "client_internal st = WaitingForConnectionConfirmation p"
    and "signaling_of_bytes T bs = Ok (ConnectionConfirmationMessage \<lparr>eku_epoch = view_epoch V e\<rparr>)"
  shows "\<exists>st' conn'. ClientHandshakeState_receive_signaling_message oc T J M k bs (st, conn) = (Ok (None, None), (st', conn'))"
proof -
  let ?st = "st\<lparr>client_internal := ClientRunning\<rparr>"
  have "member_at M V conn (group_id (client_session ?st)) me e pend" using assms(2) by simp
  note check = epoch_key_update_meaning(2) [OF assms(1) this]
  obtain conn' where "client_store_update J (?st, conn) = (Ok (), (?st, conn'))"
    using client_store_update_total [OF assms(3)] by blast
  with assms(4,5) check show ?thesis
    by (simp add: ClientHandshakeState_receive_signaling_message_def Let_def client_check_epoch_def
        HandshakeState_process_epoch_key_update_def)
qed

lemma resumable_session_resumes:
  assumes "tls_laws T" "mls_laws M V" "nothing_fails oc T M V" "handshakes_serialise T"
    and "resumable M V gid (st, conn) sconn" "db_works J conn"
  shows "\<exists>ts hello st1 conn1 sst ident answer sconn1 st2 conn2.
    ClientHandshakeState_resume T M ck (st, conn) = (Ok (ts, hello), (st1, conn1)) \<and>
    ServerHandshake_start oc T M sconn sk hello = (Ok (sst, ts, ident, answer), sconn1) \<and>
    ClientHandshakeState_receive_signaling_message oc T J M ck answer (st1, conn1) = (Ok (None, None), (st2, conn2)) \<and>
    (\<exists>e. established T M V gid e
       \<lparr>ep_handshake = \<lparr>leaf_signer = ck, connection = conn2, hs_state = ClientSide st2\<rparr>, ep_secrets = ts\<rparr>
       \<lparr>ep_handshake = \<lparr>leaf_signer = sk, connection = sconn1, hs_state = ServerSide sst\<rparr>, ep_secrets = ts\<rparr>)"
proof -
  note total = assms(3) [unfolded nothing_fails_def]
  from resume_total [OF assms(2) _ assms(4,5)] total obtain cts hello st1 conn1 where
    1: "ClientHandshakeState_resume T M ck (st, conn) = (Ok (cts, hello), (st1, conn1))" "same_tables conn conn1" by blast
  from resume_meaning [OF assms(2,5) 1(1)] obtain m p e e' e0 pend where
    r: "handshake_bytes T (MlsTlsHandshake_from (ResumptionPayload \<lparr>resumption_commit = m\<rparr>)) = Ok hello"
      "view_commit V m = Some (gid, client_leaf, e, e')" "member_at M V conn1 gid client_leaf e' None"
      "member_at M V sconn gid server_leaf e0 pend" "e = e0 \<or> pend = Some e \<and> view_epoch V e = view_epoch V e0 + 1" and
    st1: "st1 = st\<lparr>client_session := \<lparr>group_id = gid, epoch = view_epoch V e'\<rparr>,
      client_internal := WaitingForConnectionConfirmation p\<rparr>" by blast
  from server_resumption_total [OF _ assms(2) _ r(4,2) _ r(5)] total obtain sst sts ident answer sconn1 where
    p: "process_resumption oc T M sconn \<lparr>resumption_commit = m\<rparr> = (Ok (sst, sts, ident, answer), sconn1)" by blast
  then have 2: "ServerHandshake_start oc T M sconn sk hello = (Ok (sst, sts, ident, answer), sconn1)"
    using server_resumption_start [OF assms(1) r(1), of oc M sconn sk] by simp
  note s = server_resumption_meaning [OF assms(1,2) r(4,2,5) p]
  have "member_at M V conn1 (group_id (client_session st1)) client_leaf e' None" using r(3) st1 by simp
  moreover have "db_works J conn1" using same_tables_db_works [OF 1(2), of J] assms(6) by simp
  moreover have "client_internal st1 = WaitingForConnectionConfirmation p" using st1 by simp
  moreover have "signaling_of_bytes T answer = Ok (ConnectionConfirmationMessage \<lparr>eku_epoch = view_epoch V e'\<rparr>)" using s by blast
  ultimately obtain st2 conn2 where
    3: "ClientHandshakeState_receive_signaling_message oc T J M ck answer (st1, conn1) = (Ok (None, None), (st2, conn2))"
    using confirmation_total [OF assms(2)] by blast
  from resumption_establishes [OF assms(1,2,5) 1(1) 2 3] have same: "sts = cts" and
    est: "\<exists>e. established T M V gid e
       \<lparr>ep_handshake = \<lparr>leaf_signer = ck, connection = conn2, hs_state = ClientSide st2\<rparr>, ep_secrets = cts\<rparr>
       \<lparr>ep_handshake = \<lparr>leaf_signer = sk, connection = sconn1, hs_state = ServerSide sst\<rparr>, ep_secrets = sts\<rparr>"
    by auto
  show ?thesis
    by (intro exI) (rule conjI [OF 1(1) conjI [OF 2 [unfolded same] conjI [OF 3 est [unfolded same]]]])
qed

section \<open>The stored state follows the client\<close>

definition end_persisted :: "'m json \<Rightarrow> Uuid \<Rightarrow> ('s, 'm) endpoint \<Rightarrow> bool" where
  "end_persisted J pid c \<longleftrightarrow> (\<exists>st. hs_state (ep_handshake c) = ClientSide st \<and> profile_id st = pid \<and>
     persisted J (st, connection (ep_handshake c)))"

lemma client_update_persisted:
  assumes "end_persisted J pid c" "endpoint_update T J M False c = (Ok out, c')"
  shows "end_persisted J pid c'"
proof -
  from assms(1) obtain st where st: "hs_state (ep_handshake c) = ClientSide st" "profile_id st = pid"
    "persisted J (st, connection (ep_handshake c))" by (auto simp: end_persisted_def)
  from assms(2) st(1) obtain x st' conn' where
    u: "ClientHandshakeState_update T J M (leaf_signer (ep_handshake c)) False (st, connection (ep_handshake c))
          = (Ok x, (st', conn'))" "hs_state (ep_handshake c') = ClientSide st'" "connection (ep_handshake c') = conn'"
    by (auto simp: endpoint_update_def MlsHandshake_update_handshake_def bindS_eq_Ok split: prod.splits)
  from update_persists [OF st(3) u(1)] u(2,3) st(2) show ?thesis by (simp add: end_persisted_def)
qed

lemma client_signal_persisted:
  assumes "end_persisted J pid c" "endpoint_signal oc T J M False bs c = (Ok out, c')"
  shows "end_persisted J pid c'"
proof -
  from assms(1) obtain st where st: "hs_state (ep_handshake c) = ClientSide st" "profile_id st = pid"
    "persisted J (st, connection (ep_handshake c))" by (auto simp: end_persisted_def)
  from assms(2) st(1) show ?thesis
    by (rule client_signal_cases) (use receive_persists [OF st(3)] st(2) in \<open>fastforce simp: end_persisted_def\<close>)
qed

lemma run_persisted:
  assumes "(sys_step oc T J M)\<^sup>*\<^sup>* sys sys'" "end_persisted J pid (system_client sys)"
  shows "end_persisted J pid (system_client sys')"
  using assms
proof (induction rule: rtranclp_induct)
  case (step x y)
  have "end_persisted J pid (system_client x)" by (rule step.IH [OF step.prems])
  with step.hyps(2) show ?case
    by (induction rule: sys_step.induct) (auto dest: client_update_persisted client_signal_persisted)
qed simp

section \<open>Resumption from wherever the connection was lost\<close>

text \<open>
  The connection of two ends is lost at any moment, with any messages under way, and the client restarts.
  The state it loads from its database is the one it was in.  When nothing outside the protocol fails,
  its resumption message, the server's processing of it and the client's reception of the
  confirmation succeed.
\<close>

lemma disconnected_session_resumes:
  assumes "established T M V gid e c s" "nothing_fails oc T M V" "handshakes_serialise T" "end_persisted J pid c"
    and "(sys_step oc T J M)\<^sup>*\<^sup>* (System c s [] []) (System c' s' qs qc)"
  shows "\<exists>st. ClientHandshakeState_load J (connection (ep_handshake c')) pid =
      (Ok (Some st), connection (ep_handshake c')) \<and> group_id (client_session st) = gid \<and>
    (confirmation_lost M V gid st (connection (ep_handshake s')) \<or>
     (\<exists>ts hello st1 conn1 sst ident answer sconn1 st2 conn2.
        ClientHandshakeState_resume T M ck (st, connection (ep_handshake c')) = (Ok (ts, hello), (st1, conn1)) \<and>
        ServerHandshake_start oc T M (connection (ep_handshake s')) sk hello = (Ok (sst, ts, ident, answer), sconn1) \<and>
        ClientHandshakeState_receive_signaling_message oc T J M ck answer (st1, conn1) = (Ok (None, None), (st2, conn2)) \<and>
        (\<exists>e. established T M V gid e
           \<lparr>ep_handshake = \<lparr>leaf_signer = ck, connection = conn2, hs_state = ClientSide st2\<rparr>, ep_secrets = ts\<rparr>
           \<lparr>ep_handshake = \<lparr>leaf_signer = sk, connection = sconn1, hs_state = ServerSide sst\<rparr>, ep_secrets = ts\<rparr>)))"
proof -
  have "end_persisted J pid c'" using run_persisted [OF assms(5)] assms(4) by simp
  then obtain st where st: "hs_state (ep_handshake c') = ClientSide st" "profile_id st = pid"
    "persisted J (st, connection (ep_handshake c'))" by (auto simp: end_persisted_def)
  then have load: "ClientHandshakeState_load J (connection (ep_handshake c')) pid =
      (Ok (Some st), connection (ep_handshake c'))" and db: "db_works J (connection (ep_handshake c'))"
    by (auto simp: persisted_def handshake_table.lookup_entries table_ok_def)
  obtain a where a: "sync_rel T M V gid (System c' s' qs qc) a" "in_phase a"
    using established_reaches [OF assms(1,5)] by blast
  have gid: "group_id (client_session st) = gid" using a(1) st(1) by (cases a) (auto simp: client_rel_def)
  have laws: "tls_laws T" "mls_laws M V" using assms(1) by (simp_all add: established_def)
  show ?thesis
    by (rule exI [of _ st], rule conjI [OF load], rule conjI [OF gid],
        rule disj_forward [OF reachable_resumable [OF a st(1)]], assumption)
      (rule resumable_session_resumes [OF laws assms(2,3) _ db])
qed

lemma sym_handshakes_serialise: "handshakes_serialise sym_tls"
  unfolding handshakes_serialise_def
proof (intro conjI allI)
  fix h :: "sym_message MlsTlsHandshake"
  show "is_ok (MlsTlsHandshake_ser sym_tls h)"
    by (cases "payload h") (auto simp: MlsTlsHandshake_ser_def HandshakePayload_ser_def sym_tls_def std_codec_def
        fixed_field_def ser_seq_def ProtocolVersion_ser_def)
next
  fix h :: "sym_message ServerHello"
  show "is_ok (ServerHello_ser sym_tls h)"
    by (simp add: ServerHello_ser_def sym_tls_def std_codec_def fixed_field_def)
qed

end
