(* ===== verification/Handshake_Liveness.thy ===== *)
theory Handshake_Liveness
  imports Connecting Disconnection
begin

text \<open>
  The first handshake completes when nothing outside the program fails: the messages of both state
  machines are made and accepted, and both transports carry them.
\<close>

section \<open>The messages of the first handshake\<close>

text \<open>
  That joining a group does not fail: the client's key package is built and valid, the server's group
  is made, the owner of the key package can be added to it, and the welcome is accepted by the storage
  with which the key package was made.
\<close>

definition mls_can_join ::
    "('s, 'g, 'm, 'o) openmls \<Rightarrow> ('g, 'm, 'o, 'e) mls_view \<Rightarrow> Uuid \<Rightarrow> SignatureKeyPair \<Rightarrow> SignatureKeyPair \<Rightarrow> bool" where
  "mls_can_join M V client_id ck sk \<longleftrightarrow>
     (\<forall>s. \<exists>kp s' ko valid.
        mls_key_package_build M CIPHERSUITE capabilities ck
          \<lparr>credential = Basic client_id, signature_key = signer_public ck\<rparr> s = (Ok kp, s') \<and>
        mls_extract M kp = BodyKeyPackage ko \<and> mls_key_package_validate M ko = Ok valid \<and>
        (\<forall>t g gid e. group_at M V t g gid 0 e None \<longrightarrow> is_ok (fst (mls_add_members M g sk [valid] t))) \<and>
        (\<forall>t g wel g' t'. mls_add_members M g sk [valid] t = (Ok (wel, g'), t') \<longrightarrow>
           (\<exists>wo staged s1. mls_extract M wel = BodyWelcome wo \<and> mls_stage_welcome M wo s' = (Ok staged, s1) \<and>
              is_ok (fst (mls_into_group M staged s1))))) \<and>
     (\<forall>s uuid s'. mls_new_uuid M s = (uuid, s') \<longrightarrow>
        is_ok (fst (mls_group_build M uuid capabilities CIPHERSUITE sk
          \<lparr>credential = Basic (ascii ''server''), signature_key = signer_public sk\<rparr> s')))"

lemma outcome_ok: "is_ok (fst m) \<Longrightarrow> \<exists>x s. m = (Ok x, s)"
  by (cases m) (auto simp: is_ok_iff)

lemma create_server_session_total:
  assumes "mls_laws M V" "mls_joins M V" "mls_total M V"
    and "mls_key_package_validate M ko = Ok valid" "mls_key_package_credential M valid = Basic client_id"
    and "\<And>t g gid e. group_at M V t g gid 0 e None \<Longrightarrow> is_ok (fst (mls_add_members M g sk [valid] t))"
    and "\<And>s uuid s'. mls_new_uuid M s = (uuid, s') \<Longrightarrow>
        is_ok (fst (mls_group_build M uuid capabilities CIPHERSUITE sk
          \<lparr>credential = Basic (ascii ''server''), signature_key = signer_public sk\<rparr> s'))"
  shows "\<exists>session ts wel conn' t g t' g'. create_server_session M conn sk ko = (Ok (session, ts, ClientIdentity client_id, wel), conn') \<and>
    mls_add_members M g sk [valid] t = (Ok (wel, g'), t')"
proof -
  obtain uuid s0 where u: "mls_new_uuid M (mls_storage conn) = (uuid, s0)" by fastforce
  obtain g1 s1 where 1: "mls_group_build M uuid capabilities CIPHERSUITE sk
      \<lparr>credential = Basic (ascii ''server''), signature_key = signer_public sk\<rparr> s0 = (Ok g1, s1)"
    using outcome_ok [OF assms(7) [OF u]] by blast
  from mls_join_steps(1) [OF assms(2) 1] obtain e0 where e0: "group_at M V s1 g1 uuid 0 e0 None" by blast
  obtain wel g2 s2 where 2: "mls_add_members M g1 sk [valid] s1 = (Ok (wel, g2), s2)"
    using outcome_ok [OF assms(6) [OF e0]] by fastforce
  from mls_join_steps(2) [OF assms(2) e0 2] obtain e where e: "group_at M V s2 g2 uuid 0 e0 (Some e)" by blast
  obtain g3 s3 where 3: "mls_merge_pending_commit M g2 s2 = (Ok g3, s3)" using mls_total_steps(2) [OF assms(3) e] by blast
  obtain ts where "exported V e = Ok ts" using exported_total [OF assms(3)] by blast
  then have "export_traffic_secrets M g3 = Ok ts"
    using export_traffic_secrets_exported [OF assms(1) mls_commit_steps(2) [OF assms(1) e 3]] by simp
  with assms(4,5) u 1 2 3 show ?thesis by (auto simp: create_server_session_def Let_def)
qed

lemma receive_server_hello_total:
  assumes "tls_laws T" "mls_laws M V" "mls_joins M V" "mls_total M V"
    and "ServerHello_ser T \<lparr>hello_welcome = wel\<rparr> = Ok answer" "view_welcome V wel = Some (gid, e, server_verifying_key wait)"
    and "mls_extract M wel = BodyWelcome wo" "mls_stage_welcome M wo (mls_storage conn) = (Ok staged, s1)"
    and "is_ok (fst (mls_into_group M staged s1))"
  shows "\<exists>st ts conn'. receive_server_hello T M wait conn answer = (Ok (st, ts), conn')"
proof -
  have de: "tls_deserialize_exact (ServerHello_de T) answer = Ok \<lparr>hello_welcome = wel\<rparr>"
    by (rule server_hello.exact_roundtrip [OF assms(1,5)])
  note st = mls_join_steps(3) [OF assms(3,6,7,8)]
  obtain g s2 where g: "mls_into_group M staged s1 = (Ok g, s2)" using outcome_ok [OF assms(9)] by blast
  from st have "view_staged_welcome V staged = Some (gid, e, server_verifying_key wait)" by blast
  note ga = mls_join_steps(4) [OF assms(3) this g]
  obtain ts where "exported V e = Ok ts" using exported_total [OF assms(4)] by blast
  with export_traffic_secrets_exported [OF assms(2) ga] have "export_traffic_secrets M g = Ok ts" by simp
  with de st assms(7,8) g show ?thesis by (simp add: receive_server_hello_def Let_def)
qed

lemma first_handshake_total:
  assumes "tls_laws T" "mls_laws M V" "mls_joins M V" "mls_total M V" "mls_key_packages M"
    and "mls_can_join M V client_id ck sk" "handshakes_serialise T"
  shows "\<exists>wait hello conn1 sst ts answer sconn1 cst conn2.
    ClientHandshake_start T M conn ck (signer_public sk) client_id = (Ok (wait, hello), conn1) \<and>
    ServerHandshake_start oc T M sconn sk hello = (Ok (sst, ts, ClientIdentity client_id, answer), sconn1) \<and>
    receive_server_hello T M wait conn1 answer = (Ok (cst, ts), conn2)"
proof -
  let ?cwk = "\<lparr>credential = Basic client_id, signature_key = signer_public ck\<rparr>"
  from assms(6) obtain kp s' ko valid where
    kp: "mls_key_package_build M CIPHERSUITE capabilities ck ?cwk (mls_storage conn) = (Ok kp, s')"
      "mls_extract M kp = BodyKeyPackage ko" "mls_key_package_validate M ko = Ok valid" and
    add: "\<And>t g gid e. group_at M V t g gid 0 e None \<Longrightarrow> is_ok (fst (mls_add_members M g sk [valid] t))" and
    wel: "\<And>t g wel g' t'. mls_add_members M g sk [valid] t = (Ok (wel, g'), t') \<Longrightarrow>
       \<exists>wo staged s1. mls_extract M wel = BodyWelcome wo \<and> mls_stage_welcome M wo s' = (Ok staged, s1) \<and>
         is_ok (fst (mls_into_group M staged s1))"
    unfolding mls_can_join_def by blast
  let ?wait = "\<lparr>hello_profile_id = client_id, server_verifying_key = signer_public sk\<rparr>"
    and ?h = "MlsTlsHandshake_from (ClientHelloPayload \<lparr>key_package = kp\<rparr>)" and ?conn1 = "conn\<lparr>mls_storage := s'\<rparr>"
  obtain hello where hello: "handshake_bytes T ?h = Ok hello" using handshake_bytes_total [OF assms(7)] by blast
  then have start: "ClientHandshake_start T M conn ck (signer_public sk) client_id = (Ok (?wait, hello), ?conn1)"
    using kp(1) by (simp add: ClientHandshake_start_def)
  have cred: "mls_key_package_credential M valid = Basic client_id"
    using assms(5) kp unfolding mls_key_packages_def by fastforce
  have build: "\<And>s uuid s'. mls_new_uuid M s = (uuid, s') \<Longrightarrow>
        is_ok (fst (mls_group_build M uuid capabilities CIPHERSUITE sk
          \<lparr>credential = Basic (ascii ''server''), signature_key = signer_public sk\<rparr> s'))"
    using assms(6) unfolding mls_can_join_def by blast
  have "\<exists>session ts w sconn1 t g t' g'. create_server_session M sconn sk ko = (Ok (session, ts, ClientIdentity client_id, w), sconn1) \<and>
      mls_add_members M g sk [valid] t = (Ok (w, g'), t')"
    by (rule create_server_session_total [OF assms(2-4) kp(3) cred]) (fact add, fact build)
  then obtain session ts w sconn1 t g t' g' where
    s: "create_server_session M sconn sk ko = (Ok (session, ts, ClientIdentity client_id, w), sconn1)"
      "mls_add_members M g sk [valid] t = (Ok (w, g'), t')" by blast
  obtain answer where answer: "ServerHello_ser T \<lparr>hello_welcome = w\<rparr> = Ok answer"
    using assms(7) by (auto simp: handshakes_serialise_def is_ok_iff)
  have "tls_deserialize_exact (MlsTlsHandshake_de T) hello = Ok ?h"
    using hello mls_tls_handshake.exact_roundtrip [OF assms(1)] by (simp add: handshake_bytes_def)
  with s(1) kp(2) answer have server: "ServerHandshake_start oc T M sconn sk hello =
      (Ok (\<lparr>server_session = session, server_internal = ServerRunning\<rparr>, ts, ClientIdentity client_id, answer), sconn1)"
    by (simp add: ServerHandshake_start_def process_client_hello_def check_version_def MlsTlsHandshake_from_def)
  from create_server_session_meaning [OF assms(2,3) s(1)] obtain gid e where
    "view_welcome V w = Some (gid, e, server_verifying_key ?wait)" by auto
  moreover from wel [OF s(2)] obtain wo staged s1 where
    "mls_extract M w = BodyWelcome wo" "mls_stage_welcome M wo (mls_storage ?conn1) = (Ok staged, s1)"
      "is_ok (fst (mls_into_group M staged s1))" by auto
  ultimately obtain cst cts conn2 where receive: "receive_server_hello T M ?wait ?conn1 answer = (Ok (cst, cts), conn2)"
    using receive_server_hello_total [OF assms(1-4) answer] by blast
  from handshake_establishes [OF assms(1-3,5) start server receive] have "cts = ts" by blast
  with start server receive show ?thesis by blast
qed

section \<open>The handshake objects\<close>

lemma client_handshake_runs:
  assumes "ClientHandshakeState_create_table conn = (Ok (), conn')" "ClientHandshakeState_delete J M conn' client_id = (Ok (), conn0)"
    and "ClientHandshake_start T M conn0 ck vk client_id = (Ok (wait, hello), conn1)"
    and "tx_send X hello t = Some (Ok (), t1)" "rx_next X t1 = Some (Some (Ok pkt), t')"
    and "receive_server_hello T M wait conn1 (data pkt) = (Ok (cst, ts), conn2)"
    and "ClientHandshakeState_store J cst conn2 = (Ok (), conn3)"
  shows "MlsHandshake_client_handshake T J M X client_id vk (MlsHandshake_new conn ck, t) =
    Some (Ok ts, (\<lparr>leaf_signer = ck, connection = conn3, hs_state = ClientSide cst\<rparr>, t'))"
  using assms by (simp add: MlsHandshake_client_handshake_def on_connection_def send_message_def read_message_def MlsHandshake_new_def)

lemma server_handshake_runs:
  assumes "rx_next X t = Some (Some (Ok pkt), t1)"
    and "ServerHandshake_start oc T M conn sk (data pkt) = (Ok (sst, ts, ident, answer), conn1)"
    and "tx_send X answer t1 = Some (Ok (), t')"
  shows "MlsHandshake_server_handshake oc T M X (MlsHandshake_new conn sk, t) =
    Some (Ok (ts, ident), (\<lparr>leaf_signer = sk, connection = conn1, hs_state = ServerSide sst\<rparr>, t'))"
  using assms by (simp add: MlsHandshake_server_handshake_def on_connection_def send_message_def read_message_def MlsHandshake_new_def)

section \<open>The transports\<close>

lemma plain_says:
  assumes "undisturbed E"
  shows "\<exists>i'. tx_send (unprotected_transport E) bs (rd, (i, log)) = Some (Ok (), (rd, (i', log @ [bs])))"
proof -
  from assms obtain S where S: "always_ready S" "env_writer E = recording S" by (auto simp: undisturbed_def)
  obtain i1 where 1: "sink_poll_ready S i = (Ready (Ok ()), i1)" using S(1) unfolding always_ready_def by (metis prod.collapse)
  obtain i2 where 2: "sink_start_send S i1 bs = (Ok (), i2)" using S(1) unfolding always_ready_def by (metis prod.collapse)
  obtain i3 where 3: "sink_poll_flush S i2 = (Ready (Ok ()), i3)" using S(1) unfolding always_ready_def by (metis prod.collapse)
  from 1 2 3 S(2) show ?thesis by (simp add: unprotected_transport_def sink_send_def)
qed

lemma plain_hears:
  "connects E \<Longrightarrow> rx_next (unprotected_transport E) (pkt # rd, w) = Some (Some (Ok pkt), (rd, w))"
  by (simp add: unprotected_transport_def connects_def)

lemma tunnel_says:
  assumes "undisturbed E" "keyed ts b (contents (ch_cipher ch))" "suite_of (contents (ch_cipher ch)) = suite_in E"
    and "max_frame_size (contents (ch_cipher ch)) = TLS_MAX_RECORD_SIZE" "\<not> poisoned (ch_cipher ch)"
  shows "\<exists>ch'. tx_send (protected_transport E) bs ch = Some (Ok (), ch')"
proof -
  from assms(1) obtain S where S: "always_ready S" "env_writer E = recording S" by (auto simp: undisturbed_def)
  obtain k where k: "TlsAeadSink_poll_ready (recording S) (ch_writer ch) = (Ready (Ok ()), k)" "buffer k = []"
    using sink_polls_ready(1) [OF S(1)] by blast
  obtain m k1 where start: "TlsAeadSink_start_send (env_checks E) (ch_cipher ch, k) bs = (Ok (), (m, k1))"
    using start_send_total [OF assms k(2)] by blast
  obtain k' where "TlsAeadSink_poll_flush (recording S) k1 = (Ready (Ok ()), k')"
    using sink_polls_ready(2) [OF S(1)] by blast
  with S k start show ?thesis
    by (simp add: protected_transport_def sink_send_def poll_at_def channels_start_send_def)
qed

lemma new_channels_total:
  assumes "crypto_total C KEY_SCHEDULE_HASH_FUNCTION AEAD_ALGORITHM"
  shows "\<exists>ch. ProtectedChannels_new C b rd w ts = Ok ch"
proof -
  obtain ck civ sk siv where
    "expand_client_secret C KEY_SCHEDULE_HASH_FUNCTION (client_secret ts) [] AEAD_ALGORITHM = Ok (ck, civ)"
    "expand_server_secret C KEY_SCHEDULE_HASH_FUNCTION (server_secret ts) [] AEAD_ALGORITHM = Ok (sk, siv)"
    using expand_total [OF assms] by (metis surj_pair)
  then show ?thesis
    by (simp add: ProtectedChannels_new_def TlsAeadCodec_new_def generate_keys_def case_prod_unfold)
qed

section \<open>The tables under the first handshake\<close>

lemma delete_entries:
  assumes "table_ok J conn" "ClientHandshakeState_delete J M conn pid = (Ok (), conn')"
  shows "table_ok J conn' \<and> states_of J conn' = (states_of J conn)(pid := None)"
proof (cases "states_of J conn pid")
  case None
  with assms handshake_table.lookup_entries [OF assms(1), of pid] show ?thesis
    by (auto simp: ClientHandshakeState_delete_def)
next
  case (Some st)
  with assms(2) handshake_table.lookup_entries [OF assms(1), of pid] obtain conn1 where
    1: "MlsSession_delete M (client_session st) conn = (Ok (), conn1)" and
    2: "err_as PersistenceError (delete_rows (\<lambda>row. row_profile_id row = pid) conn1) = (Ok (), conn')"
    by (auto simp: ClientHandshakeState_delete_def bindS_eq_Ok)
  from MlsSession_delete_frame [OF 1] assms(1) have "table_ok J conn1" "states_of J conn1 = states_of J conn"
    by (auto simp: table_ok_storage states_of_storage)
  with delete_rows_filter [OF this(1), of pid] 2 show ?thesis by (auto simp: err_as_def)
qed

lemma first_messages_tables:
  "ClientHandshake_start T M conn k vk client_id = (Ok (wait, hello), conn') \<Longrightarrow>
     same_tables conn conn' \<and> hello_profile_id wait = client_id"
  by (auto simp: ClientHandshake_start_def Let_def bindS_eq_Ok with_provider_Ok_iff)

lemma server_hello_tables:
  assumes "receive_server_hello T M wait conn answer = (Ok (st, ts), conn')"
  shows "same_tables conn conn' \<and> profile_id st = hello_profile_id wait"
proof (cases "tls_deserialize_exact (ServerHello_de T) answer")
  case (Ok h)
  with assms show ?thesis
    by (cases "mls_extract M (hello_welcome h)")
      (auto simp: receive_server_hello_def bindS_eq_Ok with_provider_Ok_iff Let_def same_tables_def split: if_splits)
qed (use assms in \<open>simp_all add: receive_server_hello_def\<close>)

section \<open>Both roles, over either transport\<close>

lemma exchange_total:
  assumes "tls_laws (env_tls E)" "mls_laws (env_mls E) V" "mls_joins (env_mls E) V" "mls_total (env_mls E) V"
    and "mls_key_packages (env_mls E)" "mls_can_join (env_mls E) V client_id ck sk" "handshakes_serialise (env_tls E)"
    and "ClientHandshakeState_create_table cconn = (Ok (), conn)" "table_ok (env_json E) conn"
    and "ClientHandshakeState_delete (env_json E) (env_mls E) conn client_id = (Ok (), conn0)"
  shows "\<exists>hello answer chs ts shs.
    exchanged E client_id (signer_public sk) cconn ck sconn sk hello answer chs ts shs ts (ClientIdentity client_id)"
proof -
  from first_handshake_total [OF assms(1-7), where conn = conn0 and oc = "env_checks E" and sconn = sconn] obtain wait hello conn1 sst ts answer sconn1 cst conn2 where
    h: "ClientHandshake_start (env_tls E) (env_mls E) conn0 ck (signer_public sk) client_id = (Ok (wait, hello), conn1)"
      "ServerHandshake_start (env_checks E) (env_tls E) (env_mls E) sconn sk hello =
        (Ok (sst, ts, ClientIdentity client_id, answer), sconn1)"
      "receive_server_hello (env_tls E) (env_mls E) wait conn1 answer = (Ok (cst, ts), conn2)" by blast
  from first_messages_tables [OF h(1)] server_hello_tables [OF h(3)] have
    t: "same_tables conn0 conn2" "profile_id cst = client_id" by (auto intro: same_tables_trans)
  with delete_entries [OF assms(9,10)] have ok: "table_ok (env_json E) conn2" and none: "states_of (env_json E) conn2 (profile_id cst) = None"
    by (simp_all add: table_ok_same_tables states_of_same_tables)
  from handshake_table.add_new [OF ok none] obtain conn3 where "ClientHandshakeState_store (env_json E) cst conn2 = (Ok (), conn3)"
    by blast
  with assms(8,10) h show ?thesis unfolding exchanged_def by blast
qed

lemma plain_handshake_runs:
  assumes "connects E" "undisturbed E" "exchanged E client_id vk cconn ck sconn sk hello answer chs cts shs sts ident"
  shows "\<exists>cch. UnprotectedHandshakeState_client_handshake E client_id vk ([packet answer], (ci, [])) (MlsHandshake_new cconn ck)
      = Some (Ok cch, chs) \<and> delivered (ch_writer cch) = [hello]"
    "\<exists>sch. UnprotectedHandshakeState_server_handshake E ([packet hello], (si, [])) (MlsHandshake_new sconn sk)
      = Some (Ok (sch, ident), shs) \<and> delivered (ch_writer sch) = [answer]"
proof -
  let ?X = "unprotected_transport E"
  have crypto: "crypto_total (env_crypto E) KEY_SCHEDULE_HASH_FUNCTION AEAD_ALGORITHM" using assms(2) by (simp add: undisturbed_def)
  from assms(3) obtain conn conn0 wait conn1 cst conn2 conn3 sst sconn1 where
    c: "ClientHandshakeState_create_table cconn = (Ok (), conn)"
      "ClientHandshakeState_delete (env_json E) (env_mls E) conn client_id = (Ok (), conn0)"
      "ClientHandshake_start (env_tls E) (env_mls E) conn0 ck vk client_id = (Ok (wait, hello), conn1)"
      "receive_server_hello (env_tls E) (env_mls E) wait conn1 answer = (Ok (cst, cts), conn2)"
      "ClientHandshakeState_store (env_json E) cst conn2 = (Ok (), conn3)"
      "chs = \<lparr>leaf_signer = ck, connection = conn3, hs_state = ClientSide cst\<rparr>" and
    s: "ServerHandshake_start (env_checks E) (env_tls E) (env_mls E) sconn sk hello = (Ok (sst, sts, ident, answer), sconn1)"
      "shs = \<lparr>leaf_signer = sk, connection = sconn1, hs_state = ServerSide sst\<rparr>"
    unfolding exchanged_def by blast
  obtain i where says: "tx_send ?X hello ([packet answer], (ci, [])) = Some (Ok (), ([packet answer], (i, [hello])))"
    using plain_says [OF assms(2), of hello "[packet answer]" ci "[]"] by auto
  obtain cch where cch: "ProtectedChannels_new (env_crypto E) False ([] :: TlsPacketIn list) (i, [hello]) cts = Ok cch"
    using new_channels_total [OF crypto, of False "[]" "(i, [hello])" cts] by blast
  have "receive_server_hello (env_tls E) (env_mls E) wait conn1 (data (packet answer)) = (Ok (cst, cts), conn2)"
    using c(4) by simp
  from client_handshake_runs [OF c(1-3) says plain_hears [OF assms(1)] this c(5)] cch delivered_new [OF cch] c(6)
  show "\<exists>cch. UnprotectedHandshakeState_client_handshake E client_id vk ([packet answer], (ci, [])) (MlsHandshake_new cconn ck)
      = Some (Ok cch, chs) \<and> delivered (ch_writer cch) = [hello]"
    by (simp add: UnprotectedHandshakeState_client_handshake_def)
  obtain i' where says': "tx_send ?X answer ([], (si, [])) = Some (Ok (), ([], (i', [answer])))"
    using plain_says [OF assms(2), of answer "[]" si "[]"] by auto
  obtain sch where sch: "ProtectedChannels_new (env_crypto E) True ([] :: TlsPacketIn list) (i', [answer]) sts = Ok sch"
    using new_channels_total [OF crypto, of True "[]" "(i', [answer])" sts] by blast
  have "ServerHandshake_start (env_checks E) (env_tls E) (env_mls E) sconn sk (data (packet hello)) = (Ok (sst, sts, ident, answer), sconn1)"
    using s(1) by simp
  from server_handshake_runs [OF plain_hears [OF assms(1)] this says'] sch delivered_new [OF sch] s(2)
  show "\<exists>sch. UnprotectedHandshakeState_server_handshake E ([packet hello], (si, [])) (MlsHandshake_new sconn sk)
      = Some (Ok (sch, ident), shs) \<and> delivered (ch_writer sch) = [answer]"
    by (simp add: UnprotectedHandshakeState_server_handshake_def)
qed

text \<open>
  Through the pre-handshake's channels: \<open>ct\<close> is the record of what the other side says, made by a codec
  that is linked with the one of this side.
\<close>

lemma tunnel_exchange_total:
  assumes "connects E" "undisturbed E" "keyed ts b (contents (ch_cipher ch))" "suite_of (contents (ch_cipher ch)) = suite_in E"
    and "max_frame_size (contents (ch_cipher ch)) = TLS_MAX_RECORD_SIZE" "\<not> poisoned (ch_cipher ch)" "buffer (ch_writer ch) = []"
    and "fits_record bs" "seal_record (env_checks E) (contents (ch_cipher ch)) bs = (Ok ct, c)"
  shows "\<exists>ch'. tx_send (protected_transport E) bs ch = Some (Ok (), ch') \<and>
    ch_cipher ch' = \<lparr>contents = (contents (ch_cipher ch))\<lparr>send_seq := send_seq (contents (ch_cipher ch)) + 1\<rparr>, poisoned = False\<rparr> \<and>
    ch_reader ch' = ch_reader ch \<and> delivered (ch_writer ch') = delivered (ch_writer ch) @ [ct] \<and> buffer (ch_writer ch') = []"
proof -
  obtain ch' where say: "tx_send (protected_transport E) bs ch = Some (Ok (), ch')" using tunnel_says [OF assms(2-6)] by blast
  from protected_says [OF assms(1) say] obtain cts c' where
    e: "encrypt_message (env_checks E) (contents (ch_cipher ch)) bs = (Ok cts, c')"
      "ch_cipher ch' = \<lparr>contents = c', poisoned = False\<rparr>" "ch_reader ch' = ch_reader ch"
      "delivered (ch_writer ch') = delivered (ch_writer ch) @ cts" "buffer (ch_writer ch') = []"
    using assms(7) by auto
  from encrypt_one_record [OF e(1) assms(8,5)] assms(9) say e show ?thesis by auto
qed

lemma record_total:
  assumes "undisturbed E" "keyed ts b c" "suite_of c = suite_in E" "max_frame_size c = TLS_MAX_RECORD_SIZE" "fits_record bs"
  shows "\<exists>ct. seal_record (env_checks E) c bs = (Ok ct, c\<lparr>send_seq := send_seq c + 1\<rparr>)"
proof -
  have "\<exists>cts c'. encrypt_message False c bs = (Ok cts, c')"
    by (rule encrypt_message_total [OF _ assms(4,2)]) (use assms(1,3) in \<open>auto simp: undisturbed_def suite_of_def\<close>)
  with encrypt_one_record [OF _ assms(5,4)] assms(1) show ?thesis by (fastforce simp: undisturbed_def)
qed

lemma tunnel_client_runs:
  assumes E: "connects E" "undisturbed E" and ch: "ProtectedChannels_new (env_crypto E) False [packet ca] (ci, []) ts0 = Ok ch"
    and c: "ClientHandshakeState_create_table cconn = (Ok (), conn)"
      "ClientHandshakeState_delete (env_json E) (env_mls E) conn client_id = (Ok (), conn0)"
      "ClientHandshake_start (env_tls E) (env_mls E) conn0 ck vk client_id = (Ok (wait, hello), conn1)"
      "receive_server_hello (env_tls E) (env_mls E) wait conn1 answer = (Ok (cst, cts), conn2)"
      "ClientHandshakeState_store (env_json E) cst conn2 = (Ok (), conn3)"
    and r: "fits_record hello" "seal_record (env_checks E) (contents (ch_cipher ch)) hello = (Ok ct, c1)"
      "linked s (contents (ch_cipher ch))" "seal_record (env_checks E) s answer = (Ok ca, s')"
  shows "\<exists>ch'. ProtectedHandshakeState_client_handshake E client_id vk ch (MlsHandshake_new cconn ck) =
    Some (Ok ch', \<lparr>leaf_signer = ck, connection = conn3, hs_state = ClientSide cst\<rparr>) \<and> delivered (ch_writer ch') = [ct]"
proof -
  note n = new_channels [OF ch] delivered_new [OF ch]
  obtain ch1 where
    say: "tx_send (protected_transport E) hello ch = Some (Ok (), ch1)"
      "ch_cipher ch1 = \<lparr>contents = (contents (ch_cipher ch))\<lparr>send_seq := send_seq (contents (ch_cipher ch)) + 1\<rparr>, poisoned = False\<rparr>"
      "ch_reader ch1 = [packet ca]" "delivered (ch_writer ch1) = [ct]"
    using tunnel_exchange_total [OF E n(1,2,3,5,4) r(1,2)] n(8,9) by auto
  have "linked s (contents (ch_cipher ch1))" using linked_seq [OF r(3), of "recv_seq s"] say(2) by simp
  note hear = tunnel_hears [OF E(1) this r(4) say(3)]
  let ?ch2 = "ch1\<lparr>ch_cipher := \<lparr>contents = (contents (ch_cipher ch1))\<lparr>recv_seq := recv_seq (contents (ch_cipher ch1)) + 1\<rparr>,
      poisoned = False\<rparr>, ch_reader := []\<rparr>"
  have "suite_of (contents (ch_cipher ?ch2)) = suite_in E" "\<not> poisoned (ch_cipher ?ch2)"
    using say(2) n(2) by (simp_all add: suite_of_def)
  from channels_update_total [OF E(2) this] obtain c' where
    "ProtectedChannels_update_cipher False cts ?ch2 = (Ok (), ?ch2\<lparr>ch_cipher := \<lparr>contents = c', poisoned = False\<rparr>\<rparr>)"
    unfolding ProtectedChannels_update_cipher_def by blast
  moreover have "receive_server_hello (env_tls E) (env_mls E) wait conn1 (data ((packet ca)\<lparr>data := answer\<rparr>)) = (Ok (cst, cts), conn2)"
    using c(4) by simp
  note client_handshake_runs [OF c(1-3) say(1) hear this c(5)]
  ultimately show ?thesis using say(2,4) by (simp add: ProtectedHandshakeState_client_handshake_def)
qed

lemma tunnel_server_runs:
  assumes E: "connects E" "undisturbed E" and ch: "ProtectedChannels_new (env_crypto E) True [packet ct] (si, []) ts0 = Ok ch"
    and s: "ServerHandshake_start (env_checks E) (env_tls E) (env_mls E) sconn sk hello = (Ok (sst, sts, ident, answer), sconn1)"
    and r: "linked c (contents (ch_cipher ch))" "seal_record (env_checks E) c hello = (Ok ct, c1)" "fits_record answer"
      "seal_record (env_checks E) ((contents (ch_cipher ch))\<lparr>recv_seq := 1\<rparr>) answer = (Ok ca, s')"
  shows "\<exists>ch'. ProtectedHandshakeState_server_handshake E ch (MlsHandshake_new sconn sk) =
    Some (Ok (ch', ident), \<lparr>leaf_signer = sk, connection = sconn1, hs_state = ServerSide sst\<rparr>) \<and> delivered (ch_writer ch') = [ca]"
proof -
  note n = new_channels [OF ch] delivered_new [OF ch]
  let ?c1 = "(contents (ch_cipher ch))\<lparr>recv_seq := 1\<rparr>"
  let ?ch1 = "ch\<lparr>ch_cipher := \<lparr>contents = ?c1, poisoned = False\<rparr>, ch_reader := []\<rparr>"
  have hear: "rx_next (protected_transport E) ch = Some (Some (Ok ((packet ct)\<lparr>data := hello\<rparr>)), ?ch1)"
    using tunnel_hears [OF E(1) r(1,2) n(8,5)] n(7) by simp
  have "keyed ts0 True (contents (ch_cipher ?ch1))" "suite_of (contents (ch_cipher ?ch1)) = suite_in E"
    "max_frame_size (contents (ch_cipher ?ch1)) = TLS_MAX_RECORD_SIZE" "\<not> poisoned (ch_cipher ?ch1)" "buffer (ch_writer ?ch1) = []"
    "seal_record (env_checks E) (contents (ch_cipher ?ch1)) answer = (Ok ca, s')"
    using n r(4) by (simp_all add: keyed_def suite_of_def)
  from tunnel_exchange_total [OF E this(1-5) r(3) this(6)] obtain ch2 where
    say: "tx_send (protected_transport E) answer ?ch1 = Some (Ok (), ch2)"
      "ch_cipher ch2 = \<lparr>contents = ?c1\<lparr>send_seq := send_seq ?c1 + 1\<rparr>, poisoned = False\<rparr>" "delivered (ch_writer ch2) = [ca]"
    using n(9) by auto
  have "suite_of (contents (ch_cipher ch2)) = suite_in E" "\<not> poisoned (ch_cipher ch2)"
    using say(2) n(2) by (simp_all add: suite_of_def)
  from channels_update_total [OF E(2) this] obtain c' where
    "ProtectedChannels_update_cipher True sts ch2 = (Ok (), ch2\<lparr>ch_cipher := \<lparr>contents = c', poisoned = False\<rparr>\<rparr>)"
    unfolding ProtectedChannels_update_cipher_def by blast
  moreover have "ServerHandshake_start (env_checks E) (env_tls E) (env_mls E) sconn sk (data ((packet ct)\<lparr>data := hello\<rparr>)) =
      (Ok (sst, sts, ident, answer), sconn1)" using s by simp
  note server_handshake_runs [OF hear this say(1)]
  ultimately show ?thesis using say(3) by (simp add: ProtectedHandshakeState_server_handshake_def)
qed

lemma tunnel_handshake_runs:
  assumes E: "connects E" "undisturbed E" "aead_correct (env_crypto E) AEAD_ALGORITHM" "handshakes_fit (env_tls E)"
    and "exchanged E client_id vk cconn ck sconn sk hello answer chs cts shs sts ident"
  shows "\<exists>up down cch0 sch0 cch sch.
    ProtectedChannels_new (env_crypto E) False (map (\<lambda>d. packet d) down) (ci, []) ts0 = Ok cch0 \<and>
    ProtectedChannels_new (env_crypto E) True (map (\<lambda>d. packet d) up) (si, []) ts0 = Ok sch0 \<and>
    ProtectedHandshakeState_client_handshake E client_id vk cch0 (MlsHandshake_new cconn ck) = Some (Ok cch, chs) \<and>
    ProtectedHandshakeState_server_handshake E sch0 (MlsHandshake_new sconn sk) = Some (Ok (sch, ident), shs) \<and>
    delivered (ch_writer cch) = up \<and> delivered (ch_writer sch) = down"
proof -
  let ?new = "\<lambda>b (rd :: TlsPacketIn list) i. ProtectedChannels_new (env_crypto E) b rd (i, [] :: bytes list) ts0"
  have crypto: "crypto_total (env_crypto E) KEY_SCHEDULE_HASH_FUNCTION AEAD_ALGORITHM" using E(2) by (simp add: undisturbed_def)
  from assms(5) obtain conn conn0 wait conn1 cst conn2 conn3 sst sconn1 where
    c: "ClientHandshakeState_create_table cconn = (Ok (), conn)"
      "ClientHandshakeState_delete (env_json E) (env_mls E) conn client_id = (Ok (), conn0)"
      "ClientHandshake_start (env_tls E) (env_mls E) conn0 ck vk client_id = (Ok (wait, hello), conn1)"
      "receive_server_hello (env_tls E) (env_mls E) wait conn1 answer = (Ok (cst, cts), conn2)"
      "ClientHandshakeState_store (env_json E) cst conn2 = (Ok (), conn3)" and
    s: "ServerHandshake_start (env_checks E) (env_tls E) (env_mls E) sconn sk hello = (Ok (sst, sts, ident, answer), sconn1)" and
    hs: "chs = \<lparr>leaf_signer = ck, connection = conn3, hs_state = ClientSide cst\<rparr>"
      "shs = \<lparr>leaf_signer = sk, connection = sconn1, hs_state = ServerSide sst\<rparr>"
    unfolding exchanged_def by blast
  note fits = client_hello_fits [OF E(4) c(3)] server_answer_fits [OF E(4) s]
  obtain cch sch where new: "?new False [] ci = Ok cch" "?new True [] si = Ok sch"
    using new_channels_total [OF crypto, of False "[]" "(ci, [])" ts0] new_channels_total [OF crypto, of True "[]" "(si, [])" ts0] by blast
  let ?cc = "contents (ch_cipher cch)" and ?sc = "contents (ch_cipher sch)"
  note nc = new_channels [OF new(1)] and ns = new_channels [OF new(2)]
  note links = new_channels_linked [OF E(3) new]
  obtain ct where ct: "seal_record (env_checks E) ?cc hello = (Ok ct, ?cc\<lparr>send_seq := send_seq ?cc + 1\<rparr>)"
    using record_total [OF E(2) nc(1-3) fits(1)] by blast
  have "keyed ts0 True (?sc\<lparr>recv_seq := 1\<rparr>)" "suite_of (?sc\<lparr>recv_seq := 1\<rparr>) = suite_in E"
    "max_frame_size (?sc\<lparr>recv_seq := 1\<rparr>) = TLS_MAX_RECORD_SIZE"
    using ns by (simp_all add: keyed_def suite_of_def)
  from record_total [OF E(2) this fits(2)] obtain ca s' where
    ca: "seal_record (env_checks E) (?sc\<lparr>recv_seq := 1\<rparr>) answer = (Ok ca, s')" by blast
  have sl: "linked (?sc\<lparr>recv_seq := 1\<rparr>) ?cc" using linked_seq [OF links(2), of 1 "send_seq ?cc"] by simp
  have reader: "?new False [packet ca] ci = Ok (cch\<lparr>ch_reader := [packet ca]\<rparr>)" "?new True [packet ct] si = Ok (sch\<lparr>ch_reader := [packet ct]\<rparr>)"
    using new by (auto simp: ProtectedChannels_new_def)
  obtain cch' where client: "ProtectedHandshakeState_client_handshake E client_id vk (cch\<lparr>ch_reader := [packet ca]\<rparr>) (MlsHandshake_new cconn ck) =
      Some (Ok cch', chs)" "delivered (ch_writer cch') = [ct]"
    using tunnel_client_runs [OF E(1,2) reader(1) c fits(1) _ _ ca] ct sl hs(1) by auto
  obtain sch' where server: "ProtectedHandshakeState_server_handshake E (sch\<lparr>ch_reader := [packet ct]\<rparr>) (MlsHandshake_new sconn sk) =
      Some (Ok (sch', ident), shs)" "delivered (ch_writer sch') = [ca]"
    using tunnel_server_runs [OF E(1,2) reader(2) s _ ct fits(2)] links(1) ca hs(2) by auto
  show ?thesis
    by (intro exI [of _ "[ct]"] exI [of _ "[ca]"] exI conjI, simp, rule reader(1), simp, rule reader(2))
      (rule client server)+
qed

end
