(* ===== verification/End_To_End.thy ===== *)
theory End_To_End
  imports Handshake_Liveness
begin

text \<open>
  The guarantees of a whole connection, from the sockets on: two providers are made, with or without a
  pre-handshake, run the handshake, exchange bytes with key updates in between, lose the connection
  and resume.
\<close>

section \<open>A connection\<close>

text \<open>
  What a side brings: the address of its peer, the writing half of its socket, its policy.  Both roles
  make their providers on the two ends of a socket and complete \<^verbatim>\<open>handshake\<close>.  Each side's reader
  holds what the other side has written by then.
\<close>

record 'i side =
  peer_address :: string
  socket :: 'i
  side_policy :: UpdatePolicy

definition plain_connection ::
    "('s, 'g, 'm, 'o, TlsPacketIn list, 'i \<times> bytes list) env \<Rightarrow> 'i side \<Rightarrow> 'i side \<Rightarrow> Uuid \<Rightarrow> SignaturePublicKey
       \<Rightarrow> 's Connection \<Rightarrow> SignatureKeyPair \<Rightarrow> 's Connection \<Rightarrow> SignatureKeyPair
       \<Rightarrow> ('s, 'm, 'i) peer \<Rightarrow> ('s, 'm, 'i) peer \<Rightarrow> ClientIdentity \<Rightarrow> bool" where
  "plain_connection E cside sside client_id vk cconn ck sconn sk c s ident \<longleftrightarrow>
     (\<exists>pc ps cconn' sconn'.
        EncryptionProvider_new_from_stream (Ok (peer_address cside))
          (map (\<lambda>d. packet d) (delivered (writer_of s)), (socket cside, [])) (side_policy cside) = Ok pc \<and>
        EncryptionProvider_new_from_stream (Ok (peer_address sside))
          (map (\<lambda>d. packet d) (delivered (writer_of c)), (socket sside, [])) (side_policy sside) = Ok ps \<and>
        EncryptionProvider_client_handshake (UnprotectedHandshakeState_client_handshake E client_id vk) pc cconn ck
          = Some (Ok c, cconn') \<and>
        EncryptionProvider_server_handshake (UnprotectedHandshakeState_server_handshake E) ps sconn sk
          = Some (Ok (s, ident), sconn'))"

text \<open>The same after a pre-handshake, \<open>cpre\<close> on the client and \<open>spre\<close> on the server.\<close>

definition tunnelled_connection ::
    "('s, 'g, 'm, 'o, TlsPacketIn list, 'i \<times> bytes list) env
       \<Rightarrow> (bool \<Rightarrow> (string, HandshakeResult) res) \<Rightarrow> (bool \<Rightarrow> (string, HandshakeResult) res)
       \<Rightarrow> 'i side \<Rightarrow> 'i side \<Rightarrow> Uuid \<Rightarrow> SignaturePublicKey
       \<Rightarrow> 's Connection \<Rightarrow> SignatureKeyPair \<Rightarrow> 's Connection \<Rightarrow> SignatureKeyPair
       \<Rightarrow> ('s, 'm, 'i) peer \<Rightarrow> ('s, 'm, 'i) peer \<Rightarrow> ClientIdentity \<Rightarrow> bool" where
  "tunnelled_connection E cpre spre cside sside client_id vk cconn ck sconn sk c s ident \<longleftrightarrow>
     (\<exists>pc ps cconn' sconn'.
        EncryptionProvider_new_with_pre_handshake (env_crypto E) False (Ok (peer_address cside))
          (map (\<lambda>d. packet d) (delivered (writer_of s)), (socket cside, [])) (side_policy cside) cpre = Ok pc \<and>
        EncryptionProvider_new_with_pre_handshake (env_crypto E) True (Ok (peer_address sside))
          (map (\<lambda>d. packet d) (delivered (writer_of c)), (socket sside, [])) (side_policy sside) spre = Ok ps \<and>
        EncryptionProvider_client_handshake (\<lambda>st. ProtectedHandshakeState_client_handshake E client_id vk (ph_channels st)) pc cconn ck
          = Some (Ok c, cconn') \<and>
        EncryptionProvider_server_handshake (\<lambda>st. ProtectedHandshakeState_server_handshake E (ph_channels st)) ps sconn sk
          = Some (Ok (s, ident), sconn'))"

text \<open>A connection, of either kind; both sides have got the same secret from the pre-handshake.\<close>

inductive connection_made ::
    "('s, 'g, 'm, 'o, TlsPacketIn list, 'i \<times> bytes list) env \<Rightarrow> Uuid \<Rightarrow> SignaturePublicKey \<Rightarrow> 's Connection \<Rightarrow> SignatureKeyPair
       \<Rightarrow> 's Connection \<Rightarrow> SignatureKeyPair \<Rightarrow> ('s, 'm, 'i) peer \<Rightarrow> ('s, 'm, 'i) peer \<Rightarrow> ClientIdentity \<Rightarrow> bool"
  for E client_id vk cconn ck sconn sk where
  unprotected: "plain_connection E cside sside client_id vk cconn ck sconn sk c s ident \<Longrightarrow>
     connection_made E client_id vk cconn ck sconn sk c s ident"
| after_pre_handshake: "tunnelled_connection E cpre spre cside sside client_id vk cconn ck sconn sk c s ident \<Longrightarrow>
     cpre False = Ok cres \<Longrightarrow> spre True = Ok sres \<Longrightarrow> shared_secret cres = shared_secret sres \<Longrightarrow>
     connection_made E client_id vk cconn ck sconn sk c s ident"

definition fresh_network :: "('s, 'm, 'i) peer \<Rightarrow> ('s, 'm, 'i) peer \<Rightarrow> ('s, 'm, 'i) network" where
  "fresh_network c s = \<lparr>client_end = c, server_end = s, sent_up = [], got_up = [], sent_down = [], got_down = []\<rparr>"

text \<open>What the code outside the repository promises, and that it does not fail.\<close>

definition env_laws :: "('s, 'g, 'm, 'o, TlsPacketIn list, 'i \<times> bytes list) env \<Rightarrow> ('g, 'm, 'o, 'e) mls_view \<Rightarrow> bool" where
  "env_laws E V \<longleftrightarrow> connects E \<and> tls_laws (env_tls E) \<and> mls_laws (env_mls E) V \<and> mls_joins (env_mls E) V \<and>
     mls_key_packages (env_mls E) \<and> aead_correct (env_crypto E) AEAD_ALGORITHM \<and>
     signaling_fits (env_tls E) \<and> handshakes_fit (env_tls E)"

definition env_works :: "('s, 'g, 'm, 'o, TlsPacketIn list, 'i \<times> bytes list) env \<Rightarrow> ('g, 'm, 'o, 'e) mls_view \<Rightarrow> bool" where
  "env_works E V \<longleftrightarrow> undisturbed E \<and> nothing_fails (env_checks E) (env_tls E) (env_mls E) V \<and> handshakes_serialise (env_tls E)"

text \<open>The database in which the client creates its table, if there is none, and stores its state.\<close>

definition client_database :: "'m json \<Rightarrow> 's Connection \<Rightarrow> bool" where
  "client_database J conn \<longleftrightarrow> table_ok J (snd (ClientHandshakeState_create_table conn))"

lemma pre_handshake_provider:
  assumes "EncryptionProvider_new_with_pre_handshake C b addr halves policy pre = Ok p" "pre b = Ok r"
  shows "\<exists>ts. derive_traffic_secrets C (shared_secret r) = Ok ts \<and>
    ProtectedChannels_new C b (fst halves) (snd halves) ts = Ok (ph_channels (state p))"
  using assms by (auto simp: EncryptionProvider_new_with_pre_handshake_def)

lemma connection_made_opens:
  assumes "env_laws E V" "connection_made E client_id vk cconn ck sconn sk c s ident"
  shows "\<exists>cts sts. handshakes_complete E client_id vk cconn ck sconn sk (handshake (state c)) cts (handshake (state s)) sts ident \<and>
    opened E \<lparr>ep_handshake = handshake (state c), ep_secrets = cts\<rparr> \<lparr>ep_handshake = handshake (state s), ep_secrets = sts\<rparr>
      (fresh_network c s)"
  using assms(2)
proof cases
  case (unprotected cside sside)
  then obtain pc ps cconn' sconn' where
    p: "EncryptionProvider_new_from_stream (Ok (peer_address cside))
          (map (\<lambda>d. packet d) (delivered (writer_of s)), (socket cside, [])) (side_policy cside) = Ok pc"
      "EncryptionProvider_new_from_stream (Ok (peer_address sside))
          (map (\<lambda>d. packet d) (delivered (writer_of c)), (socket sside, [])) (side_policy sside) = Ok ps" and
    h: "EncryptionProvider_client_handshake (UnprotectedHandshakeState_client_handshake E client_id vk) pc cconn ck = Some (Ok c, cconn')"
      "EncryptionProvider_server_handshake (UnprotectedHandshakeState_server_handshake E) ps sconn sk = Some (Ok (s, ident), sconn')"
    unfolding plain_connection_def by blast
  have "plain_sockets E (state pc) (state ps) (delivered (writer_of c)) (delivered (writer_of s))"
    using assms(1) p by (auto simp: plain_sockets_def env_laws_def EncryptionProvider_new_from_stream_def)
  from unprotected.provider_handshake_opens [OF h this] show ?thesis unfolding fresh_network_def .
next
  case (after_pre_handshake cpre spre cside sside cres sres)
  then obtain pc ps cconn' sconn' where
    p: "EncryptionProvider_new_with_pre_handshake (env_crypto E) False (Ok (peer_address cside))
          (map (\<lambda>d. packet d) (delivered (writer_of s)), (socket cside, [])) (side_policy cside) cpre = Ok pc"
      "EncryptionProvider_new_with_pre_handshake (env_crypto E) True (Ok (peer_address sside))
          (map (\<lambda>d. packet d) (delivered (writer_of c)), (socket sside, [])) (side_policy sside) spre = Ok ps" and
    h: "EncryptionProvider_client_handshake (\<lambda>st. ProtectedHandshakeState_client_handshake E client_id vk (ph_channels st)) pc cconn ck
          = Some (Ok c, cconn')"
      "EncryptionProvider_server_handshake (\<lambda>st. ProtectedHandshakeState_server_handshake E (ph_channels st)) ps sconn sk
          = Some (Ok (s, ident), sconn')"
    unfolding tunnelled_connection_def by blast
  have "tunnel_sockets E (state pc) (state ps) (delivered (writer_of c)) (delivered (writer_of s))"
    using pre_handshake_provider [OF p(1) after_pre_handshake(2)] pre_handshake_provider [OF p(2) after_pre_handshake(3)]
      after_pre_handshake(4) assms(1)
    by (fastforce simp: tunnel_sockets_def env_laws_def)
  from protected_state.provider_handshake_opens [OF h this] show ?thesis unfolding fresh_network_def .
qed

lemma connection_made_established:
  assumes "env_laws E V" "connection_made E client_id vk cconn ck sconn sk c s ident"
  obtains gid e ts where "ident = ClientIdentity client_id" "vk = signer_public sk"
    "handshakes_complete E client_id vk cconn ck sconn sk (handshake (state c)) ts (handshake (state s)) ts ident"
    "established (env_tls E) (env_mls E) V gid e \<lparr>ep_handshake = handshake (state c), ep_secrets = ts\<rparr>
       \<lparr>ep_handshake = handshake (state s), ep_secrets = ts\<rparr>"
    "opened E \<lparr>ep_handshake = handshake (state c), ep_secrets = ts\<rparr> \<lparr>ep_handshake = handshake (state s), ep_secrets = ts\<rparr>
      (fresh_network c s)"
proof -
  from connection_made_opens [OF assms] obtain cts sts where
    o: "handshakes_complete E client_id vk cconn ck sconn sk (handshake (state c)) cts (handshake (state s)) sts ident"
      "opened E \<lparr>ep_handshake = handshake (state c), ep_secrets = cts\<rparr> \<lparr>ep_handshake = handshake (state s), ep_secrets = sts\<rparr>
        (fresh_network c s)" by blast
  from handshakes_complete_established [OF _ _ _ _ o(1)] assms(1) obtain gid e where
    e: "ident = ClientIdentity client_id" "vk = signer_public sk"
      "established (env_tls E) (env_mls E) V gid e \<lparr>ep_handshake = handshake (state c), ep_secrets = cts\<rparr>
         \<lparr>ep_handshake = handshake (state s), ep_secrets = sts\<rparr>"
    unfolding env_laws_def by blast
  have "cts = sts" using established_agree(1) [OF e(3)] by simp
  with o e that show thesis by blast
qed

section \<open>The client's database after the handshake\<close>

lemma handshake_stores_state:
  assumes "client_database (env_json E) cconn"
    and "handshakes_complete E client_id vk cconn ck sconn sk chs cts shs sts ident"
  shows "end_persisted (env_json E) client_id \<lparr>ep_handshake = chs, ep_secrets = cts\<rparr>"
proof -
  let ?J = "env_json E"
  from assms(2) obtain conn conn0 wait hello conn1 answer cst conn2 conn3 where
    1: "ClientHandshakeState_create_table cconn = (Ok (), conn)"
      "ClientHandshakeState_delete ?J (env_mls E) conn client_id = (Ok (), conn0)" and
    2: "ClientHandshake_start (env_tls E) (env_mls E) conn0 ck vk client_id = (Ok (wait, hello), conn1)"
      "receive_server_hello (env_tls E) (env_mls E) wait conn1 answer = (Ok (cst, cts), conn2)" and
    3: "ClientHandshakeState_store ?J cst conn2 = (Ok (), conn3)"
      "chs = \<lparr>leaf_signer = ck, connection = conn3, hs_state = ClientSide cst\<rparr>"
    unfolding handshakes_complete_defs by blast
  from first_messages_tables [OF 2(1)] server_hello_tables [OF 2(2)] have
    t: "same_tables conn0 conn2" "profile_id cst = client_id" by (auto intro: same_tables_trans)
  have "table_ok ?J conn" using assms(1) 1(1) by (simp add: client_database_def)
  from delete_entries [OF this 1(2)] t have ok: "table_ok ?J conn2" and none: "states_of ?J conn2 (profile_id cst) = None"
    by (simp_all add: table_ok_same_tables states_of_same_tables)
  from handshake_table.add_new [OF ok none] 3 t(2) show ?thesis by (auto simp: end_persisted_def persisted_def)
qed

lemma connection_persisted:
  assumes "env_laws E V" "client_database (env_json E) cconn" "connection_made E client_id vk cconn ck sconn sk c s ident"
  shows "end_persisted (env_json E) client_id \<lparr>ep_handshake = handshake (state c), ep_secrets = ts\<rparr>"
    "db_works (env_json E) (connection (handshake (state c)))"
proof -
  obtain ts0 where "handshakes_complete E client_id vk cconn ck sconn sk (handshake (state c)) ts0 (handshake (state s)) ts0 ident"
    using connection_made_established [OF assms(1,3)] by metis
  from handshake_stores_state [OF assms(2) this]
  show "end_persisted (env_json E) client_id \<lparr>ep_handshake = handshake (state c), ep_secrets = ts\<rparr>"
    "db_works (env_json E) (connection (handshake (state c)))"
    by (auto simp: end_persisted_def persisted_def table_ok_def)
qed

section \<open>The handshake completes\<close>

text \<open>A database with which the client's handshake can begin: its table is there, and an earlier state can be deleted.\<close>

definition connectable :: "'m json \<Rightarrow> ('s, 'g, 'm, 'o) openmls \<Rightarrow> 's Connection \<Rightarrow> Uuid \<Rightarrow> bool" where
  "connectable J M cconn client_id \<longleftrightarrow> (\<exists>conn conn0. ClientHandshakeState_create_table cconn = (Ok (), conn) \<and> table_ok J conn \<and>
     ClientHandshakeState_delete J M conn client_id = (Ok (), conn0))"

text \<open>A working database in which no state is stored for the client yet.\<close>

definition first_connection :: "'m json \<Rightarrow> 's Connection \<Rightarrow> Uuid \<Rightarrow> bool" where
  "first_connection J conn client_id \<longleftrightarrow> faults conn = [] \<and> client_database J conn \<and>
     states_of J (snd (ClientHandshakeState_create_table conn)) client_id = None"

lemma first_connection_connectable: "first_connection J cconn client_id \<Longrightarrow> connectable J M cconn client_id"
proof -
  assume first: "first_connection J cconn client_id"
  then obtain conn where conn: "ClientHandshakeState_create_table cconn = (Ok (), conn)"
    by (auto simp: first_connection_def ClientHandshakeState_create_table_def next_fault_def)
  with first have db: "table_ok J conn" "states_of J conn client_id = None"
    by (simp_all add: first_connection_def client_database_def)
  have "ClientHandshakeState_delete J M conn client_id = (Ok (), conn)"
    using handshake_table.lookup_entries [OF db(1), of client_id] db(2) by (simp add: ClientHandshakeState_delete_def)
  with conn db(1) show ?thesis unfolding connectable_def by blast
qed

text \<open>Deleting a group from storage does not fail.\<close>

definition mls_deletes :: "('s, 'g, 'm, 'o) openmls \<Rightarrow> ('g, 'm, 'o, 'e) mls_view \<Rightarrow> bool" where
  "mls_deletes M V \<longleftrightarrow> (\<forall>s g gid me e pend. group_at M V s g gid me e pend \<longrightarrow> is_ok (fst (mls_delete M g s)))"

lemma persisted_connectable:
  assumes "mls_laws M V" "mls_deletes M V" "persisted J (st, conn)" "profile_id st = client_id"
    and "member_at M V conn (group_id (client_session st)) me e pend"
  shows "connectable J M conn client_id"
proof -
  from assms(3,4) have ok: "table_ok J conn" and found: "states_of J conn client_id = Some st" by (simp_all add: persisted_def)
  then have create: "ClientHandshakeState_create_table conn = (Ok (), conn)"
    by (auto simp: ClientHandshakeState_create_table_def next_fault_def table_ok_def db_works_def)
  obtain g where g: "group_at M V (mls_storage conn) g (group_id (client_session st)) me e pend"
    using assms(5) by (auto simp: member_at_def)
  with assms(2) have "is_ok (fst (mls_delete M g (mls_storage conn)))" unfolding mls_deletes_def by blast
  then obtain s where "mls_delete M g (mls_storage conn) = (Ok (), s)" using outcome_ok by fastforce
  with load_group_at [OF assms(1) g] have
    del: "MlsSession_delete M (client_session st) conn = (Ok (), conn\<lparr>mls_storage := s\<rparr>)" by (simp add: MlsSession_delete_def)
  obtain conn0 where "delete_rows (\<lambda>row. row_profile_id row = client_id) (conn\<lparr>mls_storage := s\<rparr>) = (Ok (), conn0)"
    using delete_rows_filter [of J "conn\<lparr>mls_storage := s\<rparr>"] ok by (auto simp: table_ok_storage)
  then have "ClientHandshakeState_delete J M conn client_id = (Ok (), conn0)"
    using handshake_table.lookup_entries [OF ok, of client_id] found del by (simp add: ClientHandshakeState_delete_def)
  with create ok show ?thesis unfolding connectable_def by blast
qed

lemma connection_exchange:
  assumes "env_laws E V" "env_works E V" "mls_can_join (env_mls E) V client_id ck sk"
    and "connectable (env_json E) (env_mls E) cconn client_id"
  obtains hello answer chs ts shs where "connects E" "undisturbed E"
    "exchanged E client_id (signer_public sk) cconn ck sconn sk hello answer chs ts shs ts (ClientIdentity client_id)"
proof -
  from assms(4) obtain conn conn0 where conn: "ClientHandshakeState_create_table cconn = (Ok (), conn)"
    "table_ok (env_json E) conn" "ClientHandshakeState_delete (env_json E) (env_mls E) conn client_id = (Ok (), conn0)"
    unfolding connectable_def by blast
  have "\<exists>hello answer chs ts shs. exchanged E client_id (signer_public sk) cconn ck sconn sk hello answer chs ts shs ts (ClientIdentity client_id)"
    by (rule exchange_total [OF _ _ _ _ _ assms(3) _ conn])
      (use assms(1,2) in \<open>simp_all add: env_laws_def env_works_def nothing_fails_def\<close>)
  with that assms(1,2) show thesis by (auto simp: env_laws_def env_works_def)
qed

lemma plain_connection_completes:
  assumes "env_laws E V" "env_works E V" "mls_can_join (env_mls E) V client_id ck sk" "connectable (env_json E) (env_mls E) cconn client_id"
  shows "\<exists>c s. plain_connection E cside sside client_id (signer_public sk) cconn ck sconn sk c s (ClientIdentity client_id)"
proof -
  from connection_exchange [OF assms, where sconn = sconn] obtain hello answer chs ts shs where
    E: "connects E" "undisturbed E" and
    x: "exchanged E client_id (signer_public sk) cconn ck sconn sk hello answer chs ts shs ts (ClientIdentity client_id)" .
  from plain_handshake_runs [OF E x] obtain cch sch where
    c: "UnprotectedHandshakeState_client_handshake E client_id (signer_public sk) ([packet answer], (socket cside, []))
          (MlsHandshake_new cconn ck) = Some (Ok cch, chs)" "delivered (ch_writer cch) = [hello]" and
    s: "UnprotectedHandshakeState_server_handshake E ([packet hello], (socket sside, [])) (MlsHandshake_new sconn sk)
          = Some (Ok (sch, ClientIdentity client_id), shs)" "delivered (ch_writer sch) = [answer]" by blast
  let ?c = "\<lparr>state = \<lparr>handshake = chs, channels = cch\<rparr>, address = peer_address cside, update_policy = side_policy cside\<rparr>"
    and ?s = "\<lparr>state = \<lparr>handshake = shs, channels = sch\<rparr>, address = peer_address sside, update_policy = side_policy sside\<rparr>"
  have "plain_connection E cside sside client_id (signer_public sk) cconn ck sconn sk ?c ?s (ClientIdentity client_id)"
    using c s by (simp add: plain_connection_def EncryptionProvider_new_from_stream_def EncryptionProvider_client_handshake_def
        EncryptionProvider_server_handshake_def)
  then show ?thesis by blast
qed

lemma derive_total:
  assumes "crypto_total C KEY_SCHEDULE_HASH_FUNCTION AEAD_ALGORITHM" "is_ok (hkdf_extract C KEY_SCHEDULE_HASH_FUNCTION [] secret)"
  shows "\<exists>ts. derive_traffic_secrets C secret = Ok ts"
proof -
  obtain prk where prk: "hkdf_extract C KEY_SCHEDULE_HASH_FUNCTION [] secret = Ok prk" using assms(2) by (auto simp: is_ok_iff)
  have "\<exists>out. hkdf_expand C KEY_SCHEDULE_HASH_FUNCTION prk info (hash_size C KEY_SCHEDULE_HASH_FUNCTION) = Ok out" for info
    using assms(1) by (simp add: crypto_total_def is_ok_iff)
  then obtain f where "\<And>info. hkdf_expand C KEY_SCHEDULE_HASH_FUNCTION prk info (hash_size C KEY_SCHEDULE_HASH_FUNCTION) = Ok (f info)"
    by metis
  with prk show ?thesis by (simp add: derive_traffic_secrets_def Let_def)
qed

lemma tunnelled_connection_completes:
  assumes "env_laws E V" "env_works E V" "mls_can_join (env_mls E) V client_id ck sk" "connectable (env_json E) (env_mls E) cconn client_id"
    and "cpre False = Ok cres" "spre True = Ok sres" "shared_secret cres = shared_secret sres"
    and "is_ok (hkdf_extract (env_crypto E) KEY_SCHEDULE_HASH_FUNCTION [] (shared_secret cres))"
  shows "\<exists>c s. tunnelled_connection E cpre spre cside sside client_id (signer_public sk) cconn ck sconn sk c s (ClientIdentity client_id)"
proof -
  from connection_exchange [OF assms(1-4), where sconn = sconn] obtain hello answer chs ts shs where
    E: "connects E" "undisturbed E" and
    x: "exchanged E client_id (signer_public sk) cconn ck sconn sk hello answer chs ts shs ts (ClientIdentity client_id)" .
  have E': "aead_correct (env_crypto E) AEAD_ALGORITHM" "handshakes_fit (env_tls E)" using assms(1) by (simp_all add: env_laws_def)
  obtain ts0 where ts0: "derive_traffic_secrets (env_crypto E) (shared_secret cres) = Ok ts0"
    using derive_total [OF _ assms(8)] E(2) by (auto simp: undisturbed_def)
  from tunnel_handshake_runs [OF E E' x, of "socket cside" ts0 "socket sside"] obtain up down cch0 sch0 cch sch where
    n: "ProtectedChannels_new (env_crypto E) False (map (\<lambda>d. packet d) down) (socket cside, []) ts0 = Ok cch0"
      "ProtectedChannels_new (env_crypto E) True (map (\<lambda>d. packet d) up) (socket sside, []) ts0 = Ok sch0" and
    h: "ProtectedHandshakeState_client_handshake E client_id (signer_public sk) cch0 (MlsHandshake_new cconn ck) = Some (Ok cch, chs)"
      "ProtectedHandshakeState_server_handshake E sch0 (MlsHandshake_new sconn sk) = Some (Ok (sch, ClientIdentity client_id), shs)"
      "delivered (ch_writer cch) = up" "delivered (ch_writer sch) = down" by blast
  let ?c = "\<lparr>state = \<lparr>handshake = chs, channels = cch\<rparr>, address = peer_address cside, update_policy = side_policy cside\<rparr>"
    and ?s = "\<lparr>state = \<lparr>handshake = shs, channels = sch\<rparr>, address = peer_address sside, update_policy = side_policy sside\<rparr>"
  have "tunnelled_connection E cpre spre cside sside client_id (signer_public sk) cconn ck sconn sk ?c ?s (ClientIdentity client_id)"
    using n h ts0 assms(5-7) by (simp add: tunnelled_connection_def EncryptionProvider_new_with_pre_handshake_def
        EncryptionProvider_client_handshake_def EncryptionProvider_server_handshake_def)
  then show ?thesis by blast
qed

lemma network_connectable:
  assumes "env_laws E V" "mls_deletes (env_mls E) V" "client_database (env_json E) cconn"
    and "connection_made E client_id vk cconn ck sconn sk c s ident" "(net_step E)\<^sup>*\<^sup>* (fresh_network c s) n"
  shows "connectable (env_json E) (env_mls E) (connection (handshake (state (client_end n)))) client_id"
proof -
  from assms(1,4) obtain gid e ts where
    c: "established (env_tls E) (env_mls E) V gid e \<lparr>ep_handshake = handshake (state c), ep_secrets = ts\<rparr>
         \<lparr>ep_handshake = handshake (state s), ep_secrets = ts\<rparr>"
      "opened E \<lparr>ep_handshake = handshake (state c), ep_secrets = ts\<rparr> \<lparr>ep_handshake = handshake (state s), ep_secrets = ts\<rparr>
        (fresh_network c s)"
    by (rule connection_made_established)
  from assms(1) have laws: "connects E" "aead_correct (env_crypto E) AEAD_ALGORITHM" "signaling_fits (env_tls E)" "mls_laws (env_mls E) V"
    by (simp_all add: env_laws_def)
  from network_reaches [OF c(1) laws(1-3) c(2) assms(5)] obtain c' s' up down where
    run: "run_system E (System \<lparr>ep_handshake = handshake (state c), ep_secrets = ts\<rparr>
        \<lparr>ep_handshake = handshake (state s), ep_secrets = ts\<rparr> [] []) (System c' s' up down)" and
    rel: "net_rel E (suite_in E) n (System c' s' up down)" by blast
  from rel have hs: "ep_handshake c' = handshake (state (client_end n))" by (simp add: provides_def)
  have "end_persisted (env_json E) client_id c'"
    using run_persisted [OF run] connection_persisted(1) [OF assms(1,3,4)] by simp
  then obtain st where st: "hs_state (ep_handshake c') = ClientSide st" "profile_id st = client_id"
    "persisted (env_json E) (st, connection (ep_handshake c'))" by (auto simp: end_persisted_def)
  obtain a where "sync_rel (env_tls E) (env_mls E) V gid (System c' s' up down) a" using established_reaches [OF c(1) run] by blast
  with st(1) obtain e' where "member_at (env_mls E) V (connection (ep_handshake c')) (group_id (client_session st)) client_leaf e' None"
    by (cases a) (auto simp: client_rel_def)
  from persisted_connectable [OF laws(4) assms(2) st(3,2) this] hs show ?thesis by simp
qed

section \<open>A connection over the symbolic MLS and crypto provider\<close>

definition sym_conn_env :: "(sym_storage, sym_group, sym_message, sym_message, TlsPacketIn list, unit \<times> bytes list) env" where
  "sym_conn_env = sym_env\<lparr>env_json := sym_text_json\<rparr>"

text \<open>What the client with id 7 and the server send each other.\<close>

definition sym_hello :: bytes where
  "sym_hello = [0, 0, 0, 0, 0, 7, 0, 0, 0, 0, 0, 0, 0, 0, 0, 0, 0]"

definition sym_welcome :: bytes where
  "sym_welcome = [1, 5, 42, 11, 0, 0, 0, 0, 0, 0, 0, 0, 1]"

definition sym_client_run where
  "sym_client_run = MlsHandshake_client_handshake sym_tls sym_text_json sym_mls (unprotected_transport sym_conn_env) [7] [42]
     (MlsHandshake_new sym_fresh sym_signer, ([packet sym_welcome], ((), [])))"

definition sym_server_run where
  "sym_server_run = MlsHandshake_server_handshake False sym_tls sym_mls (unprotected_transport sym_conn_env)
     (MlsHandshake_new sym_fresh sym_signer, ([packet sym_hello], ((), [])))"

definition sym_conn_secrets :: TrafficSecrets where
  "sym_conn_secrets = the_ok (fst (the sym_client_run))"

definition sym_client_handshake :: "(sym_storage, sym_message) MlsHandshake" where
  "sym_client_handshake = fst (snd (the sym_client_run))"

definition sym_server_handshake :: "(sym_storage, sym_message) MlsHandshake" where
  "sym_server_handshake = fst (snd (the sym_server_run))"

lemma sym_runs:
  "sym_client_run = Some (Ok sym_conn_secrets, (sym_client_handshake, ([], ((), [sym_hello]))))"
  "sym_server_run = Some (Ok (sym_conn_secrets, ClientIdentity [7]), (sym_server_handshake, ([], ((), [sym_welcome]))))"
  by code_simp+

definition sym_policy :: UpdatePolicy where
  "sym_policy = \<lparr>time_based = None, traffic_based = Some \<lparr>update_threshold = 4, bytes_transferred = 4\<rparr>\<rparr>"

definition sym_end :: "bool \<Rightarrow> (sym_storage, sym_message) MlsHandshake \<Rightarrow> bytes \<Rightarrow> (sym_storage, sym_message, unit) peer" where
  "sym_end b hs bs = \<lparr>state = \<lparr>handshake = hs, channels = the_ok (ProtectedChannels_new sym_crypto b [] ((), [bs]) sym_conn_secrets)\<rparr>,
     address = '''', update_policy = sym_policy\<rparr>"

abbreviation "sym_c \<equiv> sym_end False sym_client_handshake sym_hello"
abbreviation "sym_s \<equiv> sym_end True sym_server_handshake sym_welcome"

lemma sym_conn_env_sel [simp]:
  "env_checks sym_conn_env = False" "env_crypto sym_conn_env = sym_crypto" "env_tls sym_conn_env = sym_tls"
  "env_json sym_conn_env = sym_text_json" "env_mls sym_conn_env = sym_mls" "env_reader sym_conn_env = arrived"
  "env_writer sym_conn_env = recording ready_sink" "env_chrono sym_conn_env = env_chrono sym_env"
  by (simp_all add: sym_conn_env_def sym_env_def)

lemma sym_handshakes_fit: "handshakes_fit sym_tls"
proof -
  have m: "length (sym_message_bytes m) = 13" "sym_message_bytes m \<noteq> []" for m by (cases m; simp)+
  have "fits_record bs" if "MlsTlsHandshake_ser sym_tls h = Ok bs" for h bs
    using that m by (cases "payload h") (auto simp: fits_record_def MlsTlsHandshake_ser_def HandshakePayload_ser_def
        sym_tls_def std_codec_def fixed_field_def ser_seq_def ProtocolVersion_ser_def)
  moreover have "fits_record bs" if "ServerHello_ser sym_tls h = Ok bs" for h bs
    using that m by (auto simp: fits_record_def ServerHello_ser_def sym_tls_def std_codec_def fixed_field_def)
  moreover have "fits_record bs" if "SignalingMessage_ser sym_tls msg = Ok bs" for msg bs
    using sym_signaling_bytes [OF that] that
    by (cases msg) (auto simp: fits_record_def SignalingMessage_ser_def sym_tls_def std_codec_def fixed_field_def
        u16_to_be_bytes_def)
  ultimately show ?thesis by (simp add: handshakes_fit_def)
qed

lemma sym_env_laws: "env_laws sym_conn_env sym_view"
  using sym_env_works sym_handshakes_fit sym_tls_laws sym_mls_laws sym_mls_joins sym_mls_key_packages
  by (simp add: env_laws_def connects_def)

lemma sym_env_does_work: "env_works sym_conn_env sym_view"
  using sym_env_works sym_nothing_fails sym_handshakes_serialise by (simp add: env_works_def undisturbed_def)

lemma sym_client_database: "client_database (env_json sym_conn_env) sym_fresh"
  using sym_text_table_ok by (simp add: client_database_def ClientHandshakeState_create_table_def sym_fresh_def next_fault_def)

lemma sym_end_channels:
  "ProtectedChannels_new sym_crypto b [] ((), [bs]) sym_conn_secrets = Ok (prov_channels (sym_end b hs bs))"
  using sym_channels_made [of b "[] :: TlsPacketIn list" "((), [bs])" sym_conn_secrets] by (auto simp: sym_end_def)

lemma sym_end_parts:
  "\<lparr>state = \<lparr>handshake = hs, channels = prov_channels (sym_end b hs bs)\<rparr>, address = '''', update_policy = sym_policy\<rparr> = sym_end b hs bs"
  "delivered (writer_of (sym_end b hs bs)) = [bs]" "handshake (state (sym_end b hs bs)) = hs"
  "update_policy (sym_end b hs bs) = sym_policy"
  using sym_end_channels [of b bs hs]
  by (simp_all add: sym_end_def) (auto simp: ProtectedChannels_new_def TlsAeadSink_new_def)

definition sym_side :: "unit side" where
  "sym_side = \<lparr>peer_address = '''', socket = (), side_policy = sym_policy\<rparr>"

lemma sym_connection_made:
  "connection_made sym_conn_env [7] [42] sym_fresh sym_signer sym_fresh sym_signer sym_c sym_s (ClientIdentity [7])"
proof -
  let ?p = "\<lambda>bs. \<lparr>state = ([packet bs], ((), [])), address = '''', update_policy = sym_policy\<rparr>"
  have "EncryptionProvider_new_from_stream (Ok (peer_address sym_side))
        (map (\<lambda>d. packet d) (delivered (writer_of sym_s)), (socket sym_side, [])) (side_policy sym_side) = Ok (?p sym_welcome)"
    "EncryptionProvider_new_from_stream (Ok (peer_address sym_side))
        (map (\<lambda>d. packet d) (delivered (writer_of sym_c)), (socket sym_side, [])) (side_policy sym_side) = Ok (?p sym_hello)"
    by (simp_all add: EncryptionProvider_new_from_stream_def sym_end_parts sym_side_def)
  moreover have "EncryptionProvider_client_handshake (UnprotectedHandshakeState_client_handshake sym_conn_env [7] [42])
      (?p sym_welcome) sym_fresh sym_signer = Some (Ok sym_c, connection sym_client_handshake)"
    using sym_runs(1) sym_end_channels [of False sym_hello sym_client_handshake]
    by (simp add: sym_client_run_def EncryptionProvider_client_handshake_def UnprotectedHandshakeState_client_handshake_def
        sym_end_parts(1))
  moreover have "EncryptionProvider_server_handshake (UnprotectedHandshakeState_server_handshake sym_conn_env)
      (?p sym_hello) sym_fresh sym_signer = Some (Ok (sym_s, ClientIdentity [7]), connection sym_server_handshake)"
    using sym_runs(2) sym_end_channels [of True sym_welcome sym_server_handshake]
    by (simp add: sym_server_run_def EncryptionProvider_server_handshake_def UnprotectedHandshakeState_server_handshake_def
        sym_end_parts(1))
  ultimately show ?thesis unfolding plain_connection_def by (intro connection_made.unprotected [of _ sym_side sym_side]) (auto simp: plain_connection_def)
qed

text \<open>Either side's policy asks for an update when it sends its first bytes.\<close>

lemma sym_end_sends:
  assumes "is_ok (fst (endpoint_update sym_tls sym_text_json sym_mls b \<lparr>ep_handshake = hs, ep_secrets = sym_conn_secrets\<rparr>))"
  shows "\<exists>p. EncryptionProvider_send_bytes sym_conn_env b [1, 2, 3] 0 (sym_end b hs bs) = Some (Ok (), p)"
proof -
  let ?ep = "\<lparr>ep_handshake = hs, ep_secrets = sym_conn_secrets\<rparr>" and ?p = "sym_end b hs bs"
  obtain out ep' where u: "endpoint_update sym_tls sym_text_json sym_mls b ?ep = (Ok out, ep')"
    using assms by (auto simp: is_ok_iff) (metis prod.collapse)
  note new = new_channels [OF sym_end_channels [of b bs hs]]
  have due: "UpdatePolicy_update_is_due (env_chrono sym_conn_env) (update_policy ?p) 0 = Ok True"
    by (simp add: sym_end_parts sym_policy_def update_policy_defs)
  have ok: "peer_ok (suite_in sym_conn_env) ?p" "provides b ?p ?ep" "trusts sym_conn_env (suite_in sym_conn_env)"
    using new sym_env_laws
    by (simp_all add: peer_ok_def provides_def sym_end_parts trusts_def env_laws_def signaling_fits_def connects_def)
  have "undisturbed sym_conn_env" using sym_env_does_work by (simp add: env_works_def)
  from send_bytes_total [OF this ok(1,2,3) due] u sym_wraps [of "Application [1, 2, 3]"] show ?thesis by auto
qed

lemma sym_connection_updates:
  "is_ok (fst (endpoint_update sym_tls sym_text_json sym_mls False \<lparr>ep_handshake = sym_client_handshake, ep_secrets = sym_conn_secrets\<rparr>))"
  "is_ok (fst (endpoint_update sym_tls sym_text_json sym_mls True \<lparr>ep_handshake = sym_server_handshake, ep_secrets = sym_conn_secrets\<rparr>))"
  by code_simp+

lemma sym_connection_sends: "\<exists>n. net_step sym_conn_env (fresh_network sym_c sym_s) n \<and> sent_up n = [[1, 2, 3]]"
proof -
  obtain p where "EncryptionProvider_send_bytes sym_conn_env False [1, 2, 3] 0 (client_end (fresh_network sym_c sym_s)) = Some (Ok (), p)"
    using sym_end_sends [OF sym_connection_updates(1)] by (auto simp: fresh_network_def)
  from net_step.client_sends [OF this] sym_wraps [of "Application [1, 2, 3]"] show ?thesis
    by (fastforce simp: fresh_network_def)
qed

lemma sym_connection_server_sends:
  "\<exists>n. net_step sym_conn_env (fresh_network sym_c sym_s) n \<and> sent_down n = [[1, 2, 3]] \<and>
     handshake (state (client_end n)) = sym_client_handshake"
proof -
  obtain p where "EncryptionProvider_send_bytes sym_conn_env True [1, 2, 3] 0 (server_end (fresh_network sym_c sym_s)) = Some (Ok (), p)"
    using sym_end_sends [OF sym_connection_updates(2)] by (auto simp: fresh_network_def)
  from net_step.server_sends [OF this] sym_wraps [of "Application [1, 2, 3]"] show ?thesis
    by (fastforce simp: fresh_network_def arrive_def sym_end_parts)
qed

lemma sym_client_loads:
  "ClientHandshakeState_load sym_text_json (connection sym_client_handshake) [7] = (Ok (Some st), conn) \<Longrightarrow> own_pending_update st = None"
proof -
  have "map_option own_pending_update (the_ok (fst (ClientHandshakeState_load sym_text_json (connection sym_client_handshake) [7]))) = Some None"
    by code_simp
  then show "ClientHandshakeState_load sym_text_json (connection sym_client_handshake) [7] = (Ok (Some st), conn) \<Longrightarrow> own_pending_update st = None"
    by simp
qed

definition sym_psk :: "bool \<Rightarrow> (string, HandshakeResult) res" where
  "sym_psk is_server = Ok \<lparr>shared_secret = [9], session_id = None\<rparr>"

lemma sym_can_join: "mls_can_join (env_mls sym_conn_env) sym_view [7] sym_signer sym_signer"
  by (auto simp: mls_can_join_def sym_mls_def sym_key_package_build_def sym_add_members_def sym_group_build_def sym_signer_def Let_def)

lemma sym_deletes: "mls_deletes (env_mls sym_conn_env) sym_view"
  by (simp add: mls_deletes_def sym_mls_def sym_delete_def)

lemma sym_first_connection: "first_connection (env_json sym_conn_env) sym_fresh [7]"
  using sym_client_database
  by (simp add: first_connection_def ClientHandshakeState_create_table_def sym_fresh_def next_fault_def states_of_def)

section \<open>Properties\<close>

text \<open>
  C4. A connection is a session: two providers are made on the ends of a socket, with or without a
  pre-handshake that gave both the same secret, and their handshakes complete.  Then the server has
  learnt the client's id, the server's key is the one the client expected, both sides hold the same
  group in the same epoch with the same traffic secrets and nobody waiting, and their channels are
  keyed with these secrets, in step and empty.
\<close>
theorem connection_is_established:
  assumes "env_laws E V" "connection_made E client_id vk cconn ck sconn sk c s ident"
  shows "ident = ClientIdentity client_id \<and> vk = signer_public sk \<and>
    (\<exists>gid e ts. established (env_tls E) (env_mls E) V gid e
        \<lparr>ep_handshake = handshake (state c), ep_secrets = ts\<rparr> \<lparr>ep_handshake = handshake (state s), ep_secrets = ts\<rparr> \<and>
      channels_open E ts ts (prov_channels c) (prov_channels s) \<and> EncryptionProvider_epoch c = EncryptionProvider_epoch s)"
proof -
  from assms obtain gid e ts where
    c: "ident = ClientIdentity client_id" "vk = signer_public sk"
      "established (env_tls E) (env_mls E) V gid e \<lparr>ep_handshake = handshake (state c), ep_secrets = ts\<rparr>
         \<lparr>ep_handshake = handshake (state s), ep_secrets = ts\<rparr>" and
    o: "opened E \<lparr>ep_handshake = handshake (state c), ep_secrets = ts\<rparr> \<lparr>ep_handshake = handshake (state s), ep_secrets = ts\<rparr>
        (fresh_network c s)"
    by (rule connection_made_established)
  from o have "channels_open E ts ts (prov_channels c) (prov_channels s)" by (simp add: opened_def fresh_network_def)
  moreover have "EncryptionProvider_epoch c = EncryptionProvider_epoch s"
    using established_agree(2,3) [OF c(3)] by (simp add: EncryptionProvider_epoch_def)
  ultimately show ?thesis using c by blast
qed

theorem connection_is_established_witness:
  "\<exists>gid e ts. established sym_tls sym_mls sym_view gid e
        \<lparr>ep_handshake = sym_client_handshake, ep_secrets = ts\<rparr> \<lparr>ep_handshake = sym_server_handshake, ep_secrets = ts\<rparr> \<and>
      channels_open sym_conn_env ts ts (prov_channels sym_c) (prov_channels sym_s)"
  using connection_is_established [OF sym_env_laws sym_connection_made] by (auto simp: sym_end_parts)





text \<open>
  C5. The providers refine the key-update protocol: every situation that two connected providers reach, down
  to the records in their readers, corresponds to a state that the abstract protocol of
  \<open>Key_Sync_Spec\<close> reaches from an idle start, with the same epochs, the same party waiting and the
  same messages under way.
\<close>
theorem providers_refine_key_protocol:
  assumes "env_laws E V" "connection_made E client_id vk cconn ck sconn sk c s ident" "(net_step E)\<^sup>*\<^sup>* (fresh_network c s) n"
  shows "\<exists>gid e sys a. net_rel E (suite_in E) n sys \<and> sync_rel (env_tls E) (env_mls E) V gid sys a \<and>
    spec_step\<^sup>*\<^sup>* (Config False e e e None [] []) a"
proof -
  from assms(1,2) obtain gid e ts where
    c: "established (env_tls E) (env_mls E) V gid e \<lparr>ep_handshake = handshake (state c), ep_secrets = ts\<rparr>
         \<lparr>ep_handshake = handshake (state s), ep_secrets = ts\<rparr>"
      "opened E \<lparr>ep_handshake = handshake (state c), ep_secrets = ts\<rparr> \<lparr>ep_handshake = handshake (state s), ep_secrets = ts\<rparr>
        (fresh_network c s)"
    by (rule connection_made_established)
  from assms(1) have "connects E" "aead_correct (env_crypto E) AEAD_ALGORITHM" "signaling_fits (env_tls E)"
    by (simp_all add: env_laws_def)
  from network_refines_protocol [OF c(1) this c(2) assms(3)] show ?thesis by blast
qed

theorem providers_refine_key_protocol_witness:
  "\<exists>n gid e sys a. net_step sym_conn_env (fresh_network sym_c sym_s) n \<and> sent_up n = [[1, 2, 3]] \<and>
     net_rel sym_conn_env (suite_in sym_conn_env) n sys \<and> sync_rel sym_tls sym_mls sym_view gid sys a \<and>
     spec_step\<^sup>*\<^sup>* (Config False e e e None [] []) a"
proof -
  obtain n where n: "net_step sym_conn_env (fresh_network sym_c sym_s) n" "sent_up n = [[1, 2, 3]]"
    using sym_connection_sends by blast
  from providers_refine_key_protocol [OF sym_env_laws sym_connection_made r_into_rtranclp [of "net_step sym_conn_env", OF n(1)]]
  obtain gid e sys a where "net_rel sym_conn_env (suite_in sym_conn_env) n sys"
    "sync_rel (env_tls sym_conn_env) (env_mls sym_conn_env) sym_view gid sys a"
    "spec_step\<^sup>*\<^sup>* (Config False e e e None [] []) a" by blast
  with n show ?thesis unfolding sym_conn_env_sel by blast
qed

text \<open>
  C9. Resumption after a crash: the connection is lost in any situation that two connected providers
  reach, whatever is under way, and the client restarts with its database.  It finds the state it was in.
  When nothing outside the program fails, its resumption message, the server's processing of it and the
  client's reception of the confirmation succeed; then both sides hold the same traffic secrets
  in the same epoch with nobody waiting.  The only exception is a client whose own update the server
  had applied when the confirmation was lost.
\<close>
theorem disconnected_client_resumes:
  assumes "env_laws E V" "env_works E V" "client_database (env_json E) cconn"
    and "connection_made E client_id vk cconn ck sconn sk c s ident" "(net_step E)\<^sup>*\<^sup>* (fresh_network c s) n"
    and "conn = connection (handshake (state (client_end n)))" "sconn' = connection (handshake (state (server_end n)))"
  shows "\<exists>st gid. ClientHandshakeState_load (env_json E) conn client_id = (Ok (Some st), conn) \<and>
    group_id (client_session st) = gid \<and>
    (confirmation_lost (env_mls E) V gid st sconn' \<or>
     (\<exists>ts hello st1 conn1 sst id answer sconn1 st2 conn2.
        ClientHandshakeState_resume (env_tls E) (env_mls E) ck (st, conn) = (Ok (ts, hello), (st1, conn1)) \<and>
        ServerHandshake_start (env_checks E) (env_tls E) (env_mls E) sconn' sk hello = (Ok (sst, ts, id, answer), sconn1) \<and>
        ClientHandshakeState_receive_signaling_message (env_checks E) (env_tls E) (env_json E) (env_mls E) ck answer (st1, conn1)
          = (Ok (None, None), (st2, conn2)) \<and>
        (\<exists>e. established (env_tls E) (env_mls E) V gid e
           \<lparr>ep_handshake = \<lparr>leaf_signer = ck, connection = conn2, hs_state = ClientSide st2\<rparr>, ep_secrets = ts\<rparr>
           \<lparr>ep_handshake = \<lparr>leaf_signer = sk, connection = sconn1, hs_state = ServerSide sst\<rparr>, ep_secrets = ts\<rparr>)))"
proof -
  from assms(1,4) obtain gid e ts where
    c: "established (env_tls E) (env_mls E) V gid e \<lparr>ep_handshake = handshake (state c), ep_secrets = ts\<rparr>
         \<lparr>ep_handshake = handshake (state s), ep_secrets = ts\<rparr>"
      "opened E \<lparr>ep_handshake = handshake (state c), ep_secrets = ts\<rparr> \<lparr>ep_handshake = handshake (state s), ep_secrets = ts\<rparr>
        (fresh_network c s)"
    by (rule connection_made_established)
  from assms(1) have "connects E" "aead_correct (env_crypto E) AEAD_ALGORITHM" "signaling_fits (env_tls E)"
    by (simp_all add: env_laws_def)
  from network_reaches [OF c(1) this c(2) assms(5)] obtain c' s' up down where
    run: "run_system E (System \<lparr>ep_handshake = handshake (state c), ep_secrets = ts\<rparr>
        \<lparr>ep_handshake = handshake (state s), ep_secrets = ts\<rparr> [] []) (System c' s' up down)" and
    rel: "net_rel E (suite_in E) n (System c' s' up down)" by blast
  from rel assms(6,7) have conns: "connection (ep_handshake c') = conn" "connection (ep_handshake s') = sconn'"
    by (simp_all add: provides_def)
  from assms(2) have w: "nothing_fails (env_checks E) (env_tls E) (env_mls E) V" "handshakes_serialise (env_tls E)"
    by (simp_all add: env_works_def)
  show ?thesis
    using disconnected_session_resumes [OF c(1) w connection_persisted(1) [OF assms(1,3,4)] run, of ck sk]
    unfolding conns by (elim exE, intro exI)
qed

text \<open>The server sends with an update of the keys; the connection is lost before the client reads.\<close>

theorem disconnected_client_resumes_witness:
  "\<exists>n st ts hello st1 conn1 sst ident answer sconn1 st2 conn2.
     net_step sym_conn_env (fresh_network sym_c sym_s) n \<and> sent_down n = [[1, 2, 3]] \<and>
     ClientHandshakeState_load sym_text_json (connection sym_client_handshake) [7] = (Ok (Some st), connection sym_client_handshake) \<and>
     ClientHandshakeState_resume sym_tls sym_mls sym_signer (st, connection sym_client_handshake) = (Ok (ts, hello), (st1, conn1)) \<and>
     ServerHandshake_start False sym_tls sym_mls (connection (handshake (state (server_end n)))) sym_signer hello =
       (Ok (sst, ts, ident, answer), sconn1) \<and>
     ClientHandshakeState_receive_signaling_message False sym_tls sym_text_json sym_mls sym_signer answer (st1, conn1) =
       (Ok (None, None), (st2, conn2))"
proof -
  obtain n where n: "net_step sym_conn_env (fresh_network sym_c sym_s) n" "sent_down n = [[1, 2, 3]]"
    "connection sym_client_handshake = connection (handshake (state (client_end n)))"
    using sym_connection_server_sends by metis
  have "\<not> confirmation_lost sym_mls sym_view gid st sconn"
    if "ClientHandshakeState_load sym_text_json (connection sym_client_handshake) [7] = (Ok (Some st), conn)" for gid st conn sconn
    using sym_client_loads [OF that] by (simp add: confirmation_lost_def)
  with disconnected_client_resumes [OF sym_env_laws sym_env_does_work sym_client_database sym_connection_made
      r_into_rtranclp [of "net_step sym_conn_env", OF n(1)] n(3) HOL.refl] n(1,2)
  show ?thesis unfolding sym_conn_env_sel by blast
qed

text \<open>
  C11. The handshake completes: when nothing outside the program fails and the client has no state
  stored yet, two providers made on the ends of a socket finish their handshakes, directly on the socket
  and through the channels of a pre-handshake that gave both the same secret; the server learns the
  client's id.
\<close>
theorem handshakes_always_complete:
  assumes "env_laws E V" "env_works E V" "mls_can_join (env_mls E) V client_id ck sk" "first_connection (env_json E) cconn client_id"
    and "cpre False = Ok cres" "spre True = Ok sres" "shared_secret cres = shared_secret sres"
    and "is_ok (hkdf_extract (env_crypto E) KEY_SCHEDULE_HASH_FUNCTION [] (shared_secret cres))"
  shows "(\<exists>c s. plain_connection E cside sside client_id (signer_public sk) cconn ck sconn sk c s (ClientIdentity client_id)) \<and>
    (\<exists>c s. tunnelled_connection E cpre spre cside sside client_id (signer_public sk) cconn ck sconn sk c s (ClientIdentity client_id))"
  using plain_connection_completes [OF assms(1-3) first_connection_connectable [OF assms(4)]]
    tunnelled_connection_completes [where cpre = cpre and spre = spre, OF assms(1-3) first_connection_connectable [OF assms(4)] assms(5-8)]
  by blast

theorem handshakes_always_complete_witness:
  "(\<exists>c s. plain_connection sym_conn_env sym_side sym_side [7] [42] sym_fresh sym_signer sym_fresh sym_signer c s (ClientIdentity [7])) \<and>
   (\<exists>c s. tunnelled_connection sym_conn_env sym_psk sym_psk sym_side sym_side [7] [42] sym_fresh sym_signer sym_fresh sym_signer
      c s (ClientIdentity [7]))"
  using handshakes_always_complete [OF sym_env_laws sym_env_does_work sym_can_join sym_first_connection, of sym_psk _ sym_psk _ sym_side sym_side sym_fresh]
  by (simp add: sym_psk_def sym_expand_def sym_signer_def)

text \<open>
  C12. Reconnecting: the connection is lost in any situation that two connected providers reach,
  whatever is under way, also when a resumption would be refused.  When nothing outside the program
  fails, new providers over the databases of both sides complete their handshakes, and the new session
  is established in a common epoch with open channels.
\<close>
theorem disconnected_client_reconnects:
  assumes "env_laws E V" "env_works E V" "mls_can_join (env_mls E) V client_id ck sk" "mls_deletes (env_mls E) V"
    and "client_database (env_json E) cconn"
    and "connection_made E client_id vk cconn ck sconn sk c s ident" "(net_step E)\<^sup>*\<^sup>* (fresh_network c s) n"
    and "conn = connection (handshake (state (client_end n)))" "sconn' = connection (handshake (state (server_end n)))"
  shows "\<exists>c' s'. plain_connection E cside sside client_id vk conn ck sconn' sk c' s' (ClientIdentity client_id) \<and>
    (\<exists>gid e ts. established (env_tls E) (env_mls E) V gid e
        \<lparr>ep_handshake = handshake (state c'), ep_secrets = ts\<rparr> \<lparr>ep_handshake = handshake (state s'), ep_secrets = ts\<rparr> \<and>
      channels_open E ts ts (prov_channels c') (prov_channels s'))"
proof -
  have "connectable (env_json E) (env_mls E) conn client_id"
    unfolding assms(8) by (rule network_connectable [OF assms(1,4,5,6,7)])
  from plain_connection_completes [OF assms(1-3) this] obtain c' s' where
    p: "plain_connection E cside sside client_id (signer_public sk) conn ck sconn' sk c' s' (ClientIdentity client_id)" by blast
  from connection_made_established [OF assms(1) connection_made.unprotected [OF p]] obtain gid e ts where
    "established (env_tls E) (env_mls E) V gid e
        \<lparr>ep_handshake = handshake (state c'), ep_secrets = ts\<rparr> \<lparr>ep_handshake = handshake (state s'), ep_secrets = ts\<rparr>"
    "opened E \<lparr>ep_handshake = handshake (state c'), ep_secrets = ts\<rparr> \<lparr>ep_handshake = handshake (state s'), ep_secrets = ts\<rparr>
      (fresh_network c' s')" .
  moreover have "vk = signer_public sk" using connection_made_established [OF assms(1,6)] by blast
  ultimately show ?thesis using p by (fastforce simp: opened_def fresh_network_def)
qed

theorem disconnected_client_reconnects_witness:
  "\<exists>n c' s'. net_step sym_conn_env (fresh_network sym_c sym_s) n \<and> sent_up n = [[1, 2, 3]] \<and>
     plain_connection sym_conn_env sym_side sym_side [7] [42] (connection (handshake (state (client_end n)))) sym_signer
       (connection (handshake (state (server_end n)))) sym_signer c' s' (ClientIdentity [7])"
proof -
  obtain n where n: "net_step sym_conn_env (fresh_network sym_c sym_s) n" "sent_up n = [[1, 2, 3]]"
    using sym_connection_sends by blast
  from disconnected_client_reconnects [OF sym_env_laws sym_env_does_work sym_can_join sym_deletes sym_client_database sym_connection_made
      r_into_rtranclp [of "net_step sym_conn_env", OF n(1)] HOL.refl HOL.refl, of sym_side sym_side] n
  show ?thesis by blast
qed

end
