(* ===== verification/Update_Rounds.thy ===== *)
theory Update_Rounds
  imports Disconnection
begin

text \<open>
  The handlers of \<^verbatim>\<open>state_machine/client.rs\<close> and \<^verbatim>\<open>state_machine/server.rs\<close> as total steps between
  named positions of the two sides, updates that request an update back included, and what these
  steps make of an update that either side requests.
\<close>

section \<open>Positions\<close>

text \<open>The client at an epoch, in an internal state; the server at an epoch, with a pending commit.\<close>

definition client_at ::
    "('s, 'g, 'm, 'o) openmls \<Rightarrow> ('g, 'm, 'o, 'e) mls_view \<Rightarrow> 'm json \<Rightarrow> GroupId \<Rightarrow> 'e \<Rightarrow> 'm ClientInternalState
       \<Rightarrow> ('s, 'm) client \<Rightarrow> bool" where
  "client_at M V J gid e i c \<longleftrightarrow> client_session (fst c) = \<lparr>group_id = gid, epoch = view_epoch V e\<rparr> \<and>
     client_internal (fst c) = i \<and> member_at M V (snd c) gid client_leaf e None \<and> db_works J (snd c)"

definition server_at ::
    "('s, 'g, 'm, 'o) openmls \<Rightarrow> ('g, 'm, 'o, 'e) mls_view \<Rightarrow> GroupId \<Rightarrow> 'e \<Rightarrow> 'e option \<Rightarrow> ServerInternalState
       \<Rightarrow> 's server \<Rightarrow> bool" where
  "server_at M V gid e pend i s \<longleftrightarrow> server_session (fst s) = \<lparr>group_id = gid, epoch = view_epoch V e\<rparr> \<and>
     server_internal (fst s) = i \<and> member_at M V (snd s) gid server_leaf e pend"

text \<open>An environment in which messages are read as they were written and nothing fails.\<close>

definition sound ::
    "bool \<Rightarrow> 'm tls_codec \<Rightarrow> ('s, 'g, 'm, 'o) openmls \<Rightarrow> ('g, 'm, 'o, 'e) mls_view \<Rightarrow> bool" where
  "sound oc T M V \<longleftrightarrow> tls_laws T \<and> mls_laws M V \<and> nothing_fails oc T M V"

lemma soundD:
  assumes "sound oc T M V"
  shows "tls_laws T" "mls_laws M V" "signaling_total T" "mls_total M V" "epoch_in_range oc (view_epoch V e)"
    "nothing_fails oc T M V"
  using assms by (auto simp: sound_def nothing_fails_def)

text \<open>A connection update as the receiver reads it.\<close>

definition reads_connection_update :: "'m tls_codec \<Rightarrow> bool \<Rightarrow> bytes \<Rightarrow> 'm \<Rightarrow> bool" where
  "reads_connection_update T requested bs m \<longleftrightarrow> signaling_of_bytes T bs =
     Ok (ConnectionUpdateMessage \<lparr>update_requested = Boolean_from_bool requested, mls_commit = m\<rparr>)"

lemma reads_connection_update_False [simp]: "reads_connection_update T False bs m = reads_update T bs m"
  by (simp add: reads_connection_update_def reads_update_def Boolean_from_bool_def)

lemma Boolean_roundtrip [simp]: "Boolean_into_bool (Boolean_from_bool b) = b"
  by (simp add: Boolean_from_bool_def)

lemma signaling_says:
  assumes "sound oc T M V"
  shows "\<exists>bs. signaling_bytes T msg = Ok bs \<and> signaling_of_bytes T bs = Ok msg"
  using signaling_bytes_total [OF soundD(3) [OF assms]] signaling_roundtrip [OF soundD(1) [OF assms]] by blast

section \<open>Making a commit\<close>

lemma session_update_step:
  assumes "sound oc T M V" "member_at M V conn gid me e None" "group_id session = gid"
  shows "\<exists>m e' conn'. MlsSession_update M session conn k = (Ok m, conn') \<and>
    view_commit V m = Some (gid, me, e, e') \<and> member_at M V conn' gid me e (Some e') \<and> same_tables conn conn'"
proof -
  have m: "member_at M V conn (group_id session) me e None" using assms(2,3) by simp
  from MlsSession_update_total [OF soundD(2,4) [OF assms(1)] m] obtain c conn' where
    u: "MlsSession_update M session conn k = (Ok c, conn')" by blast
  with MlsSession_update_meaning [OF soundD(2) [OF assms(1)] m u] assms(3) show ?thesis by auto
qed

lemma session_merge_step:
  assumes "sound oc T M V" "member_at M V conn gid me e (Some e')" "group_id session = gid"
  shows "\<exists>ts conn'. MlsSession_merge_update M session conn = (Ok ts, (\<lparr>group_id = gid, epoch = view_epoch V e'\<rparr>, conn')) \<and>
    exported V e' = Ok ts \<and> member_at M V conn' gid me e' None \<and> same_tables conn conn'"
proof -
  have m: "member_at M V conn (group_id session) me e (Some e')" using assms(2,3) by simp
  from MlsSession_merge_update_total [OF soundD(2,4) [OF assms(1)] m] obtain ts s' conn' where
    u: "MlsSession_merge_update M session conn = (Ok ts, (s', conn'))" by blast
  from MlsSession_merge_update_meaning [OF soundD(2) [OF assms(1)] m u] assms(3)
  have "s' = \<lparr>group_id = gid, epoch = view_epoch V e'\<rparr>" by (cases session) auto
  with MlsSession_merge_update_meaning [OF soundD(2) [OF assms(1)] m u] assms(3) u show ?thesis by auto
qed

lemma client_commit_step:
  assumes "sound oc T M V" "client_at M V J gid e i c"
  shows "\<exists>m ts e' c1 c2. client_mls_update M k c = (Ok m, c1) \<and> client_merge_update M c1 = (Ok ts, c2) \<and>
    view_commit V m = Some (gid, client_leaf, e, e') \<and> exported V e' = Ok ts \<and> client_at M V J gid e' i c2"
proof -
  obtain st conn where c: "c = (st, conn)" by (cases c)
  with assms(2) have st: "client_session st = \<lparr>group_id = gid, epoch = view_epoch V e\<rparr>" "client_internal st = i"
    "member_at M V conn gid client_leaf e None" "db_works J conn" by (auto simp: client_at_def)
  from session_update_step [OF assms(1) st(3), of "client_session st" k] st(1) obtain m e' conn1 where
    1: "MlsSession_update M (client_session st) conn k = (Ok m, conn1)" "view_commit V m = Some (gid, client_leaf, e, e')"
      "member_at M V conn1 gid client_leaf e (Some e')" "same_tables conn conn1" by auto
  from session_merge_step [OF assms(1) 1(3), of "client_session st"] st(1) obtain ts conn2 where
    2: "MlsSession_merge_update M (client_session st) conn1 = (Ok ts, (\<lparr>group_id = gid, epoch = view_epoch V e'\<rparr>, conn2))"
      "exported V e' = Ok ts" "member_at M V conn2 gid client_leaf e' None" "same_tables conn1 conn2" by auto
  have "db_works J conn2" using st(4) same_tables_db_works [OF same_tables_trans [OF 1(4) 2(4)], of J] by simp
  with c st 1 2 show ?thesis by (simp add: client_mls_update_def client_merge_update_def client_at_def)
qed

lemma client_store_step:
  assumes "client_at M V J gid e i c"
  shows "\<exists>c'. client_store_update J c = (Ok (), c') \<and> client_at M V J gid e i c'"
proof -
  obtain st conn where c: "c = (st, conn)" by (cases c)
  with assms have "db_works J conn" by (simp add: client_at_def)
  from client_store_update_total [OF this] obtain conn' where
    s: "client_store_update J (st, conn) = (Ok (), (st, conn'))" "db_works J conn'" by blast
  from client_store_update_Ok [OF s(1)] have "mls_storage conn' = mls_storage conn" by auto
  with assms c s show ?thesis by (auto simp: client_at_def intro: member_at_storage)
qed

lemma client_at_update_internal:
  "client_at M V J gid e i (st, conn) \<Longrightarrow> client_at M V J gid e i' (st\<lparr>client_internal := i'\<rparr>, conn)"
  by (simp add: client_at_def)

section \<open>Steps of the client\<close>

lemma client_update_step:
  assumes "sound oc T M V" "client_at M V J gid e ClientRunning c"
  shows "\<exists>ts m bs e' c'. ClientHandshakeState_update T J M k requested c = (Ok (client_secret ts, bs), c') \<and>
    view_commit V m = Some (gid, client_leaf, e, e') \<and> exported V e' = Ok ts \<and>
    reads_connection_update T requested bs m \<and>
    client_at M V J gid e' (WaitingForEpochKeyUpdate \<lparr>pu_mls_message = m, pu_traffic_secrets = ts\<rparr>) c'"
proof -
  from client_commit_step [OF assms] obtain m ts e' c1 st2 conn2 where
    1: "client_mls_update M k c = (Ok m, c1)" "client_merge_update M c1 = (Ok ts, (st2, conn2))"
      "view_commit V m = Some (gid, client_leaf, e, e')" "exported V e' = Ok ts" "client_at M V J gid e' ClientRunning (st2, conn2)"
    by fast
  obtain bs where 2: "signaling_bytes T (ConnectionUpdateMessage
      \<lparr>update_requested = Boolean_from_bool requested, mls_commit = m\<rparr>) = Ok bs"
    "reads_connection_update T requested bs m"
    using signaling_says [OF assms(1)] by (auto simp: reads_connection_update_def)
  obtain c' where 3: "client_store_update J (st2\<lparr>client_internal :=
      WaitingForEpochKeyUpdate \<lparr>pu_mls_message = m, pu_traffic_secrets = ts\<rparr>\<rparr>, conn2) = (Ok (), c')"
    "client_at M V J gid e' (WaitingForEpochKeyUpdate \<lparr>pu_mls_message = m, pu_traffic_secrets = ts\<rparr>) c'"
    using client_store_step [OF client_at_update_internal [OF 1(5)]] by blast
  have "\<not> ClientHandshakeState_is_waiting_for_response (fst c)"
    using assms(2) by (simp add: client_at_def ClientHandshakeState_is_waiting_for_response_def)
  with 1(1,2) 2(1) 3(1) have "ClientHandshakeState_update T J M k requested c = (Ok (client_secret ts, bs), c')"
    by (simp add: ClientHandshakeState_update_def Let_def)
  with 1(3,4) 2(2) 3(2) show ?thesis by blast
qed

lemma process_update_step:
  assumes "sound oc T M V" "member_at M V conn gid me e0 pend" "view_commit V m = Some (gid, by, e, e')" "by \<noteq> me"
    and "e = e0 \<and> (drop_pending \<or> pend = None) \<or> pend = Some e \<and> view_epoch V e = view_epoch V e0 + 1"
  shows "\<exists>ts ident conn'. process_mls_update oc M conn m drop_pending =
      (Ok (ts, \<lparr>group_id = gid, epoch = view_epoch V e'\<rparr>, ident), conn') \<and>
    exported V e' = Ok ts \<and> member_at M V conn' gid me e' None \<and> same_tables conn conn'"
proof -
  from process_mls_update_total [OF soundD(2,4) [OF assms(1)] assms(2-5) soundD(5) [OF assms(1)]]
  obtain ts session ident conn' where
    1: "process_mls_update oc M conn m drop_pending = (Ok (ts, session, ident), conn')" by blast
  from process_mls_update_meaning [OF soundD(2) [OF assms(1)] assms(2-5) 1] 1 show ?thesis by auto
qed

lemma epoch_key_step:
  assumes "sound oc T M V" "member_at M V conn gid me e pend" "group_id session = gid"
  shows "\<exists>bs. HandshakeState_create_epoch_key_update T M session conn = Ok bs \<and> reads_key T bs (view_epoch V e)"
proof -
  have m: "member_at M V conn (group_id session) me e pend" using assms(2,3) by simp
  from create_epoch_key_update_total [OF soundD(3,2) [OF assms(1)] m]
    create_epoch_key_update_reads [OF soundD(1,2) [OF assms(1)] m] show ?thesis by blast
qed

text \<open>An update of the server that requests one back is answered by an update of the client alone.\<close>

lemma client_answers_request:
  assumes "sound oc T M V" "client_at M V J gid e ClientRunning c"
    and "view_commit V m = Some (gid, server_leaf, e, e1)" "reads_connection_update T True bs m"
  shows "\<exists>ts m' rb e2 c'. ClientHandshakeState_receive_signaling_message oc T J M k bs c =
      (Ok (Some (ClientSecretUpdate (client_secret ts)), Some rb), c') \<and>
    view_commit V m' = Some (gid, client_leaf, e1, e2) \<and> exported V e2 = Ok ts \<and> reads_update T rb m' \<and>
    client_at M V J gid e2 (WaitingForEpochKeyUpdate \<lparr>pu_mls_message = m', pu_traffic_secrets = ts\<rparr>) c'"
proof -
  obtain st conn where c: "c = (st, conn)" by (cases c)
  with assms(2) have st: "client_internal st = ClientRunning" "member_at M V conn gid client_leaf e None" "db_works J conn"
    by (auto simp: client_at_def)
  from process_update_step [OF assms(1) st(2) assms(3), of False] obtain ts1 ident conn1 where
    1: "process_mls_update oc M conn m False = (Ok (ts1, \<lparr>group_id = gid, epoch = view_epoch V e1\<rparr>, ident), conn1)"
      "member_at M V conn1 gid client_leaf e1 None" "same_tables conn conn1" by auto
  let ?st = "st\<lparr>client_session := \<lparr>group_id = gid, epoch = view_epoch V e1\<rparr>\<rparr>"
  obtain kb where kb: "HandshakeState_create_epoch_key_update T M \<lparr>group_id = gid, epoch = view_epoch V e1\<rparr> conn1 = Ok kb"
    using epoch_key_step [OF assms(1) 1(2), of "\<lparr>group_id = gid, epoch = view_epoch V e1\<rparr>"] by auto
  have "client_at M V J gid e1 ClientRunning (?st, conn1)"
    using st 1 same_tables_db_works [OF 1(3), of J] by (simp add: client_at_def)
  from client_commit_step [OF assms(1) this] obtain m' ts e2 c1 st2 conn2 where
    2: "client_mls_update M k (?st, conn1) = (Ok m', c1)" "client_merge_update M c1 = (Ok ts, (st2, conn2))"
      "view_commit V m' = Some (gid, client_leaf, e1, e2)" "exported V e2 = Ok ts"
      "client_at M V J gid e2 ClientRunning (st2, conn2)" by fast
  let ?p = "WaitingForEpochKeyUpdate \<lparr>pu_mls_message = m', pu_traffic_secrets = ts\<rparr>"
  obtain rb where rb: "signaling_bytes T (ConnectionUpdateMessage
      \<lparr>update_requested = Boolean_from_bool False, mls_commit = m'\<rparr>) = Ok rb" "reads_connection_update T False rb m'"
    using signaling_says [OF assms(1)] by (auto simp: reads_connection_update_def)
  have process: "client_process_update oc T M k \<lparr>update_requested = Boolean_from_bool True, mls_commit = m\<rparr> (st, conn) =
      (Ok (client_secret ts, rb), (st2\<lparr>client_internal := ?p\<rparr>, conn2))"
    using 1(1) kb 2(1,2) rb(1) by (simp add: client_process_update_def Let_def)
  obtain c' where store: "client_store_update J (st2\<lparr>client_internal := ?p\<rparr>, conn2) = (Ok (), c')"
    "client_at M V J gid e2 ?p c'"
    using client_store_step [OF client_at_update_internal [OF 2(5)]] by blast
  from process store(1) assms(4) c st(1) have "ClientHandshakeState_receive_signaling_message oc T J M k bs c =
      (Ok (Some (ClientSecretUpdate (client_secret ts)), Some rb), c')"
    by (simp add: ClientHandshakeState_receive_signaling_message_def reads_connection_update_def Let_def)
  with 2(3,4) rb(2) store(2) show ?thesis by auto
qed

lemma client_ignores_step:
  assumes "client_at M V J gid e i c" "i \<noteq> ClientRunning" "reads_update T bs m"
  shows "ClientHandshakeState_receive_signaling_message oc T J M k bs c = (Ok (None, None), c)"
  using client_ignores_update [OF assms(3)] assms(1,2) by (cases c) (auto simp: client_at_def)

lemma client_key_step:
  assumes "sound oc T M V" "client_at M V J gid e i c" "reads_key T bs (view_epoch V e)"
    and "awaited_secret (fst c) = Some secret"
  shows "\<exists>c'. ClientHandshakeState_receive_signaling_message oc T J M k bs c =
      (Ok (Some (ServerSecretUpdate secret), None), c') \<and> client_at M V J gid e ClientRunning c'"
proof -
  obtain st conn where c: "c = (st, conn)" by (cases c)
  with assms(2) have "member_at M V conn (group_id (client_session st)) client_leaf e None" by (simp add: client_at_def)
  note eq = client_receive_key_eq [OF soundD(2) [OF assms(1)] this assms(3), of secret]
  obtain c' where "client_store_update J (st\<lparr>client_internal := ClientRunning\<rparr>, conn) = (Ok (), c')"
    "client_at M V J gid e ClientRunning c'"
    using client_store_step [OF client_at_update_internal [OF assms(2) [unfolded c]]] by blast
  with eq assms(4) c show ?thesis by simp
qed

section \<open>Steps of the server\<close>

lemma server_update_step:
  assumes "sound oc T M V" "server_at M V gid e None ServerRunning s"
  shows "\<exists>m bs e' s'. ServerHandshakeState_update T M k requested s = (Ok bs, s') \<and>
    view_commit V m = Some (gid, server_leaf, e, e') \<and> reads_connection_update T requested bs m \<and>
    server_at M V gid e (Some e') WaitingForUpdate s'"
proof -
  obtain st conn where s: "s = (st, conn)" by (cases s)
  with assms(2) have st: "server_session st = \<lparr>group_id = gid, epoch = view_epoch V e\<rparr>" "server_internal st = ServerRunning"
    "member_at M V conn gid server_leaf e None" by (auto simp: server_at_def)
  from session_update_step [OF assms(1) st(3), of "server_session st" k] st(1) obtain m e' conn1 where
    1: "MlsSession_update M (server_session st) conn k = (Ok m, conn1)" "view_commit V m = Some (gid, server_leaf, e, e')"
      "member_at M V conn1 gid server_leaf e (Some e')" by auto
  obtain bs where 2: "signaling_bytes T (ConnectionUpdateMessage
      \<lparr>update_requested = Boolean_from_bool requested, mls_commit = m\<rparr>) = Ok bs"
    "reads_connection_update T requested bs m"
    using signaling_says [OF assms(1)] by (auto simp: reads_connection_update_def)
  have "ServerHandshakeState_update T M k requested s = (Ok bs, (st\<lparr>server_internal := WaitingForUpdate\<rparr>, conn1))"
    using s st(2) 1(1) 2(1)
    by (simp add: ServerHandshakeState_update_def ServerHandshakeState_is_waiting_for_response_def server_mls_update_def)
  with st(1) 1(2,3) 2(2) show ?thesis by (fastforce simp: server_at_def)
qed

text \<open>An update of the client, built on the server's epoch or on its pending commit.\<close>

lemma server_receives_update:
  assumes "sound oc T M V" "server_at M V gid e0 pend i s" "view_commit V m = Some (gid, client_leaf, e, e')"
    and "e = e0 \<or> pend = Some e \<and> view_epoch V e = view_epoch V e0 + 1" "reads_update T bs m"
  shows "\<exists>ts rb s'. ServerHandshakeState_receive_signaling_message oc T M k bs s = (Ok (ts, Some rb), s') \<and>
    exported V e' = Ok ts \<and> reads_key T rb (view_epoch V e') \<and> server_at M V gid e' None ServerRunning s'"
proof -
  obtain st conn where s: "s = (st, conn)" by (cases s)
  with assms(2) have st: "member_at M V conn gid server_leaf e0 pend" by (simp add: server_at_def)
  from process_update_step [OF assms(1) st assms(3), of True] assms(4) obtain ts ident conn1 where
    1: "process_mls_update oc M conn m True = (Ok (ts, \<lparr>group_id = gid, epoch = view_epoch V e'\<rparr>, ident), conn1)"
      "exported V e' = Ok ts" "member_at M V conn1 gid server_leaf e' None" by auto
  obtain rb where rb: "HandshakeState_create_epoch_key_update T M \<lparr>group_id = gid, epoch = view_epoch V e'\<rparr> conn1 = Ok rb"
    "reads_key T rb (view_epoch V e')"
    using epoch_key_step [OF assms(1) 1(3), of "\<lparr>group_id = gid, epoch = view_epoch V e'\<rparr>"] by auto
  from s 1 rb assms(5) show ?thesis
    by (simp add: ServerHandshakeState_receive_signaling_message_def server_process_update_def reads_update_def
        server_at_def Let_def)
qed

text \<open>An update of the client that requests one back: the server applies it and answers with its own.\<close>

lemma server_answers_request:
  assumes "sound oc T M V" "server_at M V gid e None i s" "view_commit V m = Some (gid, client_leaf, e, e')"
    and "reads_connection_update T True bs m"
  shows "\<exists>ts m' rb e2 s'. ServerHandshakeState_receive_signaling_message oc T M k bs s = (Ok (ts, Some rb), s') \<and>
    exported V e' = Ok ts \<and> view_commit V m' = Some (gid, server_leaf, e', e2) \<and> reads_update T rb m' \<and>
    server_at M V gid e' (Some e2) WaitingForUpdate s'"
proof -
  obtain st conn where s: "s = (st, conn)" by (cases s)
  with assms(2) have st: "member_at M V conn gid server_leaf e None" by (simp add: server_at_def)
  let ?session = "\<lparr>group_id = gid, epoch = view_epoch V e'\<rparr>"
  from process_update_step [OF assms(1) st assms(3), of True] obtain ts ident conn1 where
    1: "process_mls_update oc M conn m True = (Ok (ts, ?session, ident), conn1)"
      "exported V e' = Ok ts" "member_at M V conn1 gid server_leaf e' None" by auto
  obtain kb where kb: "HandshakeState_create_epoch_key_update T M ?session conn1 = Ok kb"
    using epoch_key_step [OF assms(1) 1(3), of "\<lparr>group_id = gid, epoch = view_epoch V e'\<rparr>"] by auto
  from session_update_step [OF assms(1) 1(3), of ?session k] obtain m' e2 conn2 where
    2: "MlsSession_update M ?session conn1 k = (Ok m', conn2)" "view_commit V m' = Some (gid, server_leaf, e', e2)"
      "member_at M V conn2 gid server_leaf e' (Some e2)" by auto
  obtain rb where rb: "signaling_bytes T (ConnectionUpdateMessage
      \<lparr>update_requested = Boolean_from_bool False, mls_commit = m'\<rparr>) = Ok rb" "reads_connection_update T False rb m'"
    using signaling_says [OF assms(1)] by (auto simp: reads_connection_update_def)
  have "ServerHandshakeState_receive_signaling_message oc T M k bs s =
      (Ok (ts, Some rb), (st\<lparr>server_internal := WaitingForUpdate, server_session := ?session\<rparr>, conn2))"
    using s 1(1) kb 2(1) rb(1) assms(4)
    by (simp add: ServerHandshakeState_receive_signaling_message_def server_process_update_def server_mls_update_def
        reads_connection_update_def Let_def)
  with 1(2) 2(2,3) rb(2) show ?thesis by (fastforce simp: server_at_def)
qed

section \<open>Steps of a resumption\<close>

text \<open>The bytes of a resumption message.\<close>

abbreviation reads_resumption :: "'m tls_codec \<Rightarrow> bytes \<Rightarrow> 'm \<Rightarrow> bool" where
  "reads_resumption T hello m \<equiv>
     handshake_bytes T (MlsTlsHandshake_from (ResumptionPayload \<lparr>resumption_commit = m\<rparr>)) = Ok hello"

lemma client_resume_fresh:
  assumes "sound oc T M V" "handshakes_serialise T" "client_at M V J gid e ClientRunning c"
  shows "\<exists>ts m hello e' c'. ClientHandshakeState_resume T M k c = (Ok (ts, hello), c') \<and> reads_resumption T hello m \<and>
    view_commit V m = Some (gid, client_leaf, e, e') \<and> exported V e' = Ok ts \<and>
    client_at M V J gid e' (WaitingForConnectionConfirmation \<lparr>pu_mls_message = m, pu_traffic_secrets = ts\<rparr>) c'"
proof -
  obtain st conn where c: "c = (st, conn)" by (cases c)
  with assms(3) have run: "client_internal st = ClientRunning" "st\<lparr>client_internal := ClientRunning\<rparr> = st"
    by (auto simp: client_at_def)
  from client_commit_step [OF assms(1,3), of k] obtain m ts e' c1 st2 conn2 where
    1: "client_mls_update M k c = (Ok m, c1)" "client_merge_update M c1 = (Ok ts, (st2, conn2))"
      "view_commit V m = Some (gid, client_leaf, e, e')" "exported V e' = Ok ts" "client_at M V J gid e' ClientRunning (st2, conn2)"
    by fast
  have m: "client_mls_update M k (st\<lparr>client_internal := ClientRunning\<rparr>, conn) = (Ok m, c1)"
    unfolding run(2) using 1(1) c by simp
  obtain hello where 2: "reads_resumption T hello m" using handshake_bytes_total [OF assms(2)] by blast
  have "ClientHandshakeState_resume T M k c = (Ok (ts, hello),
      (st2\<lparr>client_internal := WaitingForConnectionConfirmation \<lparr>pu_mls_message = m, pu_traffic_secrets = ts\<rparr>\<rparr>, conn2))"
    using c run(1) 1(2) 2 m by (simp add: ClientHandshakeState_resume_def err_as_def Let_def)
  with 1(3,4) 2 client_at_update_internal [OF 1(5)] show ?thesis by blast
qed

text \<open>A client that waits for the answer to an update resumes with that update.\<close>

lemma client_resume_again:
  assumes "handshakes_serialise T" "client_at M V J gid e (WaitingForEpochKeyUpdate p) c"
  shows "\<exists>hello c'. ClientHandshakeState_resume T M k c = (Ok (pu_traffic_secrets p, hello), c') \<and>
    reads_resumption T hello (pu_mls_message p) \<and> client_at M V J gid e (WaitingForConnectionConfirmation p) c'"
proof -
  obtain st conn where c: "c = (st, conn)" by (cases c)
  obtain hello where 1: "reads_resumption T hello (pu_mls_message p)" using handshake_bytes_total [OF assms(1)] by blast
  with c assms(2) have "ClientHandshakeState_resume T M k c = (Ok (pu_traffic_secrets p, hello),
      (st\<lparr>client_internal := WaitingForConnectionConfirmation p\<rparr>, conn))"
    by (simp add: ClientHandshakeState_resume_def client_at_def Let_def)
  with 1 client_at_update_internal [OF assms(2) [unfolded c]] show ?thesis by blast
qed

text \<open>
  What OpenMLS reports of a commit it has processed: the credential of the member that made it, here
  the one client of the group.
\<close>

definition client_commits_as :: "('s, 'g, 'm, 'o) openmls \<Rightarrow> ('g, 'm, 'o, 'e) mls_view \<Rightarrow> Uuid \<Rightarrow> bool" where
  "client_commits_as M V client_id \<longleftrightarrow>
     (\<forall>m gid e e' pm g s processed g' s'. view_commit V m = Some (gid, client_leaf, e, e') \<longrightarrow>
        mls_extract M m = BodyPrivateMessage pm \<longrightarrow> mls_process_message M g pm s = (Ok (processed, g'), s') \<longrightarrow>
        pm_credential processed = Basic client_id)"

lemma process_mls_update_identity:
  assumes "client_commits_as M V client_id" "view_commit V m = Some (gid, client_leaf, e, e')"
    and "process_mls_update oc M conn m drop_pending = (Ok (ts, session, ident), conn')"
  shows "ident = ClientIdentity client_id"
  using assms(3)
proof (rule process_mls_update_cases)
  fix pm g0 conn0 processed g1 conn1 staged
  assume pm: "mls_extract M m = BodyPrivateMessage pm"
    and p: "with_provider (\<lambda>e. ConnectionUpdateError (BoxedMls e)) (mls_process_message M g0 pm) conn0 = (Ok (processed, g1), conn1)"
    and v: "validate_update M processed = Ok (staged, ident)"
  from p assms(1,2) pm have "pm_credential processed = Basic client_id"
    unfolding with_provider_Ok_iff client_commits_as_def by blast
  with v show ?thesis by (auto simp: validate_update_Ok)
qed

lemma server_resumption_step:
  assumes "sound oc T M V" "client_commits_as M V client_id" "server_at M V gid e0 pend i (sst, conn)"
    and "view_commit V m = Some (gid, client_leaf, e, e')" "e = e0 \<or> pend = Some e \<and> view_epoch V e = view_epoch V e0 + 1"
    and "reads_resumption T hello m"
  shows "\<exists>sst' ts answer conn'. ServerHandshake_start oc T M conn k hello =
      (Ok (sst', ts, ClientIdentity client_id, answer), conn') \<and> exported V e' = Ok ts \<and>
    signaling_of_bytes T answer = Ok (ConnectionConfirmationMessage \<lparr>eku_epoch = view_epoch V e'\<rparr>) \<and>
    server_at M V gid e' None ServerRunning (sst', conn')"
proof -
  from assms(3) have st: "member_at M V conn gid server_leaf e0 pend" by (simp add: server_at_def)
  note start = server_resumption_start [OF soundD(1) [OF assms(1)] assms(6), of oc M conn k]
  from server_resumption_total [OF soundD(3,2,4) [OF assms(1)] st assms(4) soundD(5) [OF assms(1)] assms(5)]
  obtain sst' ts ident answer conn' where
    p: "process_resumption oc T M conn \<lparr>resumption_commit = m\<rparr> = (Ok (sst', ts, ident, answer), conn')" by blast
  then obtain session where "process_mls_update oc M conn m True = (Ok (ts, session, ident), conn')"
    by (auto simp: process_resumption_def bindS_eq_Ok Let_def)
  note ident = process_mls_update_identity [OF assms(2,4) this]
  from server_resumption_meaning [OF soundD(1,2) [OF assms(1)] st assms(4,5) p] p start ident
  show ?thesis by (simp add: server_at_def)
qed

lemma client_confirmation_step:
  assumes "sound oc T M V" "client_at M V J gid e (WaitingForConnectionConfirmation p) c"
    and "signaling_of_bytes T bs = Ok (ConnectionConfirmationMessage \<lparr>eku_epoch = view_epoch V e\<rparr>)"
  shows "\<exists>c'. ClientHandshakeState_receive_signaling_message oc T J M k bs c = (Ok (None, None), c') \<and>
    client_at M V J gid e ClientRunning c'"
proof -
  obtain st conn where c: "c = (st, conn)" by (cases c)
  let ?st = "st\<lparr>client_internal := ClientRunning\<rparr>"
  from assms(2) c have "member_at M V conn (group_id (client_session ?st)) client_leaf e None" by (simp add: client_at_def)
  note check = epoch_key_update_meaning(2) [OF soundD(2) [OF assms(1)] this]
  obtain c' where store: "client_store_update J (?st, conn) = (Ok (), c')" "client_at M V J gid e ClientRunning c'"
    using client_store_step [OF client_at_update_internal [OF assms(2) [unfolded c]]] by blast
  with c assms(2,3) check have "ClientHandshakeState_receive_signaling_message oc T J M k bs c = (Ok (None, None), c')"
    by (simp add: ClientHandshakeState_receive_signaling_message_def Let_def client_check_epoch_def client_at_def
        HandshakeState_process_epoch_key_update_def)
  with store(2) show ?thesis by blast
qed

section \<open>Properties\<close>

text \<open>
  C38. An update of the client that requests an update back never completes: the server applies it and
  answers with an update of its own in place of the confirmation; the client, which waits for that
  confirmation, ignores the answer.  From then on both sides wait for the other, neither
  can update again, and the client never adopts the server's new secret.
\<close>
theorem client_requested_update_stalls:
  assumes "sound oc T M V" "client_at M V J gid e ClientRunning c" "server_at M V gid e None ServerRunning s"
  shows "\<exists>bs c' ts answer s'.
    ClientHandshakeState_update T J M ck True c = (Ok (client_secret ts, bs), c') \<and>
    ServerHandshakeState_receive_signaling_message oc T M sk bs s = (Ok (ts, Some answer), s') \<and>
    ClientHandshakeState_receive_signaling_message oc T J M ck answer c' = (Ok (None, None), c') \<and>
    awaited_secret (fst c') = Some (server_secret ts) \<and>
    (\<forall>requested. ClientHandshakeState_update T J M ck requested c' = (Err WaitingForResponse, c') \<and>
       ServerHandshakeState_update T M sk requested s' = (Err WaitingForResponse, s'))"
proof -
  from client_update_step [OF assms(1,2), of ck True] obtain ts m bs e' c' where
    u: "ClientHandshakeState_update T J M ck True c = (Ok (client_secret ts, bs), c')"
      "view_commit V m = Some (gid, client_leaf, e, e')" "exported V e' = Ok ts" "reads_connection_update T True bs m"
      "client_at M V J gid e' (WaitingForEpochKeyUpdate \<lparr>pu_mls_message = m, pu_traffic_secrets = ts\<rparr>) c'"
    by blast
  from server_answers_request [OF assms(1,3) u(2,4), of sk] u(3) obtain m' answer e2 s' where
    a: "ServerHandshakeState_receive_signaling_message oc T M sk bs s = (Ok (ts, Some answer), s')"
      "reads_update T answer m'" "server_at M V gid e' (Some e2) WaitingForUpdate s'" by auto
  have "ClientHandshakeState_receive_signaling_message oc T J M ck answer c' = (Ok (None, None), c')"
    by (rule client_ignores_step [OF u(5) _ a(2)]) simp
  moreover have "awaited_secret (fst c') = Some (server_secret ts)"
    using u(5) by (simp add: client_at_def awaited_secret_def)
  moreover have "ClientHandshakeState_update T J M ck requested c' = (Err WaitingForResponse, c') \<and>
       ServerHandshakeState_update T M sk requested s' = (Err WaitingForResponse, s')" for requested
    using u(5) a(3)
    by (simp add: client_at_def server_at_def ClientHandshakeState_update_def ServerHandshakeState_update_def
        ClientHandshakeState_is_waiting_for_response_def ServerHandshakeState_is_waiting_for_response_def)
  ultimately show ?thesis using u(1) a(1) by blast
qed

lemma sym_sound: "sound False sym_tls sym_mls sym_view"
  by (simp add: sound_def sym_tls_laws sym_mls_laws sym_nothing_fails)

text \<open>Both ends of the symbolic group in epoch 1.\<close>

definition sym_client_side :: "(sym_storage, sym_message) client" where
  "sym_client_side = (\<lparr>profile_id = [7], client_session = \<lparr>group_id = [1], epoch = 1\<rparr>, client_internal = ClientRunning\<rparr>,
     sym_member 1 1 11 None)"

definition sym_server_side :: "sym_storage server" where
  "sym_server_side = (\<lparr>server_session = \<lparr>group_id = [1], epoch = 1\<rparr>, server_internal = ServerRunning\<rparr>, sym_member 0 1 11 None)"

lemma sym_server_at: "server_at sym_mls sym_view [1] (1, 11) None ServerRunning sym_server_side"
  using sym_member_at_epoch [of 0 1 11 None] by (simp add: server_at_def sym_view_def sym_server_side_def)

lemma sym_client_at: "client_at sym_mls sym_view sym_json [1] (1, 11) ClientRunning sym_client_side"
  using sym_member_at_epoch [of 1 1 11 None]
  by (simp add: client_at_def sym_view_def db_works_def sym_client_side_def sym_member_def sym_json_def)

theorem client_requested_update_stalls_witness:
  "\<exists>bs c' ts answer s'.
     ClientHandshakeState_update sym_tls sym_json sym_mls sym_signer True sym_client_side = (Ok (client_secret ts, bs), c') \<and>
     ServerHandshakeState_receive_signaling_message False sym_tls sym_mls sym_signer bs sym_server_side =
       (Ok (ts, Some answer), s') \<and>
     ClientHandshakeState_receive_signaling_message False sym_tls sym_json sym_mls sym_signer answer c' = (Ok (None, None), c') \<and>
     ClientHandshakeState_update sym_tls sym_json sym_mls sym_signer False c' = (Err WaitingForResponse, c') \<and>
     ServerHandshakeState_update sym_tls sym_mls sym_signer False s' = (Err WaitingForResponse, s')"
  using client_requested_update_stalls [OF sym_sound sym_client_at sym_server_at, of sym_signer sym_signer] by blast

end
