(* ===== verification/Handshake_Tests.thy ===== *)
theory Handshake_Tests
  imports End_To_End Update_Rounds
begin

text \<open>
  The repository's handshake tests as functions of their environment, and that they pass in every
  environment in which nothing outside the program fails: \<^verbatim>\<open>handshake\<close> of
  \<^verbatim>\<open>src/mls_handshake/state_machine/tests.rs\<close>, which drives the two state machines through updates,
  crossing updates and resumptions, and \<^verbatim>\<open>mls_handshake\<close> of \<^verbatim>\<open>src/mls_handshake/mod.rs\<close>, which runs two
  handshake objects over a transport.  A failed \<^verbatim>\<open>unwrap\<close> or \<^verbatim>\<open>assert\<close> is a panic.
\<close>

section \<open>Unwrapping and asserting\<close>

fun unwrap :: "('e, 'a) res \<Rightarrow> ('f, 'a) res" where
  "unwrap (Ok x) = Ok x"
| "unwrap (Err e) = Panic"
| "unwrap Panic = Panic"

fun unwrap_some :: "'a option \<Rightarrow> ('f, 'a) res" where
  "unwrap_some (Some x) = Ok x"
| "unwrap_some None = Panic"

definition assert_that :: "bool \<Rightarrow> ('f, unit) res" where
  "assert_that b = (if b then Ok () else Panic)"

text \<open>\<^verbatim>\<open>let Some(SecretUpdate::..(secret)) = .. else { panic!(..) }\<close>\<close>

fun expect_client_secret :: "SecretUpdate option \<Rightarrow> ('f, ClientSecret) res" where
  "expect_client_secret (Some (ClientSecretUpdate secret)) = Ok secret"
| "expect_client_secret _ = Panic"

fun expect_server_secret :: "SecretUpdate option \<Rightarrow> ('f, ServerSecret) res" where
  "expect_server_secret (Some (ServerSecretUpdate secret)) = Ok secret"
| "expect_server_secret _ = Panic"

text \<open>A call on the client's or the server's side of the test, unwrapped.\<close>

definition at_client :: "('c \<Rightarrow> ('e, 'a, 'c) outcome) \<Rightarrow> 'c \<times> 'd \<Rightarrow> ('f, 'a, 'c \<times> 'd) outcome" where
  "at_client call w = (case w of (c, d) \<Rightarrow> case call c of (r, c) \<Rightarrow> (unwrap r, (c, d)))"

definition at_server :: "('d \<Rightarrow> ('e, 'a, 'd) outcome) \<Rightarrow> 'c \<times> 'd \<Rightarrow> ('f, 'a, 'c \<times> 'd) outcome" where
  "at_server call w = (case w of (c, d) \<Rightarrow> case call d of (r, d) \<Rightarrow> (unwrap r, (c, d)))"

lemma at_client_Ok [simp]: "call c = (Ok x, c') \<Longrightarrow> at_client call (c, d) = (Ok x, (c', d))"
  by (simp add: at_client_def)

lemma at_server_Ok [simp]: "call d = (Ok x, d') \<Longrightarrow> at_server call (c, d) = (Ok x, (c, d'))"
  by (simp add: at_server_def)

section \<open>The test of the state machines\<close>

definition ClientHandshake_start_from_seed ::
    "'m tls_codec \<Rightarrow> ('s, 'g, 'm, 'o) openmls \<Rightarrow> SignatureKeyPair \<Rightarrow> SignaturePublicKey \<Rightarrow> Uuid \<Rightarrow> 's Connection
       \<Rightarrow> (HandshakeError, WaitingForServerHello \<times> bytes \<times> SignatureKeyPair, 's Connection) outcome" where
  "ClientHandshake_start_from_seed T M new_keypair verifying_key client_id conn =
     bindS (ClientHandshake_start T M conn new_keypair verifying_key client_id)
       (\<lambda>(waiting_for_server_hello, client_hello_bytes) conn.
     (Ok (waiting_for_server_hello, client_hello_bytes, new_keypair), conn))"

text \<open>A connection to a new database in memory; \<open>s\<close> is what OpenMLS finds there.\<close>

definition open_in_memory :: "'s \<Rightarrow> 's Connection" where
  "open_in_memory s = \<lparr>mls_storage = s, handshake_states = None, faults = []\<rparr>"

type_synonym 's test_dbs = "'s Connection \<times> 's Connection"
type_synonym ('s, 'm) test_sides = "('s, 'm) client \<times> 's server"

definition test_databases ::
    "('s, 'g, 'm, 'o) openmls \<Rightarrow> 's \<Rightarrow> 's \<Rightarrow> (unit, unit, 's test_dbs) outcome" where
  "test_databases M client_storage server_storage =
     bindS (at_client ClientHandshakeState_create_table
              (open_in_memory client_storage, open_in_memory server_storage)) (\<lambda>_ dbs.
     bindS (at_client (initialize_storage M) dbs) (\<lambda>_ dbs.
     bindS (at_server (initialize_storage M) dbs) (\<lambda>_ dbs.
     bindS (at_client (with_provider id (mls_initialize M)) dbs) (\<lambda>_ dbs.
     at_server (with_provider id (mls_initialize M)) dbs))))"

definition test_first_handshake ::
    "bool \<Rightarrow> 'm tls_codec \<Rightarrow> ('s, 'g, 'm, 'o) openmls \<Rightarrow> SignatureKeyPair \<Rightarrow> SignatureKeyPair \<Rightarrow> Uuid \<Rightarrow> 's test_dbs
       \<Rightarrow> (unit, 'm ClientHandshakeState \<times> ServerHandshakeState \<times> SignatureKeyPair, 's test_dbs) outcome" where
  "test_first_handshake oc T M new_keypair server_signer test_profile_id dbs =
     bindS (at_client (ClientHandshake_start_from_seed T M new_keypair (signer_public server_signer) test_profile_id) dbs)
       (\<lambda>(waiting, client_hello, client_signer) dbs.
     bindS (at_server (\<lambda>conn. ServerHandshake_start oc T M conn server_signer client_hello) dbs)
       (\<lambda>(server_state, server_traffic_secrets, client_identity, server_hello) dbs.
     bindS (assert_that (client_identity = ClientIdentity test_profile_id), dbs) (\<lambda>_ dbs.
     bindS (at_client (\<lambda>conn. receive_server_hello T M waiting conn server_hello) dbs)
       (\<lambda>(client_state, client_traffic_secrets) dbs.
     bindS (assert_that (client_traffic_secrets = server_traffic_secrets), dbs) (\<lambda>_ dbs.
     (Ok (client_state, server_state, client_signer), dbs))))))"

text \<open>The server updates and requests an update back.\<close>

definition test_requested_update ::
    "bool \<Rightarrow> 'm tls_codec \<Rightarrow> 'm json \<Rightarrow> ('s, 'g, 'm, 'o) openmls \<Rightarrow> SignatureKeyPair \<Rightarrow> SignatureKeyPair
       \<Rightarrow> ('s, 'm) test_sides \<Rightarrow> (unit, unit, ('s, 'm) test_sides) outcome" where
  "test_requested_update oc T J M ck sk w =
     bindS (at_server (ServerHandshakeState_update T M sk True) w) (\<lambda>connection_update w.
     bindS (at_client (ClientHandshakeState_receive_signaling_message oc T J M ck connection_update) w)
       (\<lambda>(client_update, client_message) w.
     bindS (expect_client_secret client_update, w) (\<lambda>client_secret w.
     bindS (unwrap_some client_message, w) (\<lambda>client_message_bytes w.
     bindS (at_server (ServerHandshakeState_receive_signaling_message oc T M sk client_message_bytes) w)
       (\<lambda>(server_traffic_secrets, server_message) w.
     bindS (unwrap_some server_message, w) (\<lambda>server_message_bytes w.
     bindS (at_client (ClientHandshakeState_receive_signaling_message oc T J M ck server_message_bytes) w)
       (\<lambda>(secret_update, client_message) w.
     bindS (expect_server_secret secret_update, w) (\<lambda>server_secret w.
     bindS (assert_that (client_message = None), w) (\<lambda>_ w.
     (assert_that (\<lparr>client_secret = client_secret, server_secret = server_secret\<rparr> = server_traffic_secrets), w))))))))))"

text \<open>The client updates and does not request an update back.\<close>

definition test_client_update ::
    "bool \<Rightarrow> 'm tls_codec \<Rightarrow> 'm json \<Rightarrow> ('s, 'g, 'm, 'o) openmls \<Rightarrow> SignatureKeyPair \<Rightarrow> SignatureKeyPair
       \<Rightarrow> ('s, 'm) test_sides \<Rightarrow> (unit, unit, ('s, 'm) test_sides) outcome" where
  "test_client_update oc T J M ck sk w =
     bindS (at_client (ClientHandshakeState_update T J M ck False) w) (\<lambda>(client_secret, connection_update) w.
     bindS (at_server (ServerHandshakeState_receive_signaling_message oc T M sk connection_update) w)
       (\<lambda>(server_traffic_secrets, server_message) w.
     bindS (unwrap_some server_message, w) (\<lambda>server_message_bytes w.
     bindS (at_client (ClientHandshakeState_receive_signaling_message oc T J M ck server_message_bytes) w)
       (\<lambda>(secret_update, value2) w.
     bindS (assert_that (value2 = None), w) (\<lambda>_ w.
     bindS (expect_server_secret secret_update, w) (\<lambda>server_secret w.
     (assert_that (\<lparr>client_secret = client_secret, server_secret = server_secret\<rparr> = server_traffic_secrets), w)))))))"

text \<open>\<^verbatim>\<open>ServerHandshake::start\<close> on a resumption; the new server state replaces the old one.\<close>

definition test_server_start ::
    "bool \<Rightarrow> 'm tls_codec \<Rightarrow> ('s, 'g, 'm, 'o) openmls \<Rightarrow> SignatureKeyPair \<Rightarrow> bytes \<Rightarrow> 's server
       \<Rightarrow> (HandshakeError, TrafficSecrets \<times> ClientIdentity \<times> bytes, 's server) outcome" where
  "test_server_start oc T M sk message_bytes server =
     (case ServerHandshake_start oc T M (snd server) sk message_bytes of
        (Ok (server_state, r), conn) \<Rightarrow> (Ok r, (server_state, conn))
      | (Err e, conn) \<Rightarrow> (Err e, (fst server, conn))
      | (Panic, conn) \<Rightarrow> (Panic, (fst server, conn)))"

definition test_resumption ::
    "bool \<Rightarrow> 'm tls_codec \<Rightarrow> 'm json \<Rightarrow> ('s, 'g, 'm, 'o) openmls \<Rightarrow> SignatureKeyPair \<Rightarrow> SignatureKeyPair \<Rightarrow> Uuid
       \<Rightarrow> ('s, 'm) test_sides \<Rightarrow> (unit, unit, ('s, 'm) test_sides) outcome" where
  "test_resumption oc T J M ck sk test_profile_id w =
     bindS (at_client (ClientHandshakeState_resume T M ck) w) (\<lambda>(client_traffic_secrets, resumption) w.
     bindS (at_server (test_server_start oc T M sk resumption) w)
       (\<lambda>(server_traffic_secrets, client_identity, connection_confirmation) w.
     bindS (assert_that (client_identity = ClientIdentity test_profile_id), w) (\<lambda>_ w.
     bindS (at_client (ClientHandshakeState_receive_signaling_message oc T J M ck connection_confirmation) w)
       (\<lambda>(secret_update, message_bytes) w.
     bindS (assert_that (message_bytes = None), w) (\<lambda>_ w.
     bindS (assert_that (secret_update = None), w) (\<lambda>_ w.
     (assert_that (client_traffic_secrets = server_traffic_secrets), w)))))))"

text \<open>Both sides create an update; the client's takes precedence.\<close>

definition test_crossing_updates ::
    "bool \<Rightarrow> 'm tls_codec \<Rightarrow> 'm json \<Rightarrow> ('s, 'g, 'm, 'o) openmls \<Rightarrow> SignatureKeyPair \<Rightarrow> SignatureKeyPair
       \<Rightarrow> ('s, 'm) test_sides \<Rightarrow> (unit, unit, ('s, 'm) test_sides) outcome" where
  "test_crossing_updates oc T J M ck sk w =
     bindS (at_client (ClientHandshakeState_update T J M ck False) w) (\<lambda>(client_secret, connection_update) w.
     bindS (at_server (ServerHandshakeState_update T M sk False) w) (\<lambda>server_message_bytes w.
     bindS (at_client (ClientHandshakeState_receive_signaling_message oc T J M ck server_message_bytes) w)
       (\<lambda>(secret_update, server_message) w.
     bindS (assert_that (server_message = None), w) (\<lambda>_ w.
     bindS (assert_that (secret_update = None), w) (\<lambda>_ w.
     bindS (at_server (ServerHandshakeState_receive_signaling_message oc T M sk connection_update) w)
       (\<lambda>(server_traffic_secrets, server_message) w.
     bindS (unwrap_some server_message, w) (\<lambda>server_message_bytes w.
     bindS (at_client (ClientHandshakeState_receive_signaling_message oc T J M ck server_message_bytes) w)
       (\<lambda>(secret_update, client_message) w.
     bindS (assert_that (client_message = None), w) (\<lambda>_ w.
     bindS (expect_server_secret secret_update, w) (\<lambda>server_secret w.
     (assert_that (\<lparr>client_secret = client_secret, server_secret = server_secret\<rparr> = server_traffic_secrets), w)))))))))))"

text \<open>The client's update does not reach the server, and the client resumes.\<close>

definition test_lost_update ::
    "bool \<Rightarrow> 'm tls_codec \<Rightarrow> 'm json \<Rightarrow> ('s, 'g, 'm, 'o) openmls \<Rightarrow> SignatureKeyPair \<Rightarrow> SignatureKeyPair \<Rightarrow> Uuid
       \<Rightarrow> ('s, 'm) test_sides \<Rightarrow> (unit, unit, ('s, 'm) test_sides) outcome" where
  "test_lost_update oc T J M ck sk test_profile_id w =
     bindS (at_client (ClientHandshakeState_update T J M ck False) w) (\<lambda>(update_secret, _) w.
     bindS (at_client (ClientHandshakeState_resume T M ck) w) (\<lambda>(client_traffic_secrets, resumption) w.
     bindS (assert_that (update_secret = client_secret client_traffic_secrets), w) (\<lambda>_ w.
     bindS (at_server (test_server_start oc T M sk resumption) w)
       (\<lambda>(server_traffic_secrets, client_identity, connection_confirmation) w.
     bindS (assert_that (client_identity = ClientIdentity test_profile_id), w) (\<lambda>_ w.
     bindS (assert_that (client_traffic_secrets = server_traffic_secrets), w) (\<lambda>_ w.
     bindS (at_client (ClientHandshakeState_receive_signaling_message oc T J M ck connection_confirmation) w)
       (\<lambda>(secret_update, message_bytes) w.
     bindS (assert_that (message_bytes = None), w) (\<lambda>_ w.
     (assert_that (secret_update = None), w)))))))))"

text \<open>
  The parts that follow the first handshake each leave both sides ready for the next; the test runs them
  one after the other, once each.
\<close>

datatype test_round = RequestedUpdate | ClientUpdate | ResumedConnection | CrossingUpdates | LostUpdate

fun run_round ::
    "bool \<Rightarrow> 'm tls_codec \<Rightarrow> 'm json \<Rightarrow> ('s, 'g, 'm, 'o) openmls \<Rightarrow> SignatureKeyPair \<Rightarrow> SignatureKeyPair \<Rightarrow> Uuid
       \<Rightarrow> test_round \<Rightarrow> ('s, 'm) test_sides \<Rightarrow> (unit, unit, ('s, 'm) test_sides) outcome" where
  "run_round oc T J M ck sk test_profile_id RequestedUpdate w = test_requested_update oc T J M ck sk w"
| "run_round oc T J M ck sk test_profile_id ClientUpdate w = test_client_update oc T J M ck sk w"
| "run_round oc T J M ck sk test_profile_id ResumedConnection w = test_resumption oc T J M ck sk test_profile_id w"
| "run_round oc T J M ck sk test_profile_id CrossingUpdates w = test_crossing_updates oc T J M ck sk w"
| "run_round oc T J M ck sk test_profile_id LostUpdate w = test_lost_update oc T J M ck sk test_profile_id w"

fun run_rounds ::
    "bool \<Rightarrow> 'm tls_codec \<Rightarrow> 'm json \<Rightarrow> ('s, 'g, 'm, 'o) openmls \<Rightarrow> SignatureKeyPair \<Rightarrow> SignatureKeyPair \<Rightarrow> Uuid
       \<Rightarrow> test_round list \<Rightarrow> ('s, 'm) test_sides \<Rightarrow> (unit, unit, ('s, 'm) test_sides) outcome" where
  "run_rounds oc T J M ck sk test_profile_id [] w = (Ok (), w)"
| "run_rounds oc T J M ck sk test_profile_id (r # rs) w =
     bindS (run_round oc T J M ck sk test_profile_id r w) (\<lambda>_ w. run_rounds oc T J M ck sk test_profile_id rs w)"

definition handshake_test_of ::
    "test_round list \<Rightarrow> bool \<Rightarrow> 'm tls_codec \<Rightarrow> 'm json \<Rightarrow> ('s, 'g, 'm, 'o) openmls \<Rightarrow> 's \<Rightarrow> 's
       \<Rightarrow> SignatureKeyPair \<Rightarrow> SignatureKeyPair \<Rightarrow> Uuid \<Rightarrow> (unit, unit) res" where
  "handshake_test_of rounds oc T J M client_storage server_storage client_keypair server_signer test_profile_id =
     fst (bindS (test_databases M client_storage server_storage) (\<lambda>_ dbs.
          bindS (test_first_handshake oc T M client_keypair server_signer test_profile_id dbs)
            (\<lambda>(client_state, server_state, client_signer) (client_conn, server_conn).
          (fst (run_rounds oc T J M client_signer server_signer test_profile_id rounds
                  ((client_state, client_conn), (server_state, server_conn))),
           (client_conn, server_conn)))))"

definition handshake_test ::
    "bool \<Rightarrow> 'm tls_codec \<Rightarrow> 'm json \<Rightarrow> ('s, 'g, 'm, 'o) openmls \<Rightarrow> 's \<Rightarrow> 's \<Rightarrow> SignatureKeyPair \<Rightarrow> SignatureKeyPair \<Rightarrow> Uuid
       \<Rightarrow> (unit, unit) res" where
  "handshake_test = handshake_test_of [RequestedUpdate, ClientUpdate, ResumedConnection, CrossingUpdates, LostUpdate]"

section \<open>Each part of the test passes\<close>

text \<open>Both sides in the same epoch, nobody waiting.\<close>

definition sides_rest ::
    "('s, 'g, 'm, 'o) openmls \<Rightarrow> ('g, 'm, 'o, 'e) mls_view \<Rightarrow> 'm json \<Rightarrow> ('s, 'm) test_sides \<Rightarrow> bool" where
  "sides_rest M V J w \<longleftrightarrow> (\<exists>gid e. client_at M V J gid e ClientRunning (fst w) \<and>
     server_at M V gid e None ServerRunning (snd w))"

lemma sides_restI:
  "client_at M V J gid e ClientRunning c \<Longrightarrow> server_at M V gid e None ServerRunning s \<Longrightarrow> sides_rest M V J (c, s)"
  by (auto simp: sides_rest_def)

lemma established_rests:
  assumes "established T M V gid e c s" "db_works J (connection (ep_handshake c))"
  shows "\<exists>cst sst. hs_state (ep_handshake c) = ClientSide cst \<and> hs_state (ep_handshake s) = ServerSide sst \<and>
    sides_rest M V J ((cst, connection (ep_handshake c)), (sst, connection (ep_handshake s)))"
  using assms by (fastforce simp: established_def client_rel_def server_rel_def sides_rest_def client_at_def server_at_def)

lemma client_awaits:
  "client_at M V J gid e (WaitingForEpochKeyUpdate p) c \<Longrightarrow>
     awaited_secret (fst c) = Some (server_secret (pu_traffic_secrets p))"
  by (simp add: client_at_def awaited_secret_def)

lemma requested_update_passes:
  assumes "sound oc T M V" "sides_rest M V J w"
  shows "\<exists>w'. test_requested_update oc T J M ck sk w = (Ok (), w') \<and> sides_rest M V J w'"
proof -
  from assms(2) obtain c s gid e where w: "w = (c, s)" and
    c: "client_at M V J gid e ClientRunning c" and s: "server_at M V gid e None ServerRunning s"
    by (cases w) (auto simp: sides_rest_def)
  from server_update_step [OF assms(1) s, of sk True] obtain m bs e1 s1 where
    1: "ServerHandshakeState_update T M sk True s = (Ok bs, s1)" "view_commit V m = Some (gid, server_leaf, e, e1)"
      "reads_connection_update T True bs m" "server_at M V gid e (Some e1) WaitingForUpdate s1" by blast
  from client_answers_request [OF assms(1) c 1(2,3), of ck] obtain ts m' rb e2 c2 where
    2: "ClientHandshakeState_receive_signaling_message oc T J M ck bs c =
        (Ok (Some (ClientSecretUpdate (client_secret ts)), Some rb), c2)"
      "view_commit V m' = Some (gid, client_leaf, e1, e2)" "exported V e2 = Ok ts" "reads_update T rb m'"
      "client_at M V J gid e2 (WaitingForEpochKeyUpdate \<lparr>pu_mls_message = m', pu_traffic_secrets = ts\<rparr>) c2" by blast
  have "view_epoch V e1 = view_epoch V e + 1" by (rule mls_commit_message(1) [OF soundD(2) [OF assms(1)] 1(2)])
  with server_receives_update [OF assms(1) 1(4) 2(2) _ 2(4), of sk] 2(3) obtain kb s3 where
    3: "ServerHandshakeState_receive_signaling_message oc T M sk rb s1 = (Ok (ts, Some kb), s3)"
      "reads_key T kb (view_epoch V e2)" "server_at M V gid e2 None ServerRunning s3" by auto
  from client_key_step [OF assms(1) 2(5) 3(2) client_awaits [OF 2(5)], of ck] obtain c4 where
    4: "ClientHandshakeState_receive_signaling_message oc T J M ck kb c2 = (Ok (Some (ServerSecretUpdate (server_secret ts)), None), c4)"
      "client_at M V J gid e2 ClientRunning c4" by auto
  have "test_requested_update oc T J M ck sk w = (Ok (), (c4, s3))"
    using w 1(1) 2(1) 3(1) 4(1) by (simp add: test_requested_update_def assert_that_def)
  with sides_restI [OF 4(2) 3(3)] show ?thesis by blast
qed

text \<open>An update of the client, applied by the server and confirmed.\<close>

lemma client_update_round:
  assumes "sound oc T M V" "client_at M V J gid e ClientRunning c"
  obtains ts bs c1 where "ClientHandshakeState_update T J M ck False c = (Ok (client_secret ts, bs), c1)"
    "\<And>m. reads_update T other m \<Longrightarrow> ClientHandshakeState_receive_signaling_message oc T J M ck other c1 = (Ok (None, None), c1)"
    "\<And>pend i s. server_at M V gid e pend i s \<Longrightarrow> \<exists>kb s' c2.
       ServerHandshakeState_receive_signaling_message oc T M sk bs s = (Ok (ts, Some kb), s') \<and>
       ClientHandshakeState_receive_signaling_message oc T J M ck kb c1 =
         (Ok (Some (ServerSecretUpdate (server_secret ts)), None), c2) \<and> sides_rest M V J (c2, s')"
proof -
  from client_update_step [OF assms, of ck False] obtain ts m bs e' c1 where
    1: "ClientHandshakeState_update T J M ck False c = (Ok (client_secret ts, bs), c1)"
      "view_commit V m = Some (gid, client_leaf, e, e')" "exported V e' = Ok ts" "reads_update T bs m"
      "client_at M V J gid e' (WaitingForEpochKeyUpdate \<lparr>pu_mls_message = m, pu_traffic_secrets = ts\<rparr>) c1" by auto
  have "\<exists>kb s' c2. ServerHandshakeState_receive_signaling_message oc T M sk bs s = (Ok (ts, Some kb), s') \<and>
       ClientHandshakeState_receive_signaling_message oc T J M ck kb c1 =
         (Ok (Some (ServerSecretUpdate (server_secret ts)), None), c2) \<and> sides_rest M V J (c2, s')"
    if s: "server_at M V gid e pend i s" for pend i s
  proof -
    from server_receives_update [OF assms(1) s 1(2) _ 1(4), of sk] 1(3) obtain kb s' where
      2: "ServerHandshakeState_receive_signaling_message oc T M sk bs s = (Ok (ts, Some kb), s')"
        "reads_key T kb (view_epoch V e')" "server_at M V gid e' None ServerRunning s'" by auto
    from client_key_step [OF assms(1) 1(5) 2(2) client_awaits [OF 1(5)], of ck] obtain c2 where
      3: "ClientHandshakeState_receive_signaling_message oc T J M ck kb c1 = (Ok (Some (ServerSecretUpdate (server_secret ts)), None), c2)"
        "client_at M V J gid e' ClientRunning c2" by auto
    from 2(1) 3(1) sides_restI [OF 3(2) 2(3)] show ?thesis by blast
  qed
  with 1(1) client_ignores_step [OF 1(5)] that show thesis by blast
qed

lemma client_update_passes:
  assumes "sound oc T M V" "sides_rest M V J w"
  shows "\<exists>w'. test_client_update oc T J M ck sk w = (Ok (), w') \<and> sides_rest M V J w'"
proof -
  from assms(2) obtain c s gid e where w: "w = (c, s)" and
    c: "client_at M V J gid e ClientRunning c" and s: "server_at M V gid e None ServerRunning s"
    by (cases w) (auto simp: sides_rest_def)
  obtain ts bs c1 kb s' c2 where
    1: "ClientHandshakeState_update T J M ck False c = (Ok (client_secret ts, bs), c1)"
      "ServerHandshakeState_receive_signaling_message oc T M sk bs s = (Ok (ts, Some kb), s')"
      "ClientHandshakeState_receive_signaling_message oc T J M ck kb c1 = (Ok (Some (ServerSecretUpdate (server_secret ts)), None), c2)"
    and rest: "sides_rest M V J (c2, s')"
    by (rule client_update_round [OF assms(1) c]) (use s in blast)
  have "test_client_update oc T J M ck sk w = (Ok (), (c2, s'))"
    using w 1 by (simp add: test_client_update_def assert_that_def)
  with rest show ?thesis by blast
qed

lemma crossing_updates_pass:
  assumes "sound oc T M V" "sides_rest M V J w"
  shows "\<exists>w'. test_crossing_updates oc T J M ck sk w = (Ok (), w') \<and> sides_rest M V J w'"
proof -
  from assms(2) obtain c s gid e where w: "w = (c, s)" and
    c: "client_at M V J gid e ClientRunning c" and s: "server_at M V gid e None ServerRunning s"
    by (cases w) (auto simp: sides_rest_def)
  from server_update_step [OF assms(1) s, of sk False] obtain m sb e1 s1 where
    u: "ServerHandshakeState_update T M sk False s = (Ok sb, s1)" "reads_update T sb m"
      "server_at M V gid e (Some e1) WaitingForUpdate s1" by auto
  obtain ts bs c1 kb s' c2 where
    1: "ClientHandshakeState_update T J M ck False c = (Ok (client_secret ts, bs), c1)"
      "ClientHandshakeState_receive_signaling_message oc T J M ck sb c1 = (Ok (None, None), c1)"
      "ServerHandshakeState_receive_signaling_message oc T M sk bs s1 = (Ok (ts, Some kb), s')"
      "ClientHandshakeState_receive_signaling_message oc T J M ck kb c1 = (Ok (Some (ServerSecretUpdate (server_secret ts)), None), c2)"
    and rest: "sides_rest M V J (c2, s')"
    by (rule client_update_round [OF assms(1) c, of ck sb]) (use u(2,3) in blast)
  have "test_crossing_updates oc T J M ck sk w = (Ok (), (c2, s'))"
    using w u(1) 1 by (simp add: test_crossing_updates_def assert_that_def)
  with rest show ?thesis by blast
qed

lemma test_server_start_step:
  assumes "sound oc T M V" "client_commits_as M V client_id" "server_at M V gid e None ServerRunning s"
    and "view_commit V m = Some (gid, client_leaf, e, e')" "exported V e' = Ok ts" "reads_resumption T hello m"
    and "client_at M V J gid e' (WaitingForConnectionConfirmation p) c"
  shows "\<exists>answer s' c'. test_server_start oc T M sk hello s = (Ok (ts, ClientIdentity client_id, answer), s') \<and>
    ClientHandshakeState_receive_signaling_message oc T J M ck answer c = (Ok (None, None), c') \<and> sides_rest M V J (c', s')"
proof -
  obtain sst conn where s: "s = (sst, conn)" by (cases s)
  with assms(3) have "server_at M V gid e None ServerRunning (sst, conn)" by simp
  from server_resumption_step [OF assms(1,2) this assms(4) _ assms(6), of sk] assms(5) obtain sst' answer conn' where
    1: "ServerHandshake_start oc T M conn sk hello = (Ok (sst', ts, ClientIdentity client_id, answer), conn')"
      "signaling_of_bytes T answer = Ok (ConnectionConfirmationMessage \<lparr>eku_epoch = view_epoch V e'\<rparr>)"
      "server_at M V gid e' None ServerRunning (sst', conn')" by auto
  from client_confirmation_step [OF assms(1,7) 1(2), of ck] obtain c' where
    2: "ClientHandshakeState_receive_signaling_message oc T J M ck answer c = (Ok (None, None), c')"
      "client_at M V J gid e' ClientRunning c'" by blast
  have "test_server_start oc T M sk hello s = (Ok (ts, ClientIdentity client_id, answer), (sst', conn'))"
    using s 1(1) by (simp add: test_server_start_def)
  with 2(1) sides_restI [OF 2(2) 1(3)] show ?thesis by blast
qed

lemma resumption_passes:
  assumes "sound oc T M V" "handshakes_serialise T" "client_commits_as M V client_id" "sides_rest M V J w"
  shows "\<exists>w'. test_resumption oc T J M ck sk client_id w = (Ok (), w') \<and> sides_rest M V J w'"
proof -
  from assms(4) obtain c s gid e where w: "w = (c, s)" and
    c: "client_at M V J gid e ClientRunning c" and s: "server_at M V gid e None ServerRunning s"
    by (cases w) (auto simp: sides_rest_def)
  from client_resume_fresh [OF assms(1,2) c, of ck] obtain ts m hello e' c1 where
    1: "ClientHandshakeState_resume T M ck c = (Ok (ts, hello), c1)" "reads_resumption T hello m"
      "view_commit V m = Some (gid, client_leaf, e, e')" "exported V e' = Ok ts"
      "client_at M V J gid e' (WaitingForConnectionConfirmation \<lparr>pu_mls_message = m, pu_traffic_secrets = ts\<rparr>) c1" by blast
  from test_server_start_step [OF assms(1,3) s 1(3,4,2,5), of sk ck] obtain answer s' c' where
    2: "test_server_start oc T M sk hello s = (Ok (ts, ClientIdentity client_id, answer), s')"
      "ClientHandshakeState_receive_signaling_message oc T J M ck answer c1 = (Ok (None, None), c')" "sides_rest M V J (c', s')"
    by blast
  have "test_resumption oc T J M ck sk client_id w = (Ok (), (c', s'))"
    using w 1(1) 2(1,2) by (simp add: test_resumption_def assert_that_def)
  with 2(3) show ?thesis by blast
qed

lemma lost_update_passes:
  assumes "sound oc T M V" "handshakes_serialise T" "client_commits_as M V client_id" "sides_rest M V J w"
  shows "\<exists>w'. test_lost_update oc T J M ck sk client_id w = (Ok (), w') \<and> sides_rest M V J w'"
proof -
  from assms(4) obtain c s gid e where w: "w = (c, s)" and
    c: "client_at M V J gid e ClientRunning c" and s: "server_at M V gid e None ServerRunning s"
    by (cases w) (auto simp: sides_rest_def)
  from client_update_step [OF assms(1) c, of ck False] obtain ts m bs e' c1 where
    1: "ClientHandshakeState_update T J M ck False c = (Ok (client_secret ts, bs), c1)"
      "view_commit V m = Some (gid, client_leaf, e, e')" "exported V e' = Ok ts"
      "client_at M V J gid e' (WaitingForEpochKeyUpdate \<lparr>pu_mls_message = m, pu_traffic_secrets = ts\<rparr>) c1" by blast
  from client_resume_again [OF assms(2) 1(4), of ck] obtain hello c2 where
    2: "ClientHandshakeState_resume T M ck c1 = (Ok (ts, hello), c2)" "reads_resumption T hello m"
      "client_at M V J gid e' (WaitingForConnectionConfirmation \<lparr>pu_mls_message = m, pu_traffic_secrets = ts\<rparr>) c2" by auto
  from test_server_start_step [OF assms(1,3) s 1(2,3) 2(2,3), of sk ck] obtain answer s' c' where
    3: "test_server_start oc T M sk hello s = (Ok (ts, ClientIdentity client_id, answer), s')"
      "ClientHandshakeState_receive_signaling_message oc T J M ck answer c2 = (Ok (None, None), c')" "sides_rest M V J (c', s')"
    by blast
  have "test_lost_update oc T J M ck sk client_id w = (Ok (), (c', s'))"
    using w 1(1) 2(1) 3(1,2) by (simp add: test_lost_update_def assert_that_def)
  with 3(3) show ?thesis by blast
qed

section \<open>The whole test\<close>

lemma databases_ready:
  assumes "\<And>s. is_ok (fst (mls_initialize M s))" "\<And>st. is_ok (json_to_vec J st)"
  shows "\<exists>cconn sconn. test_databases M cs ss = (Ok (), (cconn, sconn)) \<and> db_works J cconn"
proof -
  have init: "\<exists>s'. with_provider conv (mls_initialize M) conn = (Ok (), conn\<lparr>mls_storage := s'\<rparr>)"
    for conv :: "string \<Rightarrow> 'f" and conn
    using outcome_ok [OF assms(1), of "mls_storage conn"] by auto
  let ?c = "open_in_memory cs\<lparr>handshake_states := Some []\<rparr>" and ?s = "open_in_memory ss"
  obtain s1 where 1: "initialize_storage M ?c = (Ok (), ?c\<lparr>mls_storage := s1\<rparr>)"
    using init [of MigrationError ?c] by (auto simp: initialize_storage_def)
  obtain s2 where 2: "initialize_storage M ?s = (Ok (), ?s\<lparr>mls_storage := s2\<rparr>)"
    using init [of MigrationError ?s] by (auto simp: initialize_storage_def)
  obtain s3 where 3: "with_provider id (mls_initialize M) (?c\<lparr>mls_storage := s1\<rparr>) = (Ok (), ?c\<lparr>mls_storage := s3\<rparr>)"
    using init [of id "?c\<lparr>mls_storage := s1\<rparr>"] by auto
  obtain s4 where 4: "with_provider id (mls_initialize M) (?s\<lparr>mls_storage := s2\<rparr>) = (Ok (), ?s\<lparr>mls_storage := s4\<rparr>)"
    using init [of id "?s\<lparr>mls_storage := s2\<rparr>"] by auto
  have "ClientHandshakeState_create_table (open_in_memory cs) = (Ok (), ?c)"
    by (simp add: ClientHandshakeState_create_table_def next_fault_def open_in_memory_def)
  with 1 2 3 4 have "test_databases M cs ss = (Ok (), (?c\<lparr>mls_storage := s3\<rparr>, ?s\<lparr>mls_storage := s4\<rparr>))"
    by (simp add: test_databases_def)
  moreover have "db_works J (?c\<lparr>mls_storage := s3\<rparr>)" using assms(2) by (simp add: db_works_def open_in_memory_def)
  ultimately show ?thesis by blast
qed

lemma first_handshake_passes:
  assumes "sound oc T M V" "mls_joins M V" "mls_key_packages M" "mls_can_join M V client_id ck sk" "handshakes_serialise T"
    and "db_works J cconn"
  shows "\<exists>cst sst cconn' sconn'. test_first_handshake oc T M ck sk client_id (cconn, sconn) =
      (Ok (cst, sst, ck), (cconn', sconn')) \<and> sides_rest M V J ((cst, cconn'), (sst, sconn'))"
proof -
  note laws = soundD(1,2) [OF assms(1)] assms(2)
  obtain wait hello conn1 sst ts answer sconn1 cst conn2 where
    1: "ClientHandshake_start T M cconn ck (signer_public sk) client_id = (Ok (wait, hello), conn1)"
      "ServerHandshake_start oc T M sconn sk hello = (Ok (sst, ts, ClientIdentity client_id, answer), sconn1)"
      "receive_server_hello T M wait conn1 answer = (Ok (cst, ts), conn2)"
    using first_handshake_total [OF laws soundD(4) [OF assms(1)] assms(3,4,5), where conn = cconn and oc = oc and sconn = sconn]
    by blast
  from handshake_establishes [OF laws assms(3) 1] obtain gid e where
    est: "established T M V gid e
       \<lparr>ep_handshake = \<lparr>leaf_signer = ck, connection = conn2, hs_state = ClientSide cst\<rparr>, ep_secrets = ts\<rparr>
       \<lparr>ep_handshake = \<lparr>leaf_signer = sk, connection = sconn1, hs_state = ServerSide sst\<rparr>, ep_secrets = ts\<rparr>" by blast
  from first_messages_tables [OF 1(1)] server_hello_tables [OF 1(3)] have "same_tables cconn conn2"
    by (auto intro: same_tables_trans)
  with assms(6) have "db_works J conn2" using same_tables_db_works by blast
  with established_rests [OF est, of J] have "sides_rest M V J ((cst, conn2), (sst, sconn1))" by simp
  moreover have "test_first_handshake oc T M ck sk client_id (cconn, sconn) = (Ok (cst, sst, ck), (conn2, sconn1))"
    using 1 by (simp add: test_first_handshake_def ClientHandshake_start_from_seed_def assert_that_def)
  ultimately show ?thesis by blast
qed

lemma round_passes:
  assumes "sound oc T M V" "handshakes_serialise T" "client_commits_as M V client_id" "sides_rest M V J w"
  shows "\<exists>w'. run_round oc T J M ck sk client_id r w = (Ok (), w') \<and> sides_rest M V J w'"
proof (cases r)
  case RequestedUpdate
  with requested_update_passes [OF assms(1,4)] show ?thesis by simp
next
  case ClientUpdate
  with client_update_passes [OF assms(1,4)] show ?thesis by simp
next
  case ResumedConnection
  with resumption_passes [OF assms] show ?thesis by simp
next
  case CrossingUpdates
  with crossing_updates_pass [OF assms(1,4)] show ?thesis by simp
next
  case LostUpdate
  with lost_update_passes [OF assms] show ?thesis by simp
qed

lemma rounds_pass:
  assumes "sound oc T M V" "handshakes_serialise T" "client_commits_as M V client_id"
  shows "sides_rest M V J w \<Longrightarrow> \<exists>w'. run_rounds oc T J M ck sk client_id rs w = (Ok (), w') \<and> sides_rest M V J w'"
proof (induction rs arbitrary: w)
  case (Cons r rs)
  from round_passes [OF assms Cons.prems] obtain w1 where
    1: "run_round oc T J M ck sk client_id r w = (Ok (), w1)" "sides_rest M V J w1" by blast
  from Cons.IH [OF 1(2)] 1(1) show ?case by simp
qed simp

text \<open>
  When MLS keeps its laws and nothing outside the program fails, no \<^verbatim>\<open>unwrap\<close>, \<^verbatim>\<open>panic\<close> or assertion of
  the test fails, in whatever order and however often its rounds are run.
\<close>

lemma handshake_test_passes:
  assumes "tls_laws T" "mls_laws M V" "mls_joins M V" "mls_key_packages M"
    and "nothing_fails oc T M V" "handshakes_serialise T" "mls_can_join M V client_id ck sk" "client_commits_as M V client_id"
    and "\<And>s. is_ok (fst (mls_initialize M s))" "\<And>st. is_ok (json_to_vec J st)"
  shows "handshake_test_of rounds oc T J M client_storage server_storage ck sk client_id = Ok ()"
proof -
  have sound: "sound oc T M V" using assms(1,2,5) by (simp add: sound_def)
  obtain cconn sconn where 1: "test_databases M client_storage server_storage = (Ok (), (cconn, sconn))" "db_works J cconn"
    using databases_ready [of M J, OF assms(9,10)] by blast
  obtain cst sst cconn' sconn' where
    2: "test_first_handshake oc T M ck sk client_id (cconn, sconn) = (Ok (cst, sst, ck), (cconn', sconn'))"
      "sides_rest M V J ((cst, cconn'), (sst, sconn'))"
    using first_handshake_passes [OF sound assms(3,4,7,6) 1(2)] by blast
  obtain w where "run_rounds oc T J M ck sk client_id rounds ((cst, cconn'), (sst, sconn')) = (Ok (), w)"
    using rounds_pass [OF sound assms(6,8) 2(2)] by blast
  with 1(1) 2(1) show ?thesis by (simp add: handshake_test_of_def)
qed

end
