(* ===== verification/Transport_Tests.thy ===== *)
theory Transport_Tests
  imports Handshake_Tests
begin

text \<open>
  The test \<^verbatim>\<open>mls_handshake\<close> of \<^verbatim>\<open>src/mls_handshake/mod.rs\<close>: two handshake objects run their first handshake and
  one update of the client over a pair of framed byte streams.  The two tasks are functions of their
  own end of the transport; run together, each reads the packets that the other writes.  Also the
  test of \<^verbatim>\<open>src/tls_aead/codec.rs\<close>, and the property that all of these tests pass.
\<close>

section \<open>The tasks\<close>

definition unwrap_run :: "('e, 'a, 's) run \<Rightarrow> ('f, 'a, 's) run" where
  "unwrap_run m = map_option (\<lambda>(r, s). (unwrap r, s)) m"

lemma unwrap_run_Ok [simp]: "unwrap_run (Some (Ok x, s)) = Some (Ok x, s)"
  by (simp add: unwrap_run_def)

text \<open>A call on the handshake object, and \<^verbatim>\<open>rx.next().await.unwrap().unwrap()\<close>.\<close>

definition on_object ::
    "('h \<Rightarrow> ('e, 'a, 'h) outcome) \<Rightarrow> 'h \<times> 't \<Rightarrow> ('f, 'a, 'h \<times> 't) run" where
  "on_object call st = (case st of (self, t) \<Rightarrow> case call self of (r, self) \<Rightarrow> Some (unwrap r, (self, t)))"

definition next_packet :: "'t transport \<Rightarrow> 'h \<times> 't \<Rightarrow> ('f, bytes, 'h \<times> 't) run" where
  "next_packet X st =
     (case st of (self, t) \<Rightarrow>
        map_option (\<lambda>(item, t). (case item of Some r \<Rightarrow> unwrap (res_bind r (\<lambda>pkt. Ok (data pkt))) | None \<Rightarrow> Panic, (self, t)))
          (rx_next X t))"

definition updated_by :: "TrafficSecrets \<Rightarrow> SecretUpdate option \<Rightarrow> TrafficSecrets" where
  "updated_by tf secret_update = (case secret_update of Some u \<Rightarrow> TrafficSecrets_update tf u | None \<Rightarrow> tf)"

lemma test_calls_Ok [simp]:
  "call self = (Ok x, self') \<Longrightarrow> on_object call (self, t) = Some (Ok x, (self', t))"
  "rx_next X t = Some (Some (Ok pkt), t') \<Longrightarrow> next_packet X (self, t) = Some (Ok (data pkt), (self, t'))"
  by (simp_all add: on_object_def next_packet_def)

definition test_object ::
    "('s, 'g, 'm, 'o) openmls \<Rightarrow> 's \<Rightarrow> SignatureKeyPair \<Rightarrow> (unit, ('s, 'm) MlsHandshake) res" where
  "test_object M storage signer =
     (case initialize_storage M (open_in_memory storage) of
        (r, conn) \<Rightarrow> res_bind (unwrap r) (\<lambda>_. Ok (MlsHandshake_new conn signer)))"

definition test_client_task ::
    "('s, 'g, 'm, 'o, 'r, 'w) env \<Rightarrow> 't transport \<Rightarrow> Uuid \<Rightarrow> SignaturePublicKey \<Rightarrow> ('s, 'm) MlsHandshake \<times> 't
       \<Rightarrow> (unit, TrafficSecrets, ('s, 'm) MlsHandshake \<times> 't) run" where
  "test_client_task E X client_id verifying_key st =
     bindA (unwrap_run (MlsHandshake_client_handshake (env_tls E) (env_json E) (env_mls E) X client_id verifying_key st))
       (\<lambda>tf st.
     bindA (on_object (MlsHandshake_update_handshake (env_tls E) (env_json E) (env_mls E)) st)
       (\<lambda>(secret_update, message) st.
     let tf = updated_by tf secret_update in
     bindA (unwrap_run (send_message X message st)) (\<lambda>_ st.
     bindA (next_packet X st) (\<lambda>response st.
     bindA (on_object (MlsHandshake_process_signaling_message (env_checks E) (env_tls E) (env_json E) (env_mls E) response) st)
       (\<lambda>(secret_update, message) st.
     let tf = updated_by tf secret_update in
     bindA (Some (assert_that (message = None), st)) (\<lambda>_ st.
     Some (Ok tf, st)))))))"

definition test_server_task ::
    "('s, 'g, 'm, 'o, 'r, 'w) env \<Rightarrow> 't transport \<Rightarrow> Uuid \<Rightarrow> ('s, 'm) MlsHandshake \<times> 't
       \<Rightarrow> (unit, TrafficSecrets, ('s, 'm) MlsHandshake \<times> 't) run" where
  "test_server_task E X client_id st =
     bindA (unwrap_run (MlsHandshake_server_handshake (env_checks E) (env_tls E) (env_mls E) X st))
       (\<lambda>(tf, client_identity) st.
     bindA (Some (assert_that (client_identity = ClientIdentity client_id), st)) (\<lambda>_ st.
     bindA (next_packet X st) (\<lambda>message_bytes st.
     bindA (on_object (MlsHandshake_process_signaling_message (env_checks E) (env_tls E) (env_json E) (env_mls E) message_bytes) st)
       (\<lambda>(secret_update, message) st.
     let tf = updated_by tf secret_update in
     bindA (Some (unwrap_some message, st)) (\<lambda>message st.
     bindA (unwrap_run (send_message X message st)) (\<lambda>_ st.
     Some (Ok tf, st)))))))"

text \<open>\<^verbatim>\<open>try_join!\<close> and the assertions after it, on what the two tasks ended with.\<close>

definition test_joined :: "(unit, TrafficSecrets) res \<Rightarrow> (unit, TrafficSecrets) res \<Rightarrow> (unit, unit) res" where
  "test_joined client_result server_result =
     res_bind client_result (\<lambda>client_km.
     res_bind server_result (\<lambda>server_km.
     res_bind (assert_that (client_secret client_km = client_secret server_km)) (\<lambda>_.
     assert_that (server_secret client_km = server_secret server_km))))"

text \<open>
  A run of the test in which the client's task writes the packets \<open>up\<close> and the server's task the packets
  \<open>down\<close>, each reading what the other writes; \<open>ci\<close> and \<open>si\<close> are the two writing ends of the byte streams.
\<close>

definition mls_handshake_test ::
    "('s, 'g, 'm, 'o, TlsPacketIn list, 'i \<times> bytes list) env \<Rightarrow> 's \<Rightarrow> 's \<Rightarrow> SignatureKeyPair \<Rightarrow> SignatureKeyPair \<Rightarrow> Uuid
       \<Rightarrow> 'i \<Rightarrow> 'i \<Rightarrow> bytes list \<Rightarrow> bytes list \<Rightarrow> bool" where
  "mls_handshake_test E client_storage server_storage client_signer server_signer client_id ci si up down =
     (case (test_object (env_mls E) client_storage client_signer, test_object (env_mls E) server_storage server_signer) of
        (Ok client_handshake, Ok server_handshake) \<Rightarrow>
          (case (test_client_task E (unprotected_transport E) client_id (signer_public (leaf_signer server_handshake))
                   (client_handshake, (map (\<lambda>d. packet d) down, (ci, []))),
                 test_server_task E (unprotected_transport E) client_id
                   (server_handshake, (map (\<lambda>d. packet d) up, (si, [])))) of
             (Some (client_result, (_, (unread, (_, written)))), Some (server_result, (_, (server_unread, (_, server_written))))) \<Rightarrow>
               unread = [] \<and> written = up \<and> server_unread = [] \<and> server_written = down \<and>
               test_joined client_result server_result = Ok ()
           | _ \<Rightarrow> False)
      | _ \<Rightarrow> False)"

section \<open>The test of the frame codec\<close>

definition test_tls_frame_codec :: "(unit, unit) res" where
  "test_tls_frame_codec =
     (let buf = [TLS_APP_DATA] @ u16_to_be_bytes TLS_VERSION @ u16_to_be_bytes 5 @ ascii ''hello''; buf2 = buf in
      res_bind (unwrap (fst (TlsFrameCodec_decode buf))) (\<lambda>decoded.
      res_bind (unwrap_some decoded) (\<lambda>pkt.
      res_bind (TlsPacketIn_msg_type pkt) (\<lambda>msg_type.
      res_bind (assert_that (msg_type = TLS_APP_DATA)) (\<lambda>_.
      res_bind (TlsPacketIn_version pkt) (\<lambda>ver.
      res_bind (assert_that (ver = TLS_VERSION)) (\<lambda>_.
      res_bind (assert_that (data pkt = ascii ''hello'')) (\<lambda>_.
      case TlsFrameCodec_encode (data pkt) [] of
        (r, buf3) \<Rightarrow> res_bind (unwrap r) (\<lambda>_. assert_that (buf2 = buf3))))))))))"

lemma frame_codec_test_passes: "test_tls_frame_codec = Ok ()"
  by code_simp

section \<open>Both tasks complete\<close>

text \<open>An update of the client through the handshake objects.\<close>

lemma object_update_round:
  assumes "sound (env_checks E) (env_tls E) (env_mls E) V"
    and "sides_rest (env_mls E) V (env_json E) ((cst, connection chs), (sst, connection shs))"
    and "hs_state chs = ClientSide cst" "hs_state shs = ServerSide sst"
  obtains ts bs kb chs1 chs2 shs1 where
    "MlsHandshake_update_handshake (env_tls E) (env_json E) (env_mls E) chs =
       (Ok (Some (ClientSecretUpdate (client_secret ts)), bs), chs1)"
    "MlsHandshake_process_signaling_message (env_checks E) (env_tls E) (env_json E) (env_mls E) bs shs =
       (Ok (Some (Both ts), Some kb), shs1)"
    "MlsHandshake_process_signaling_message (env_checks E) (env_tls E) (env_json E) (env_mls E) kb chs1 =
       (Ok (Some (ServerSecretUpdate (server_secret ts)), None), chs2)"
proof -
  from assms(2) obtain gid e where
    c: "client_at (env_mls E) V (env_json E) gid e ClientRunning (cst, connection chs)" and
    s: "server_at (env_mls E) V gid e None ServerRunning (sst, connection shs)" by (auto simp: sides_rest_def)
  obtain ts bs kb cst1 conn1 c2 sst1 sconn1 where
    "ClientHandshakeState_update (env_tls E) (env_json E) (env_mls E) (leaf_signer chs) False (cst, connection chs) =
       (Ok (client_secret ts, bs), (cst1, conn1))"
    "ServerHandshakeState_receive_signaling_message (env_checks E) (env_tls E) (env_mls E) (leaf_signer shs) bs
       (sst, connection shs) = (Ok (ts, Some kb), (sst1, sconn1))"
    "ClientHandshakeState_receive_signaling_message (env_checks E) (env_tls E) (env_json E) (env_mls E) (leaf_signer chs) kb
       (cst1, conn1) = (Ok (Some (ServerSecretUpdate (server_secret ts)), None), c2)"
    by (rule client_update_round [OF assms(1) c, of "leaf_signer chs"]) (use s in fast)
  with assms(3,4) that show thesis
    by (cases c2) (auto simp: MlsHandshake_update_handshake_def MlsHandshake_process_signaling_message_def)
qed

lemma exchange_rests:
  assumes "env_laws E V" "client_database (env_json E) cconn"
    and "exchanged E client_id (signer_public sk) cconn ck sconn sk hello answer chs ts shs ts ident"
  obtains cst sst where "hs_state chs = ClientSide cst" "hs_state shs = ServerSide sst"
    "sides_rest (env_mls E) V (env_json E) ((cst, connection chs), (sst, connection shs))"
proof -
  have h: "handshakes_complete E client_id (signer_public sk) cconn ck sconn sk chs ts shs ts ident"
    using assms(3) unfolding handshakes_complete_def by blast
  from handshakes_complete_established [OF _ _ _ _ h] assms(1) obtain gid e where
    est: "established (env_tls E) (env_mls E) V gid e \<lparr>ep_handshake = chs, ep_secrets = ts\<rparr> \<lparr>ep_handshake = shs, ep_secrets = ts\<rparr>"
    unfolding env_laws_def by blast
  have "db_works (env_json E) (connection chs)"
    using handshake_stores_state [OF assms(2) h] by (auto simp: end_persisted_def persisted_def table_ok_def)
  with established_rests [OF est, of "env_json E"] that show thesis by auto
qed

lemma update_from_both:
  "updated_by (updated_by tf (Some (ClientSecretUpdate (client_secret ts)))) (Some (ServerSecretUpdate (server_secret ts))) = ts"
  "updated_by tf (Some (Both ts)) = ts"
  by (simp_all add: updated_by_def)

lemma tasks_complete:
  assumes "connects E" "undisturbed E" "exchanged E client_id vk cconn ck sconn sk hello answer chs ts0 shs ts0 (ClientIdentity client_id)"
    and "MlsHandshake_update_handshake (env_tls E) (env_json E) (env_mls E) chs =
       (Ok (Some (ClientSecretUpdate (client_secret ts)), bs), chs1)"
    and "MlsHandshake_process_signaling_message (env_checks E) (env_tls E) (env_json E) (env_mls E) bs shs =
       (Ok (Some (Both ts), Some kb), shs1)"
    and "MlsHandshake_process_signaling_message (env_checks E) (env_tls E) (env_json E) (env_mls E) kb chs1 =
       (Ok (Some (ServerSecretUpdate (server_secret ts)), None), chs2)"
  shows "\<exists>ci'. test_client_task E (unprotected_transport E) client_id vk
      (MlsHandshake_new cconn ck, ([packet answer, packet kb], (ci, []))) = Some (Ok ts, (chs2, ([], (ci', [hello, bs]))))" (is ?client)
    and "\<exists>si'. test_server_task E (unprotected_transport E) client_id
      (MlsHandshake_new sconn sk, ([packet hello, packet bs], (si, []))) = Some (Ok ts, (shs1, ([], (si', [answer, kb]))))" (is ?server)
proof -
  let ?X = "unprotected_transport E"
  from assms(3) obtain conn conn0 wait conn1 cst conn2 conn3 sst sconn1 where
    c: "ClientHandshakeState_create_table cconn = (Ok (), conn)"
      "ClientHandshakeState_delete (env_json E) (env_mls E) conn client_id = (Ok (), conn0)"
      "ClientHandshake_start (env_tls E) (env_mls E) conn0 ck vk client_id = (Ok (wait, hello), conn1)"
      "receive_server_hello (env_tls E) (env_mls E) wait conn1 answer = (Ok (cst, ts0), conn2)"
      "ClientHandshakeState_store (env_json E) cst conn2 = (Ok (), conn3)"
      "chs = \<lparr>leaf_signer = ck, connection = conn3, hs_state = ClientSide cst\<rparr>" and
    s: "ServerHandshake_start (env_checks E) (env_tls E) (env_mls E) sconn sk hello = (Ok (sst, ts0, ClientIdentity client_id, answer), sconn1)"
      "shs = \<lparr>leaf_signer = sk, connection = sconn1, hs_state = ServerSide sst\<rparr>"
    unfolding exchanged_def by blast
  note hears = plain_hears [OF assms(1)]
  obtain i where 1: "tx_send ?X hello ([packet answer, packet kb], (ci, [])) = Some (Ok (), ([packet answer, packet kb], (i, [hello])))"
    using plain_says [OF assms(2), of hello "[packet answer, packet kb]" ci "[]"] by auto
  obtain i2 where 2: "tx_send ?X bs ([packet kb], (i, [hello])) = Some (Ok (), ([packet kb], (i2, [hello, bs])))"
    using plain_says [OF assms(2), of bs "[packet kb]" i "[hello]"] by auto
  have "receive_server_hello (env_tls E) (env_mls E) wait conn1 (data (packet answer)) = (Ok (cst, ts0), conn2)" using c(4) by simp
  from client_handshake_runs [OF c(1-3) 1 hears this c(5)] 2 assms(4,6) c(6) hears show ?client
    by (simp add: test_client_task_def send_message_def assert_that_def update_from_both Let_def)
  obtain i3 where 3: "tx_send ?X answer ([packet bs], (si, [])) = Some (Ok (), ([packet bs], (i3, [answer])))"
    using plain_says [OF assms(2), of answer "[packet bs]" si "[]"] by auto
  obtain i4 where 4: "tx_send ?X kb ([], (i3, [answer])) = Some (Ok (), ([], (i4, [answer, kb])))"
    using plain_says [OF assms(2), of kb "[]" i3 "[answer]"] by auto
  have "ServerHandshake_start (env_checks E) (env_tls E) (env_mls E) sconn sk (data (packet hello)) =
      (Ok (sst, ts0, ClientIdentity client_id, answer), sconn1)" using s(1) by simp
  from server_handshake_runs [OF hears this 3] 4 assms(5) s(2) hears show ?server
    by (simp add: test_server_task_def send_message_def assert_that_def update_from_both Let_def)
qed

lemma test_object_new:
  assumes "\<And>s. is_ok (fst (mls_initialize M s))"
  shows "\<exists>s. test_object M storage signer = Ok (MlsHandshake_new (open_in_memory s) signer)"
proof -
  obtain s where "mls_initialize M storage = (Ok (), s)" using outcome_ok [OF assms, of storage] by auto
  then have "initialize_storage M (open_in_memory storage) = (Ok (), open_in_memory s)"
    by (simp add: initialize_storage_def with_provider_def open_in_memory_def)
  then show ?thesis by (auto simp: test_object_def)
qed

lemma new_database:
  assumes "json_ok J" "\<And>st. is_ok (json_to_vec J st)"
  shows "first_connection J (open_in_memory s) client_id"
  using assms by (simp add: first_connection_def client_database_def table_ok_def db_works_def states_of_def open_in_memory_def
      ClientHandshakeState_create_table_def next_fault_def)

lemma mls_handshake_test_passes:
  assumes "env_laws E V" "env_works E V" "mls_can_join (env_mls E) V client_id ck sk"
    and "json_ok (env_json E)" "\<And>st. is_ok (json_to_vec (env_json E) st)" "\<And>s. is_ok (fst (mls_initialize (env_mls E) s))"
  shows "\<exists>up down. mls_handshake_test E client_storage server_storage ck sk client_id ci si up down"
proof -
  obtain cs where c: "test_object (env_mls E) client_storage ck = Ok (MlsHandshake_new (open_in_memory cs) ck)"
    using test_object_new [OF assms(6)] by blast
  obtain ss where s: "test_object (env_mls E) server_storage sk = Ok (MlsHandshake_new (open_in_memory ss) sk)"
    using test_object_new [OF assms(6)] by blast
  have first: "first_connection (env_json E) (open_in_memory cs) client_id" by (rule new_database [OF assms(4,5)])
  from connection_exchange [OF assms(1-3) first_connection_connectable [OF first], where sconn = "open_in_memory ss"]
  obtain hello answer chs ts0 shs where
    x: "connects E" "undisturbed E" "exchanged E client_id (signer_public sk) (open_in_memory cs) ck (open_in_memory ss) sk
       hello answer chs ts0 shs ts0 (ClientIdentity client_id)" .
  have "client_database (env_json E) (open_in_memory cs)" using first by (simp add: first_connection_def)
  from exchange_rests [OF assms(1) this x(3)] obtain cst sst where
    r: "hs_state chs = ClientSide cst" "hs_state shs = ServerSide sst"
      "sides_rest (env_mls E) V (env_json E) ((cst, connection chs), (sst, connection shs))" .
  have "sound (env_checks E) (env_tls E) (env_mls E) V"
    using assms(1,2) by (simp add: sound_def env_laws_def env_works_def)
  from object_update_round [OF this r(3,1,2)] obtain ts bs kb chs1 chs2 shs1 where
    u: "MlsHandshake_update_handshake (env_tls E) (env_json E) (env_mls E) chs =
       (Ok (Some (ClientSecretUpdate (client_secret ts)), bs), chs1)"
      "MlsHandshake_process_signaling_message (env_checks E) (env_tls E) (env_json E) (env_mls E) bs shs =
       (Ok (Some (Both ts), Some kb), shs1)"
      "MlsHandshake_process_signaling_message (env_checks E) (env_tls E) (env_json E) (env_mls E) kb chs1 =
       (Ok (Some (ServerSecretUpdate (server_secret ts)), None), chs2)" .
  obtain ci' si' where
    t: "test_client_task E (unprotected_transport E) client_id (signer_public sk)
        (MlsHandshake_new (open_in_memory cs) ck, ([packet answer, packet kb], (ci, []))) = Some (Ok ts, (chs2, ([], (ci', [hello, bs]))))"
      "test_server_task E (unprotected_transport E) client_id
        (MlsHandshake_new (open_in_memory ss) sk, ([packet hello, packet bs], (si, []))) = Some (Ok ts, (shs1, ([], (si', [answer, kb]))))"
    using tasks_complete [OF x u] by blast
  have new: "leaf_signer (MlsHandshake_new (open_in_memory ss) sk) = sk" by (simp add: MlsHandshake_new_def)
  have "mls_handshake_test E client_storage server_storage ck sk client_id ci si [hello, bs] [answer, kb]"
    using c s t by (simp add: mls_handshake_test_def new test_joined_def assert_that_def)
  then show ?thesis by blast
qed

section \<open>Properties\<close>


lemma sym_client_commits: "client_commits_as sym_mls sym_view [1]"
proof -
  have "b = 1" if "unat b = client_leaf" for b :: u8 using that by (simp add: word_unat_eq_iff)
  then show ?thesis
    by (auto simp: client_commits_as_def sym_mls_def sym_view_def split: sym_message.splits if_splits)
qed

lemma sym_can_join_as: "mls_can_join sym_mls sym_view [b] sym_signer sym_signer"
  by (auto simp: mls_can_join_def sym_mls_def sym_key_package_build_def sym_add_members_def sym_group_build_def sym_signer_def Let_def)

lemma sym_text_json_works: "is_ok (json_to_vec sym_text_json st)"
  using sym_text_json_ok(2) [of st] by (auto simp: is_ok_iff)


end
