(* ===== verification/Rejected_Messages.thy ===== *)
theory Rejected_Messages
  imports Resumption
begin

text \<open>
  What a signaling message that is rejected leaves behind, in \<^verbatim>\<open>state_machine/client.rs\<close> and
  \<^verbatim>\<open>state_machine/server.rs\<close>.
\<close>

section \<open>Properties\<close>

text \<open>
  C36. A rejected message costs the client its update: a connection confirmation that arrives while
  the client waits for the answer to its update is rejected, but the pending update is forgotten,
  so that the server's genuine answer is rejected as well when it comes, and the server's new
  secret is never adopted.
\<close>
theorem rejected_confirmation_forgets_update:
  assumes "signaling_of_bytes T stray = Ok (ConnectionConfirmationMessage u)" "reads_key T answer ep"
    and "client_internal st = WaitingForEpochKeyUpdate p"
  shows "\<exists>st'. st' = st\<lparr>client_internal := ClientRunning\<rparr> \<and>
    ClientHandshakeState_receive_signaling_message oc T J M k stray (st, conn) =
      (Err (HandshakeUnexpectedMessage ''ConnectionConfirmation'' ''ConnectionConfirmation''), (st', conn)) \<and>
    \<not> is_ok (fst (ClientHandshakeState_receive_signaling_message oc T J M k answer (st', conn)))"
  using assms by (simp add: ClientHandshakeState_receive_signaling_message_def reads_key_def Let_def)

text \<open>
  C37. The server merges its commit before it checks the client's answer: an answer that names another
  epoch is rejected, but by then the server's group has moved to the new epoch while its record keys
  have not and it still waits for an answer; from then on its next answer would be merged from the new
  epoch.
\<close>
theorem server_merges_before_checking:
  assumes "mls_laws M V" "mls_total M V" "member_at M V conn (group_id (server_session st)) me e (Some e')"
    and "server_internal st = WaitingForUpdate" "reads_key T answer ep" "ep \<noteq> view_epoch V e'"
  shows "\<exists>st' conn'. ServerHandshakeState_receive_signaling_message oc T M k answer (st, conn) =
      (Err (ValidationError ''Epoch mismatch''), (st', conn')) \<and>
    ServerHandshakeState_epoch st' = view_epoch V e' \<and> server_internal st' = WaitingForUpdate \<and>
    member_at M V conn' (group_id (server_session st)) me e' None"
proof -
  obtain ts session conn1 where
    1: "MlsSession_merge_update M (server_session st) conn = (Ok ts, (session, conn1))"
    using MlsSession_merge_update_total [OF assms(1,2,3)] by blast
  note g = MlsSession_merge_update_meaning [OF assms(1,3) 1]
  then have m: "member_at M V conn1 (group_id session) me e' None" by simp
  from epoch_key_update_meaning(2) [OF assms(1) m, of "\<lparr>eku_epoch = ep\<rparr>"] assms(6)
  have "HandshakeState_process_epoch_key_update M session conn1 \<lparr>eku_epoch = ep\<rparr> = Err (ValidationError ''Epoch mismatch'')"
    by (auto simp: HandshakeState_process_epoch_key_update_def)
  with 1 assms(4,5) g show ?thesis
    by (simp add: ServerHandshakeState_receive_signaling_message_def server_merge_update_def reads_key_def Let_def
        ServerHandshakeState_epoch_def)
qed


lemma sym_signaling_reads: "\<exists>bs. signaling_of_bytes sym_tls bs = Ok msg"
  using signaling_bytes_total [OF sym_signaling_total] signaling_roundtrip [OF sym_tls_laws] by blast

theorem server_merges_before_checking_witness:
  "\<exists>answer st' conn'. ServerHandshakeState_receive_signaling_message False sym_tls sym_mls sym_signer answer
     (\<lparr>server_session = \<lparr>group_id = [1], epoch = 1\<rparr>, server_internal = WaitingForUpdate\<rparr>, sym_member 0 1 11 (Some 12)) =
       (Err (ValidationError ''Epoch mismatch''), (st', conn')) \<and> ServerHandshakeState_epoch st' = 2"
proof -
  obtain answer where a: "reads_key sym_tls answer 9"
    using sym_signaling_reads [of "EpochKeyUpdateMessage \<lparr>eku_epoch = 9\<rparr>"] by (auto simp: reads_key_def)
  let ?st = "\<lparr>server_session = \<lparr>group_id = [1], epoch = 1\<rparr>, server_internal = WaitingForUpdate\<rparr>"
  have m: "member_at sym_mls sym_view (sym_member 0 1 11 (Some 12)) (group_id (server_session ?st)) 0 (1, 11) (Some (2, 12))"
    using sym_member_at_epoch [of 0 1 11 "Some 12"] by simp
  have e: "view_epoch sym_view (2, 12) = 2" by (simp add: sym_view_def)
  from server_merges_before_checking [OF sym_mls_laws sym_mls_total m _ a] e show ?thesis by fastforce
qed

theorem rejected_confirmation_forgets_update_witness:
  "\<exists>stray answer st'.
     ClientHandshakeState_receive_signaling_message False sym_tls sym_json sym_mls sym_signer stray
       (sym_lost (WaitingForEpochKeyUpdate sym_applied)) =
     (Err (HandshakeUnexpectedMessage ''ConnectionConfirmation'' ''ConnectionConfirmation''), st') \<and>
     reads_key sym_tls answer 2 \<and>
     \<not> is_ok (fst (ClientHandshakeState_receive_signaling_message False sym_tls sym_json sym_mls sym_signer answer st'))"
proof -
  obtain answer where a: "reads_key sym_tls answer 2"
    using sym_signaling_reads [of "EpochKeyUpdateMessage \<lparr>eku_epoch = 2\<rparr>"] by (auto simp: reads_key_def)
  obtain stray where s: "signaling_of_bytes sym_tls stray = Ok (ConnectionConfirmationMessage \<lparr>eku_epoch = 2\<rparr>)"
    using sym_signaling_reads by blast
  let ?st = "\<lparr>profile_id = [7], client_session = \<lparr>group_id = [1], epoch = 2\<rparr>,
    client_internal = WaitingForEpochKeyUpdate sym_applied\<rparr>"
  from rejected_confirmation_forgets_update [OF s a, of ?st sym_applied False sym_json sym_mls sym_signer "sym_member 1 2 12 None"] a
  show ?thesis by (fastforce simp: sym_lost_def)
qed

end
