(* ===== verification/Provider_Properties.thy ===== *)
theory Provider_Properties
  imports Delivery
begin

text \<open>
  Further properties of the provider: the order of an update and the bytes it precedes, reading as the
  repetition of single reads, the messages it cannot carry, the record that ends a connection, and
  the pre-handshake.
\<close>

section \<open>Sending\<close>

text \<open>
  C15. \<^verbatim>\<open>send_bytes\<close> rekeys before it sends.  When it succeeds, an update that is due has gone out
  first, under the old keys, the keys have changed and the policy is reset; if the handshake still
  waits for an answer the update is left out, which is no error, and the policy is not reset.  Then
  the bytes follow under the keys that hold by then, and they are counted.
\<close>
theorem send_bytes_rekeys_first:
  assumes "env_writer E = recording S" "provides b p ep" "buffer (writer_of p) = []"
    and "EncryptionProvider_send_bytes E b bs now p = Some (Ok (), p')"
  shows "\<exists>due out ep' p1. UpdatePolicy_update_is_due (env_chrono E) (update_policy p) now = (Ok due :: (EncryptionProviderError, bool) res) \<and>
    provides b p1 ep' \<and> provides b p' ep' \<and> responds E b out p p1 \<and>
    responds E b [(secret_of b (ep_secrets ep'), Application bs)] p1 p' \<and>
    (due \<and> endpoint_update (env_tls E) (env_json E) (env_mls E) b ep = (Ok out, ep') \<and>
       update_policy p1 = UpdatePolicy_reset (update_policy p) now \<or>
     (\<not> due \<or> endpoint_update (env_tls E) (env_json E) (env_mls E) b ep = (Err (MlsHandshakeErr WaitingForResponse), ep)) \<and>
       out = [] \<and> ep' = ep \<and> update_policy p1 = update_policy p) \<and>
    UpdatePolicy_increment_bytes_transferred (env_checks E) (update_policy p1) (of_nat (length bs)) =
      ((Ok () :: (EncryptionProviderError, unit) res), update_policy p')"
  by (rule send_bytes_effect [OF assms])

theorem send_bytes_rekeys_first_witness:
  "\<exists>p out ep p1. EncryptionProvider_send_bytes sym_env False [1, 2, 3] 0 (client_end sym_network) = Some (Ok (), p) \<and>
     endpoint_update sym_tls sym_json sym_mls False sym_client = (Ok out, ep) \<and>
     responds sym_env False out (client_end sym_network) p1 \<and>
     responds sym_env False [(secret_of False (ep_secrets ep), Application [1, 2, 3])] p1 p"
proof -
  obtain p where p: "EncryptionProvider_send_bytes sym_env False [1, 2, 3] 0 (client_end sym_network) = Some (Ok (), p)"
    using sym_client_send by blast
  have w: "env_writer sym_env = recording ready_sink" by simp
  have ok: "\<nexists>ep. endpoint_update sym_tls sym_json sym_mls False sym_client = (Err (MlsHandshakeErr WaitingForResponse), ep)"
    using sym_updates(1) by auto
  from send_bytes_rekeys_first [OF w sym_client_provides p] ok p show ?thesis by (auto simp: sym_update_due)
qed

section \<open>Reading\<close>

text \<open>One call of \<^verbatim>\<open>read_message\<close> and \<^verbatim>\<open>process_read_message\<close> that met a signaling message.\<close>

definition signaling_round ::
    "('s, 'g, 'm, 'o, 'r, 'w) env \<Rightarrow> bool \<Rightarrow> ('s, 'm, 'r, 'w) established \<Rightarrow> ('s, 'm, 'r, 'w) established \<Rightarrow> bool" where
  "signaling_round E b p p' \<longleftrightarrow> (\<exists>m p1. EncryptionProvider_read_message E p = Some (Ok (Some m), p1) \<and>
     EncryptionProvider_process_read_message E b m p1 = Some (Ok None, p'))"

definition last_read ::
    "('s, 'g, 'm, 'o, 'r, 'w) env \<Rightarrow> bool \<Rightarrow> ('s, 'm, 'r, 'w) established \<Rightarrow> bytes option \<Rightarrow> ('s, 'm, 'r, 'w) established \<Rightarrow> bool" where
  "last_read E b p r p' \<longleftrightarrow> (\<exists>message p1. EncryptionProvider_read_message E p = Some (Ok message, p1) \<and>
     (case message of None \<Rightarrow> r = None \<and> p' = p1
      | Some m \<Rightarrow> r \<noteq> None \<and> EncryptionProvider_process_read_message E b m p1 = Some (Ok r, p')))"

lemma process_read_cases:
  "EncryptionProvider_process_read_message E b (Application bs) p = Some (Ok (Some bs), p)"
  "EncryptionProvider_process_read_message E b (Signaling bs) p = Some (Ok r, p') \<longleftrightarrow>
     r = None \<and> handle_signaling E b bs p = Some (Ok (), p')"
  by (auto simp: EncryptionProvider_process_read_message_def bindA_eq_Ok)

lemma read_loop_rounds:
  fixes E :: "('s, 'g, 'm, 'o, 'r, 'w) env"
  assumes "read_loop E b message p = Some (Ok r, p')"
  shows "(message = None \<and> r = None \<and> p' = p) \<or> (\<exists>bs. message = Some (Application bs) \<and> r = Some bs \<and> p' = p) \<or>
    (\<exists>bs p1 q. message = Some (Signaling bs) \<and> handle_signaling E b bs p = Some (Ok (), p1) \<and>
       (signaling_round E b)\<^sup>*\<^sup>* p1 q \<and> last_read E b q r p')"
proof -
  let ?P = "\<lambda>(E :: ('s, 'g, 'm, 'o, 'r, 'w) env) b message p
      (res :: (EncryptionProviderError, bytes option, ('s, 'm, 'r, 'w) established) outcome). \<forall>r p'. res = (Ok r, p') \<longrightarrow>
    (message = None \<and> r = None \<and> p' = p) \<or> (\<exists>bs. message = Some (Application bs) \<and> r = Some bs \<and> p' = p) \<or>
    (\<exists>bs p1 q. message = Some (Signaling bs) \<and> handle_signaling E b bs p = Some (Ok (), p1) \<and>
       (signaling_round E b)\<^sup>*\<^sup>* p1 q \<and> last_read E b q r p')"
  have "?P E b message p (Ok r, p')"
  proof (rule read_loop.raw_induct [OF _ assms, where P = ?P])
    fix loop and E :: "('s, 'g, 'm, 'o, 'r, 'w) env" and b message p res
    assume hyp: "\<And>E b message p res. loop E b message p = Some res \<Longrightarrow> ?P E b message p res"
      and step: "(case message of None \<Rightarrow> Some (Ok None, p)
        | Some plaintext \<Rightarrow> (case plaintext of Application b \<Rightarrow> Some (Ok (Some b), p)
           | Signaling bs \<Rightarrow> bindA (handle_signaling E b bs p) (\<lambda>_ self.
               bindA (EncryptionProvider_read_message E self) (\<lambda>message self. loop E b message self)))) = Some res"
    show "?P E b message p res"
    proof (intro allI impI)
      fix r p' assume res: "res = (Ok r, p')"
      show "(message = None \<and> r = None \<and> p' = p) \<or> (\<exists>bs. message = Some (Application bs) \<and> r = Some bs \<and> p' = p) \<or>
        (\<exists>bs p1 q. message = Some (Signaling bs) \<and> handle_signaling E b bs p = Some (Ok (), p1) \<and>
           (signaling_round E b)\<^sup>*\<^sup>* p1 q \<and> last_read E b q r p')"
      proof (cases message)
        case None
        with step res show ?thesis by simp
      next
        case (Some m)
        show ?thesis
        proof (cases m)
          case (Application bs)
          with Some step res show ?thesis by simp
        next
          case (Signaling bs)
          with Some step res obtain p1 message' p2 where
            1: "handle_signaling E b bs p = Some (Ok (), p1)" "EncryptionProvider_read_message E p1 = Some (Ok message', p2)"
              "loop E b message' p2 = Some (Ok r, p')"
            by (auto simp: bindA_eq_Ok)
          have "\<exists>q. (signaling_round E b)\<^sup>*\<^sup>* p1 q \<and> last_read E b q r p'"
            using hyp [OF 1(3), rule_format, OF HOL.refl]
          proof (elim disjE exE conjE)
            assume "message' = None" "r = None" "p' = p2"
            with 1(2) show ?thesis by (intro exI [of _ p1]) (simp add: last_read_def)
          next
            fix bs' assume "message' = Some (Application bs')" "r = Some bs'" "p' = p2"
            with 1(2) show ?thesis by (intro exI [of _ p1]) (simp add: last_read_def process_read_cases)
          next
            fix bs' p3 q
            assume *: "message' = Some (Signaling bs')" "handle_signaling E b bs' p2 = Some (Ok (), p3)"
              "(signaling_round E b)\<^sup>*\<^sup>* p3 q" "last_read E b q r p'"
            then have "signaling_round E b p1 p3"
              using 1(2) by (auto simp: signaling_round_def process_read_cases)
            with * show ?thesis by (meson converse_rtranclp_into_rtranclp)
          qed
          with Some Signaling 1(1) show ?thesis by blast
        qed
      qed
    qed
  qed
  then show ?thesis by simp
qed

lemma read_bytes_unfold:
  "EncryptionProvider_read_bytes_inner E b p =
     bindA (EncryptionProvider_read_message E p) (\<lambda>message p.
       case message of None \<Rightarrow> Some (Ok None, p)
       | Some (Application bs) \<Rightarrow> Some (Ok (Some bs), p)
       | Some (Signaling bs) \<Rightarrow> bindA (handle_signaling E b bs p) (\<lambda>_ p. EncryptionProvider_read_bytes_inner E b p))"
  unfolding EncryptionProvider_read_bytes_inner_def
  by (subst (1) read_loop.simps [abs_def]) (rule HOL.refl)

lemma last_read_returns: "last_read E b p r p' \<Longrightarrow> EncryptionProvider_read_bytes_inner E b p = Some (Ok r, p')"
  by (subst read_bytes_unfold)
    (auto simp: last_read_def process_read_cases split: option.splits InnerPlaintext.splits)

lemma signaling_round_continues:
  "signaling_round E b p q \<Longrightarrow> EncryptionProvider_read_bytes_inner E b p = EncryptionProvider_read_bytes_inner E b q"
proof -
  assume "signaling_round E b p q"
  then obtain bs p1 where "EncryptionProvider_read_message E p = Some (Ok (Some (Signaling bs)), p1)"
    "handle_signaling E b bs p1 = Some (Ok (), q)"
    unfolding signaling_round_def
    by (metis InnerPlaintext.exhaust process_read_cases option.distinct(1) option.inject prod.inject res.inject(1))
  then show ?thesis by (subst read_bytes_unfold) simp
qed


section \<open>Messages larger than a record\<close>

text \<open>
  C33. A message that needs two records is not received: \<^verbatim>\<open>send\<close> splits a serialised plaintext of more
  than 32768 bytes over several records, but each record that arrives is deserialised on its own, and
  the first one holds an incomplete message, so that reading fails with a codec error although every
  record was delivered and decrypted.
\<close>
theorem oversized_message_is_not_received:
  assumes "tls_laws (env_tls E)" "env_reader E = arrived" "linked c (codec_of q)" "\<not> poisoned (ch_cipher (prov_channels q))"
    and "max_frame_size c = TLS_MAX_RECORD_SIZE"
    and "InnerPlaintext_ser (env_tls E) m = Ok bs" "32768 < length bs"
    and "seal_message (env_checks E) (env_tls E) c m = (Ok cts, c')"
    and "ch_reader (prov_channels q) = map (\<lambda>d. packet d) cts"
  shows "2 \<le> length cts \<and> (\<exists>e q'. EncryptionProvider_read_message E q = Some (Err (ProviderCodecError e), q'))"
proof -
  have "seal_all (seal_record (env_checks E)) c (chunks 32768 bs) = (Ok cts, c')"
    using assms(5,6,8) by (auto simp: seal_message_Ok_iff encrypt_message_Ok_iff)
  moreover have ch: "chunks 32768 bs = take 32768 bs # chunks 32768 (drop 32768 bs)"
    using assms(7) by (intro chunks_unfold) auto
  ultimately obtain ct cts' c1 where
    one: "seal_record (env_checks E) c (take 32768 bs) = (Ok ct, c1)" and
    rest: "seal_all (seal_record (env_checks E)) c1 (chunks 32768 (drop 32768 bs)) = (Ok cts', c')" and cts: "cts = ct # cts'"
    by (auto simp: bindS_eq_Ok)
  have "drop 32768 bs \<noteq> []" using assms(7) by simp
  then have "chunks 32768 (drop 32768 bs) \<noteq> []" by (subst chunks_unfold) auto
  with seal_all_length [OF rest] cts have two: "2 \<le> length cts" by (cases cts') auto
  from record_channel.open_seal [OF assms(3) one] obtain r where
    r: "open_record (env_checks E) (codec_of q) ct = (Ok (take 32768 bs), r)" by blast
  have "strict_prefix (take 32768 bs) bs"
    using assms(7) by (auto simp: strict_prefix_def take_is_prefix dest!: arg_cong [where f = length])
  from inner_plaintext.dec_truncated [OF assms(1,6) this] obtain e where
    e: "InnerPlaintext_de (env_tls E) (take 32768 bs) = Err e" by blast
  then have "\<exists>q'. EncryptionProvider_poll_next E q = (Ready (Some (Err (ProviderCodecError e))), q')"
    using r assms(2,4,9) cts
    by (simp add: EncryptionProvider_poll_next_def channels_poll_next_def TlsAeadStream_poll_next_def with_lock_def
        open_record_def plaintext_of_packet_def)
  with two show ?thesis by (auto simp: EncryptionProvider_read_message_def)
qed

lemma sym_large_ser:
  "\<exists>bs. InnerPlaintext_ser sym_tls (Application (replicate 40000 0)) = Ok bs \<and> 32768 < length bs"
  by (simp add: InnerPlaintext_ser_def sym_tls_def std_codec_def fixed_field_def vec_field_def vec_ser_def ser_seq_def Let_def)

text \<open>The symbolic network's server, with the records of a message that is too large.\<close>

abbreviation sym_receiver :: "bytes list \<Rightarrow> (sym_storage, sym_message, unit) peer" where
  "sym_receiver cts \<equiv>
     set_channels ((prov_channels (server_end sym_network))\<lparr>ch_reader := map (\<lambda>d. packet d) cts\<rparr>) (server_end sym_network)"

lemma sym_ends_linked:
  "linked (codec_of (client_end sym_network)) (codec_of (sym_receiver cts))"
  "\<not> poisoned (ch_cipher (prov_channels (sym_receiver cts)))"
  "max_frame_size (codec_of (client_end sym_network)) = TLS_MAX_RECORD_SIZE"
  using new_channels_linked [OF aead_correct_sym_crypto sym_new_channels] new_channels [OF sym_new_channels(1)]
    new_channels [OF sym_new_channels(2)]
  by simp_all

theorem oversized_message_is_not_received_witness:
  "\<exists>cts c'. seal_message False sym_tls (codec_of (client_end sym_network)) (Application (replicate 40000 0)) = (Ok cts, c') \<and>
     2 \<le> length cts \<and> (\<exists>e q'. EncryptionProvider_read_message sym_env (sym_receiver cts) = Some (Err (ProviderCodecError e), q'))"
proof -
  let ?c = "codec_of (client_end sym_network)"
  obtain bs where bs: "InnerPlaintext_ser sym_tls (Application (replicate 40000 0)) = Ok bs" "32768 < length bs"
    using sym_large_ser by blast
  have k: "keyed (ep_secrets sym_client) False ?c" "crypto_provider ?c = sym_crypto"
    using sym_network_rel by (simp_all add: provides_def peer_ok_def suite_of_def)
  have "\<exists>cts c'. encrypt_message False ?c bs = (Ok cts, c')"
    by (rule encrypt_message_total [OF _ sym_ends_linked(3) k(1)]) (simp add: k(2) sym_crypto_total)
  then obtain cts c' where sealed: "seal_message False sym_tls ?c (Application (replicate 40000 0)) = (Ok cts, c')"
    using bs(1) by (auto simp: seal_message_Ok_iff)
  from oversized_message_is_not_received [of sym_env ?c "sym_receiver cts" _ bs cts c'] sym_tls_laws sym_ends_linked bs sealed
  show ?thesis by fastforce
qed

section \<open>An empty plaintext\<close>

text \<open>
  C34. A record whose plaintext is empty ends the connection: an authenticated record without even the
  type byte makes \<^verbatim>\<open>decrypt\<close> panic while it holds the cipher's lock, and from then on neither half of
  the connection can send, receive or change keys: each call fails with \<^verbatim>\<open>PoisonedLock\<close>.
\<close>
theorem empty_plaintext_poisons_connection:
  assumes "\<not> poisoned m" "reader i = (Ready (Some (Ok pkt)), i')"
    and "make_iv (recv_iv (contents m)) (recv_seq (contents m)) = Ok nonce"
    and "aead_decrypt (crypto_provider (contents m)) (cipher (contents m)) (recv_key (contents m)) (data pkt) nonce (header pkt) = Ok []"
  shows "\<exists>m'. TlsAeadStream_poll_next oc reader (m, i) = (Ready (Some Panic), (m', i')) \<and> poisoned m' \<and>
    (\<forall>sink item. buffer sink = [] \<longrightarrow> TlsAeadSink_start_send oc (m', sink) item = (Err PoisonedLock, (m', sink))) \<and>
    (\<forall>j pkt' j'. reader j = (Ready (Some (Ok pkt')), j') \<longrightarrow>
       TlsAeadStream_poll_next oc reader (m', j) = (Ready (Some (Err PoisonedLock)), (m', j'))) \<and>
    (\<forall>u is_server. TlsAeadSink_update_traffic_secrets m' u is_server = (Err PoisonedLock, m'))"
proof -
  have "\<exists>c. TlsAeadCodec_decrypt oc (contents m) (data pkt) (header pkt) = (Panic, c)"
    using assms(3,4) by (auto simp: TlsAeadCodec_decrypt_def bindS_def add_u64_def)
  then obtain c where "TlsAeadCodec_decrypt oc (contents m) (data pkt) (header pkt) = (Panic, c)" by blast
  with assms(1,2) show ?thesis
    by (intro exI [of _ "\<lparr>contents = c, poisoned = True\<rparr>"])
      (simp add: TlsAeadStream_poll_next_def TlsAeadSink_start_send_def TlsAeadSink_update_traffic_secrets_def with_lock_def)
qed

theorem empty_plaintext_poisons_connection_witness:
  "\<exists>m'. TlsAeadStream_poll_next False arrived (\<lparr>contents = sym_codec 0, poisoned = False\<rparr>,
       [packet (sym_tag (recv_key (sym_codec 0)) (rfc8446_nonce (recv_iv (sym_codec 0)) 0) (record_header 16) [])]) =
     (Ready (Some Panic), (m', [])) \<and> poisoned m'"
proof -
  let ?tag = "sym_tag (recv_key (sym_codec 0)) (rfc8446_nonce (recv_iv (sym_codec 0)) 0) (record_header 16) []"
  have iv: "make_iv (recv_iv (sym_codec 0)) (recv_seq (sym_codec 0)) = Ok (rfc8446_nonce (recv_iv (sym_codec 0)) 0)"
    by (simp add: make_iv_eq sym_codec_def TLS13_IV_SIZE_def)
  have dec: "aead_decrypt (crypto_provider (sym_codec 0)) (cipher (sym_codec 0)) (recv_key (sym_codec 0)) (data (packet ?tag))
      (rfc8446_nonce (recv_iv (sym_codec 0)) 0) (header (packet ?tag)) = Ok []"
    by (simp add: sym_codec_def sym_aead_decrypt_def sym_tag_def)
  from empty_plaintext_poisons_connection [of "\<lparr>contents = sym_codec 0, poisoned = False\<rparr>" arrived "[packet ?tag]" "packet ?tag"
      "[]" _ False] iv dec show ?thesis by fastforce
qed

section \<open>The pre-handshake\<close>

text \<open>
  C27. The X25519 pre-handshake agrees: when each side's public key reaches the other, both handshakes
  succeed with the same shared secret, each having sent exactly its public key and consumed exactly
  the other's, and protected channels made from traffic secrets derived from it decrypt each other's
  records in both directions.
\<close>
theorem x25519_pre_handshake_agrees:
  assumes "x25519_ok D" "socket_error cs = None" "socket_error ss = None"
    and "incoming cs = public_of D b @ crest" "incoming ss = public_of D a @ srest"
  shows "\<exists>r. X25519_client_handshake D (Ok a) cs = (Ok r, cs\<lparr>incoming := crest, outgoing := outgoing cs @ public_of D a\<rparr>) \<and>
    X25519_server_handshake D (Ok b) ss = (Ok r, ss\<lparr>incoming := srest, outgoing := outgoing ss @ public_of D b\<rparr>) \<and>
    (\<forall>C ts rd w rd' w' cch sch. aead_correct C AEAD_ALGORITHM \<longrightarrow> derive_traffic_secrets C (shared_secret r) = Ok ts \<longrightarrow>
       ProtectedChannels_new C False rd w ts = Ok cch \<longrightarrow> ProtectedChannels_new C True rd' w' ts = Ok sch \<longrightarrow>
       linked (contents (ch_cipher cch)) (contents (ch_cipher sch)) \<and>
       linked (contents (ch_cipher sch)) (contents (ch_cipher cch)))"
proof -
  have k: "length (public_of D x) = X25519_PUBLIC_KEY_LENGTH" for x using assms(1) by (simp add: x25519_ok_def)
  have dh: "dh D b (public_of D a) = dh D a (public_of D b)" using assms(1) by (simp add: x25519_ok_def)
  show ?thesis
    using assms(2-5) k dh new_channels_linked
    by (intro exI [of _ "\<lparr>shared_secret = dh D a (public_of D b), session_id = None\<rparr>"] conjI allI impI)
      (simp_all add: X25519_client_handshake_def X25519_server_handshake_def write_all_def read_exact_def)
qed

definition sym_x25519 :: x25519 where
  "sym_x25519 = \<lparr>public_of = (\<lambda>a. take 32 (a @ replicate 32 0)),
     dh = (\<lambda>a p. map2 (+) (take 32 (a @ replicate 32 0)) p)\<rparr>"

lemma map2_plus_commute: "map2 (+) xs ys = map2 (+) ys (xs :: u8 list)"
  by (subst zip_commute) (simp add: case_prod_unfold add.commute)

lemma sym_x25519_ok: "x25519_ok sym_x25519"
  by (simp add: x25519_ok_def sym_x25519_def X25519_PUBLIC_KEY_LENGTH_def map2_plus_commute min_def)

theorem x25519_pre_handshake_agrees_witness:
  "\<exists>r cs ss. X25519_client_handshake sym_x25519 (Ok [1]) \<lparr>incoming = public_of sym_x25519 [2], outgoing = [], socket_error = None\<rparr> =
       (Ok r, cs) \<and>
     X25519_server_handshake sym_x25519 (Ok [2]) \<lparr>incoming = public_of sym_x25519 [1], outgoing = [], socket_error = None\<rparr> =
       (Ok r, ss)"
proof -
  let ?s = "\<lambda>k. \<lparr>incoming = public_of sym_x25519 k, outgoing = [], socket_error = None\<rparr>"
  from x25519_pre_handshake_agrees [OF sym_x25519_ok, of "?s [2]" "?s [1]" "[2]" "[]" "[1]" "[]"] show ?thesis by fastforce
qed

end
