(* ===== verification/Codec_Invariant.thy ===== *)
theory Codec_Invariant
  imports Tls_Aead
begin

text \<open>
  The sizes of a codec's keys and IVs as an invariant of all its operations (\<^verbatim>\<open>src/tls_aead/mod.rs\<close>).
\<close>

section \<open>The invariant\<close>

definition codec_ok :: "TlsAeadCodec \<Rightarrow> bool" where
  "codec_ok c \<longleftrightarrow> length (send_iv c) = TLS13_IV_SIZE \<and> length (recv_iv c) = TLS13_IV_SIZE \<and>
     length (send_key c) = key_size (crypto_provider c) (cipher c) \<and>
     length (recv_key c) = key_size (crypto_provider c) (cipher c) \<and> max_frame_size c \<noteq> 0"

text \<open>Every call on a codec, whatever its outcome.\<close>

inductive codec_step :: "bool \<Rightarrow> TlsAeadCodec \<Rightarrow> TlsAeadCodec \<Rightarrow> bool" for oc where
  encrypts: "TlsAeadCodec_encrypt oc c plain buf = (r, (c', buf')) \<Longrightarrow> codec_step oc c c'"
| frames: "TlsAeadCodec_encrypt_with_header oc c plain = (r, c') \<Longrightarrow> codec_step oc c c'"
| decrypts: "TlsAeadCodec_decrypt oc c ct ad = (r, c') \<Longrightarrow> codec_step oc c c'"
| unframes: "TlsAeadCodec_decrypt_with_header oc c bs = (r, c') \<Longrightarrow> codec_step oc c c'"
| updates: "TlsAeadCodec_update_traffic_secrets c u is_server = (r, c') \<Longrightarrow> codec_step oc c c'"

text \<open>Only the sequence numbers change when records are made or opened.\<close>

definition same_keys :: "TlsAeadCodec \<Rightarrow> TlsAeadCodec \<Rightarrow> bool" where
  "same_keys c c' \<longleftrightarrow> (\<exists>m n. c' = c\<lparr>send_seq := m, recv_seq := n\<rparr>)"

lemma same_keysI [intro]: "same_keys c c" "same_keys c (c\<lparr>send_seq := n\<rparr>)" "same_keys c (c\<lparr>recv_seq := n\<rparr>)"
  unfolding same_keys_def
  by (rule exI [of _ "send_seq c"], rule exI [of _ "recv_seq c"], simp)
    (rule exI [of _ n], rule exI [of _ "recv_seq c"], simp, rule exI [of _ "send_seq c"], rule exI [of _ n], simp)

lemma same_keys_trans: "same_keys a b \<Longrightarrow> same_keys b c \<Longrightarrow> same_keys a c"
  unfolding same_keys_def by (elim exE) (simp, blast)

lemma encrypt_loop_same_keys: "encrypt_loop oc cs (c, buf) = (r, (c', buf')) \<Longrightarrow> same_keys c c'"
proof (induction cs arbitrary: c buf)
  case (Cons x cs)
  then show ?case
    by (cases "encrypt_chunk c x"; cases "add_u64 oc (send_seq c) 1 :: (TlsAeadCodecError, u64) res")
      (auto intro: same_keys_trans [OF same_keysI(2)])
qed auto

lemma encrypt_with_header_loop_same_keys:
  "encrypt_with_header_loop oc cs (c, frames) = (r, (c', frames')) \<Longrightarrow> same_keys c c'"
proof (induction cs arbitrary: c frames)
  case (Cons x cs)
  then show ?case
    by (cases "encrypt_chunk c x"; cases "add_u64 oc (send_seq c) 1 :: (TlsAeadCodecError, u64) res")
      (auto simp: Let_def intro: same_keys_trans [OF same_keysI(2)])
qed auto

lemma decrypt_same_keys: "TlsAeadCodec_decrypt oc c ct ad = (r, c') \<Longrightarrow> same_keys c c'"
  by (auto simp: TlsAeadCodec_decrypt_def bindS_def split: res.splits prod.splits if_splits)

lemma same_keys_ok: "same_keys c c' \<Longrightarrow> codec_ok c \<Longrightarrow> codec_ok c' \<and> crypto_provider c' = crypto_provider c \<and> hash c' = hash c \<and> cipher c' = cipher c"
  by (auto simp: same_keys_def codec_ok_def)

lemma update_ok:
  assumes "TlsAeadCodec_update_traffic_secrets c u is_server = (r, c')" "codec_ok c"
    and "hkdf_expand_length (crypto_provider c) (hash c)"
  shows "codec_ok c' \<and> crypto_provider c' = crypto_provider c \<and> hash c' = hash c \<and> cipher c' = cipher c"
proof (cases "r = Ok ()")
  case True
  then show ?thesis
    using assms expand_client_secret_lengths [OF assms(3)] expand_server_secret_lengths [OF assms(3)]
    by (cases u; cases is_server) (auto simp: bindS_eq_Ok codec_ok_def)
next
  case False
  with update_traffic_secrets_error [OF assms(1)] assms(2) show ?thesis by simp
qed

lemma codec_step_ok:
  assumes "codec_step oc c c'" "codec_ok c" "hkdf_expand_length (crypto_provider c) (hash c)"
  shows "codec_ok c' \<and> crypto_provider c' = crypto_provider c \<and> hash c' = hash c \<and> cipher c' = cipher c"
  using assms(1)
proof cases
  case (encrypts plain buf r buf')
  then have "same_keys c c'"
    by (auto simp: TlsAeadCodec_encrypt_def split: if_splits dest: encrypt_loop_same_keys)
  with assms(2) show ?thesis by (blast dest: same_keys_ok)
next
  case (frames plain r)
  then have "same_keys c c'"
    by (auto simp: TlsAeadCodec_encrypt_with_header_def split: if_splits prod.splits dest: encrypt_with_header_loop_same_keys)
  with assms(2) show ?thesis by (blast dest: same_keys_ok)
next
  case (decrypts ct ad r)
  with assms(2) show ?thesis by (blast dest: same_keys_ok decrypt_same_keys)
next
  case (unframes bs r)
  then have "same_keys c c'"
    by (auto simp: TlsAeadCodec_decrypt_with_header_def split: if_splits dest: decrypt_same_keys)
  with assms(2) show ?thesis by (blast dest: same_keys_ok)
next
  case (updates u is_server r)
  with assms(2,3) show ?thesis by (blast dest: update_ok)
qed

lemma new_codec_ok:
  assumes "TlsAeadCodec_new C is_server ts [] h a = Ok c" "hkdf_expand_length C h"
  shows "codec_ok c"
proof -
  note n = TlsAeadCodec_new_Ok [OF assms(1)]
  from n(1) n(4-6) assms(2) expand_client_secret_lengths [OF assms(2)] expand_server_secret_lengths [OF assms(2)] n(7)
  show ?thesis by (cases is_server) (auto simp: keyed_def codec_ok_def)
qed

section \<open>Properties\<close>

text \<open>
  C20. A codec stays well formed: after any sequence of calls, failed ones included, both keys have
  the cipher's key size and both IVs twelve bytes, cipher, hash and crypto provider are those it was
  made with, and so computing a nonce never fails.
\<close>
theorem codec_stays_well_formed:
  assumes "TlsAeadCodec_new C is_server ts [] h a = Ok c" "hkdf_expand_length C h" "(codec_step oc)\<^sup>*\<^sup>* c c'"
  shows "length (send_key c') = key_size C a \<and> length (recv_key c') = key_size C a \<and>
    crypto_provider c' = C \<and> hash c' = h \<and> cipher c' = a \<and>
    make_iv (send_iv c') seq = Ok (rfc8446_nonce (send_iv c') seq) \<and>
    make_iv (recv_iv c') seq = Ok (rfc8446_nonce (recv_iv c') seq)"
proof -
  note n = TlsAeadCodec_new_Ok [OF assms(1)]
  from assms(3) have "codec_ok c' \<and> crypto_provider c' = C \<and> hash c' = h \<and> cipher c' = a"
  proof (induction rule: rtranclp_induct)
    case base
    with new_codec_ok [OF assms(1,2)] n show ?case by simp
  next
    case (step d d')
    with codec_step_ok [OF step.hyps(2)] assms(2) show ?case by simp
  qed
  then show ?thesis by (auto simp: codec_ok_def make_iv_eq)
qed

theorem codec_stays_well_formed_witness:
  "\<exists>c c'. TlsAeadCodec_new sym_crypto False sym_secrets [] Sha2_512 Aes256Gcm = Ok c \<and>
     TlsAeadCodec_update_traffic_secrets c (ClientSecretUpdate (ClientSecret [7])) False = (Ok (), c') \<and>
     make_iv (send_iv c') 5 = Ok (rfc8446_nonce (send_iv c') 5)"
proof -
  obtain c where c: "TlsAeadCodec_new sym_crypto False sym_secrets [] Sha2_512 Aes256Gcm = Ok c"
    using sym_crypto_new by blast
  obtain c' where c': "TlsAeadCodec_update_traffic_secrets c (ClientSecretUpdate (ClientSecret [7])) False = (Ok (), c')"
    using sym_crypto_update TlsAeadCodec_new_Ok(4) [OF c] by blast
  have "(codec_step False)\<^sup>*\<^sup>* c c'" by (rule r_into_rtranclp) (rule codec_step.updates [OF c'])
  from codec_stays_well_formed [OF c hkdf_expand_length_sym_crypto this, of 5] c c' show ?thesis by blast
qed

end
