(* ===== verification/Spec2Isabelle.thy ===== *)
theory Spec2Isabelle
  imports Transport_Tests Rejected_Messages Provider_Properties Codec_Invariant
begin

text \<open>
  Verification of the MLS-TLS protocol crate.  The paths below are relative to \<^verbatim>\<open>src/src\<close>.

  The program protects a TCP connection between a client and a server with TLS 1.3 records whose
  keys come from an MLS group of two members.  An \<^verbatim>\<open>EncryptionProvider\<close> runs an optional pre-handshake
  (pre-shared key or X25519) and then an MLS handshake over the socket, derives traffic secrets,
  and from then on sends and receives application bytes.  Either side may renew the keys at any time
  by an MLS commit, which travels in signaling messages between the application messages; a policy
  on elapsed time and traffic decides when.  A client's handshake state is kept in an SQLite table.

  \<^bold>\<open>Theories, in dependency order, and the code they model\<close>

  \<^item> \<open>Prelude\<close>: results with errors and panics, the question-mark operator on state-passing functions
    (\<open>bindS\<close>), fixed-width arithmetic with and without overflow checks, byte strings, \<^verbatim>\<open>chunks\<close>.
  \<^item> \<open>Wire_Codec\<close>, \<open>Channel\<close>, \<open>Keyed_Store\<close>, \<open>Refinement\<close>: the interfaces, as locales.  A prefix-free
    wire format; an ordered channel with linked ends; a store of records with a key; refinement of step
    relations.  Each is interpreted on the model: frames and every message type; the record layer; the
    table of client states; the handshake handlers against the key-update protocol and the providers
    against the handshake handlers.  The trait \<^verbatim>\<open>PreHandshakeState\<close> is a locale of \<open>Connecting\<close>,
    interpreted on the unprotected state and on the one after a pre-handshake.
  \<^item> \<open>Frame_Codec\<close> (\<^verbatim>\<open>tls_aead/codec.rs\<close>): record frames.
  \<^item> \<open>Key_Generation\<close> (\<^verbatim>\<open>tls_aead/key_generation.rs\<close>): secrets and the key schedule.
  \<^item> \<open>Tls_Aead\<close>, \<open>Codec_Invariant\<close> (\<^verbatim>\<open>tls_aead/mod.rs\<close>): the codec that encrypts and decrypts records.
  \<^item> \<open>Stream_Sink\<close> (\<^verbatim>\<open>tls_aead/stream_sink.rs\<close>): the poll functions around it, over any transport.
  \<^item> \<open>Update_Policy\<close> (\<^verbatim>\<open>encryption_provider/update_policy.rs\<close>).
  \<^item> \<open>Messages\<close> (\<^verbatim>\<open>mls_handshake/messages.rs\<close>): message types and their serialisation.
  \<^item> \<open>Openmls\<close> (\<^verbatim>\<open>mls_handshake/openmls_provider.rs\<close>, \<^verbatim>\<open>authentication.rs\<close>, the errors of
    \<^verbatim>\<open>state_machine/mod.rs\<close>): what the program uses of OpenMLS and SQLite, as a parameter with laws.
  \<^item> \<open>Mls_Session\<close> (\<^verbatim>\<open>state_machine/mls_group.rs\<close>), \<open>Handshake_State\<close> (types and shared methods of
    \<^verbatim>\<open>state_machine\<close>), \<open>Persistence\<close> (\<^verbatim>\<open>mls_handshake/persistence.rs\<close>), \<open>Client_State\<close>
    (\<^verbatim>\<open>state_machine/client.rs\<close>), \<open>Server_State\<close> (\<^verbatim>\<open>state_machine/server.rs\<close>).
  \<^item> \<open>Async\<close>: awaiting, and \<^verbatim>\<open>SinkExt::send\<close>.
  \<^item> \<open>Mls_Handshake\<close> (\<^verbatim>\<open>mls_handshake/mod.rs\<close>, the traits of \<^verbatim>\<open>handshake.rs\<close>).
  \<^item> \<open>Pre_Handshake\<close> (\<^verbatim>\<open>pre_handshake\<close>), \<open>Encryption_Provider\<close> (\<^verbatim>\<open>encryption_provider/mod.rs\<close>).
  \<^item> \<open>Symbolic_Crypto\<close>, \<open>Symbolic_Mls\<close>: small executable instances of the crypto provider and of MLS that
    meet the laws; they show at concrete inputs that the hypotheses can hold.
  \<^item> \<open>Key_Sync_Spec\<close>, \<open>Key_Sync\<close>, \<open>Establishment\<close>, \<open>Resumption\<close>, \<open>Rejected_Messages\<close>,
    \<open>Client_Persistence\<close>, \<open>Disconnection\<close>: properties across the handshake's components.
  \<^item> \<open>Provider_Steps\<close>, \<open>Network\<close>, \<open>Network_Refinement\<close>, \<open>Provider_Liveness\<close>, \<open>Delivery\<close>,
    \<open>Provider_Properties\<close>: properties of one provider and of two connected ones.
  \<^item> \<open>Connecting\<close>: from two sockets to two connected providers.  \<open>Handshake_Liveness\<close>: the first
    handshake completes.  \<open>End_To_End\<close>: the guarantees of a whole connection, from the constructors over
    the handshake and the exchange of bytes to a resumption.
  \<^item> \<open>Update_Rounds\<close>: the handlers of both state machines as total steps between named positions, updates
    that request an update back included.  \<open>Handshake_Tests\<close> (\<^verbatim>\<open>state_machine/tests.rs\<close>),
    \<open>Transport_Tests\<close> (the test modules of \<^verbatim>\<open>mls_handshake/mod.rs\<close> and \<^verbatim>\<open>tls_aead/codec.rs\<close>): the repository's tests as functions
    of their environment, and that they pass in every one in which nothing outside the program fails.

  \<^bold>\<open>How the code is rendered\<close>

  Structs are records and enums datatypes with the source's names.  A method on \<^verbatim>\<open>&mut self\<close> is a
  function on the state that returns the state also when it fails; \<open>Err\<close> is an error the code
  returns and \<open>Panic\<close> a panic.  The flag \<open>oc\<close> (\<open>env_checks\<close> in an environment) says whether the build
  has overflow checks and debug assertions; the theorems hold for both settings unless they say
  otherwise.  Sequence numbers, epochs, lengths and byte counters have the width they have in the
  source.  A lock is a value with a flag for poisoning.  An \<^verbatim>\<open>async\<close> call has the value \<open>None\<close> when it
  never completes; the only loops that need not end are awaiting a poll function (\<open>await_poll\<close>) and
  reading until application bytes arrive (\<open>read_loop\<close>), both partial functions, and no fuel is used.
  \<^verbatim>\<open>IS_SERVER\<close>, a constant parameter of types in the source, is an argument.

  \<^bold>\<open>Parameters and their laws\<close>

  Code outside the repository is an argument: the AEAD and HKDF (\<open>crypto\<close>; \<open>aead_correct\<close>,
  \<open>hkdf_expand_length\<close>, \<open>crypto_total\<close>), the codec of integers and vectors (\<open>tls_codec\<close>;
  \<open>tls_laws\<close>), OpenMLS (\<open>openmls\<close>; \<open>mls_laws\<close>, \<open>mls_joins\<close>, \<open>mls_key_packages\<close>, \<open>mls_total\<close>, \<open>mls_can_join\<close>, \<open>mls_deletes\<close>,
  \<open>mls_rejects_other_epochs\<close>, \<open>client_commits_as\<close>, stated through a view of groups, commits and welcomes), JSON
  (\<open>json\<close>; \<open>json_ok\<close>), X25519 (\<open>x25519_ok\<close>), date arithmetic (\<open>chrono_exact\<close>) and the socket's halves.
  The traits of futures are parameters without laws where a property holds for every transport; where
  a theorem says that something completes, the transport is ready (\<open>always_ready\<close>).  \<open>env_laws\<close> and
  \<open>env_works\<close> of \<open>End_To_End\<close> collect the laws, and that nothing outside fails, for one environment.

  \<^bold>\<open>What is shown\<close>

  The record layer: nonces are those of RFC 8446 and never repeat under one key, records cut anywhere in
  the byte stream are reassembled and decrypted in order, the sink neither loses nor reorders records,
  and the keys of both roles match through every sequence of updates.  The handshake: over either
  transport it establishes a common epoch, the same secrets and channels in step, completes when nothing
  outside the program fails, and an impostor is refused.  Resumption: wherever the connection is lost, the state the client finds in its database
  brings both sides back together, with one exception (\<open>confirmation_lost\<close>), which is a finding;
  \<^verbatim>\<open>client_handshake\<close> itself does not call \<^verbatim>\<open>resume\<close> yet, so this is a property of the state machines.
  Reconnecting with a new handshake, which deletes the earlier state, succeeds from everywhere.
  Key updates: \<open>Key_Sync_Spec\<close> is an abstract protocol with an invariant of four phases; the handlers
  refine it, so that in every interleaving, also when both sides update at once, each message is
  protected by the secret its receiver holds, honest messages are accepted, and updates complete.
  The provider: two connected providers refine that system down to the records; bytes arrive in
  order and, when nothing outside the program fails, completely.  Persistence: the table behaves as a
  map and holds the client's current state after every handler.  The error behaviour that surprised is
  stated as theorems too: lost confirmations, messages larger than a record, empty plaintexts,
  rejected messages, client updates that request an update back, unknown versions, minimal records and
  lengths of more than sixteen bits.  The tests: an update that the server requests back, resumption,
  crossing and lost updates succeed as the repository's tests expect, for every environment and in any
  order and number.

  \<^bold>\<open>Not modelled\<close>

  The tests of \<^verbatim>\<open>encryption_provider/tests.rs\<close>, which are loops of asynchronous tasks over TCP
  listeners that restart with each connection; what they check of one connection is in
  \<open>End_To_End\<close> and \<open>Provider_Properties\<close>.  \<^verbatim>\<open>lib.rs\<close> (module declarations); the functions
  \<^verbatim>\<open>initialize_storage\<close> of the pre-handshakes, which are empty; accessors, which are the selectors of the
  records; logging; connecting and accepting TCP sockets.  OpenMLS's SQLite migrations are one opaque call.
  Two tasks that run at once are not interleaved poll by poll in the tests: each is run on the packets
  that the other writes.  Secrecy is not stated: the laws of the AEAD are those of correctness, and the
  adversary of the error theorems is a peer or a network that sends unexpected messages.
\<close>

end
